theory Spec2Isabelle
  imports Complex_Main "HOL-Library.Multiset"
begin

section \<open>Configuration and model selection\<close>

text \<open>
  The configuration object (\<^verbatim>\<open>Params\<close>) is a collaborator of \<^verbatim>\<open>main.py\<close>; the record
  below has one field for every attribute and accessor that \<^verbatim>\<open>main.py\<close> reads. The
  attribute holding the dry-run flag is spelled \<^verbatim>\<open>dry_ryn\<close> in the source.
\<close>

record params =
  model_name :: string
  optimizer :: string
  lr :: real
  momentum :: real
  epochs :: int
  batch_size :: int
  test_batch_size :: int
  dry_ryn :: bool
  last_checkpoint :: string
  checkpoint_path :: string

text \<open>The four architectures; each constructor of the source is one value.\<close>

datatype arch = PointNet | PointAttentionNet | AttentionDGCNN | DGCNN

text \<open>
  \<^verbatim>\<open>select_model\<close>: an \<^verbatim>\<open>if/elif/else\<close> chain on \<^verbatim>\<open>params.model\<close>, in the source's order.
\<close>

definition select_model :: "'a params_scheme \<Rightarrow> arch" where
  "select_model p =
     (if model_name p = ''PointNet'' then PointNet
      else if model_name p = ''PointAttentionNet'' then PointAttentionNet
      else if model_name p = ''AttentionDGCNN'' then AttentionDGCNN
      else DGCNN)"

section \<open>Floating-point values and tensors\<close>

text \<open>
  Tensor elements and Python floats are modelled as extended reals with a NaN: a finite
  value is an exact real (rounding and overflow are not modelled, and there is one zero,
  taken as positive), and \<open>PInf\<close>, \<open>NInf\<close>, \<open>NaN\<close> are the IEEE special values that
  tensor arithmetic produces instead of raising.
\<close>

datatype fl = Fin real | PInf | NInf | NaN

datatype error = ValueError | RuntimeError | ZeroDivisionError | FileNotFoundError

fun fneg :: "fl \<Rightarrow> fl" where
  "fneg (Fin x) = Fin (- x)"
| "fneg PInf = NInf"
| "fneg NInf = PInf"
| "fneg NaN = NaN"

fun fadd :: "fl \<Rightarrow> fl \<Rightarrow> fl" where
  "fadd NaN b = NaN"
| "fadd a NaN = NaN"
| "fadd (Fin x) (Fin y) = Fin (x + y)"
| "fadd PInf NInf = NaN"
| "fadd NInf PInf = NaN"
| "fadd PInf b = PInf"
| "fadd a PInf = PInf"
| "fadd NInf b = NInf"
| "fadd a NInf = NInf"

definition fsub :: "fl \<Rightarrow> fl \<Rightarrow> fl" where
  "fsub a b = fadd a (fneg b)"

text \<open>The infinity with the sign of a non-zero real.\<close>

definition inf_of_sign :: "real \<Rightarrow> fl" where
  "inf_of_sign x = (if x = 0 then NaN else if 0 < x then PInf else NInf)"

fun fmul :: "fl \<Rightarrow> fl \<Rightarrow> fl" where
  "fmul NaN b = NaN"
| "fmul a NaN = NaN"
| "fmul (Fin x) (Fin y) = Fin (x * y)"
| "fmul (Fin x) PInf = inf_of_sign x"
| "fmul (Fin x) NInf = inf_of_sign (- x)"
| "fmul PInf (Fin y) = inf_of_sign y"
| "fmul NInf (Fin y) = inf_of_sign (- y)"
| "fmul PInf PInf = PInf"
| "fmul NInf NInf = PInf"
| "fmul PInf NInf = NInf"
| "fmul NInf PInf = NInf"

text \<open>
  Tensor division (\<^verbatim>\<open>torch.div\<close>) never raises: a zero divisor gives an infinity, or NaN
  for \<open>0 / 0\<close>.
\<close>

fun fdiv :: "fl \<Rightarrow> fl \<Rightarrow> fl" where
  "fdiv NaN b = NaN"
| "fdiv a NaN = NaN"
| "fdiv (Fin x) (Fin y) = (if y = 0 then inf_of_sign x else Fin (x / y))"
| "fdiv (Fin x) PInf = Fin 0"
| "fdiv (Fin x) NInf = Fin 0"
| "fdiv PInf (Fin y) = (if 0 \<le> y then PInf else NInf)"
| "fdiv NInf (Fin y) = (if 0 \<le> y then NInf else PInf)"
| "fdiv PInf b = NaN"
| "fdiv NInf b = NaN"

text \<open>Division of two Python floats raises on a zero divisor.\<close>

definition py_truediv :: "fl \<Rightarrow> fl \<Rightarrow> error + fl" where
  "py_truediv a b = (if b = Fin 0 then Inl ZeroDivisionError else Inr (fdiv a b))"

fun fexp :: "fl \<Rightarrow> fl" where
  "fexp (Fin x) = Fin (exp x)"
| "fexp PInf = PInf"
| "fexp NInf = Fin 0"
| "fexp NaN = NaN"

fun fln :: "fl \<Rightarrow> fl" where
  "fln (Fin x) = (if 0 < x then Fin (ln x) else if x = 0 then NInf else NaN)"
| "fln PInf = PInf"
| "fln NInf = NaN"
| "fln NaN = NaN"

text \<open>\<^verbatim>\<open>max\<close> as the tensor reductions compute it: NaN propagates.\<close>

fun fmax :: "fl \<Rightarrow> fl \<Rightarrow> fl" where
  "fmax NaN b = NaN"
| "fmax a NaN = NaN"
| "fmax PInf b = PInf"
| "fmax a PInf = PInf"
| "fmax NInf b = b"
| "fmax a NInf = a"
| "fmax (Fin x) (Fin y) = Fin (max x y)"

text \<open>Comparison \<^verbatim>\<open>a > b\<close> of floats: false as soon as one side is NaN.\<close>

fun fgt :: "fl \<Rightarrow> fl \<Rightarrow> bool" where
  "fgt NaN b = False"
| "fgt a NaN = False"
| "fgt (Fin x) (Fin y) = (y < x)"
| "fgt PInf PInf = False"
| "fgt PInf b = True"
| "fgt a PInf = False"
| "fgt NInf b = False"
| "fgt a NInf = True"

text \<open>A sum accumulated from zero, left to right.\<close>

definition fsum :: "fl list \<Rightarrow> fl" where
  "fsum xs = foldl fadd (Fin 0) xs"

text \<open>
  A two-dimensional float tensor: \<open>size1\<close> is the size of dimension 1 (the number of
  classes), the rows are the entries along dimension 0. The shape is kept apart from
  the rows because a tensor with no row still has a size in dimension 1.
\<close>

record tensor =
  size1 :: nat
  rws :: "fl list list"

definition wf_tensor :: "tensor \<Rightarrow> bool" where
  "wf_tensor t = list_all (\<lambda>r. length r = size1 t) (rws t)"

definition zeros_like :: "tensor \<Rightarrow> tensor" where
  "zeros_like t = t\<lparr>rws := map (map (\<lambda>_. Fin 0)) (rws t)\<rparr>"

text \<open>Element-wise operations of a tensor with a scalar and with a tensor of its shape.\<close>

definition t_map :: "(fl \<Rightarrow> fl) \<Rightarrow> tensor \<Rightarrow> tensor" where
  "t_map f t = t\<lparr>rws := map (map f) (rws t)\<rparr>"

definition t_map2 :: "(fl \<Rightarrow> fl \<Rightarrow> fl) \<Rightarrow> tensor \<Rightarrow> tensor \<Rightarrow> tensor" where
  "t_map2 f a b = a\<lparr>rws := map2 (map2 f) (rws a) (rws b)\<rparr>"

text \<open>
  \<^verbatim>\<open>t.scatter(1, index, v)\<close> with an index of shape (G, 1): row \<open>i < G\<close> gets \<open>v\<close> at
  column \<open>index[i]\<close>. It raises when the index has more rows than the tensor or holds a
  column outside \<open>[0, size1)\<close>.
\<close>

fun scatter_rows :: "fl list list \<Rightarrow> int list \<Rightarrow> fl \<Rightarrow> fl list list" where
  "scatter_rows (r # rs) (i # is) v = r[nat i := v] # scatter_rows rs is v"
| "scatter_rows rs [] v = rs"
| "scatter_rows [] is v = []"

definition scatter1 :: "tensor \<Rightarrow> int list \<Rightarrow> fl \<Rightarrow> error + tensor" where
  "scatter1 t index v =
     (if length (rws t) < length index then Inl RuntimeError
      else if list_ex (\<lambda>i. i < 0 \<or> int (size1 t) \<le> i) index then Inl RuntimeError
      else Inr (t\<lparr>rws := scatter_rows (rws t) index v\<rparr>))"

text \<open>
  \<^verbatim>\<open>F.log_softmax(pred, dim=1)\<close>, row by row in its numerically stable form:
  \<open>x - m - log (sum (exp (x - m)))\<close> with \<open>m\<close> the maximum of the row.
\<close>

definition log_softmax_row :: "fl list \<Rightarrow> fl list" where
  "log_softmax_row xs =
     (case xs of [] \<Rightarrow> []
      | x # r \<Rightarrow>
          (let m = foldl fmax x r;
               s = fsum (map (\<lambda>v. fexp (fsub v m)) xs)
           in map (\<lambda>v. fsub (fsub v m) (fln s)) xs))"

definition log_softmax :: "tensor \<Rightarrow> tensor" where
  "log_softmax t = t\<lparr>rws := map log_softmax_row (rws t)\<rparr>"

text \<open>\<^verbatim>\<open>t.sum(dim=1)\<close> and \<^verbatim>\<open>v.mean()\<close>; the mean of no element is \<open>0 / 0\<close>, NaN.\<close>

definition sum_dim1 :: "tensor \<Rightarrow> fl list" where
  "sum_dim1 t = map fsum (rws t)"

definition mean :: "fl list \<Rightarrow> fl" where
  "mean xs = fdiv (fsum xs) (Fin (real (length xs)))"

text \<open>
  \<^verbatim>\<open>F.cross_entropy(pred, gold, reduction='mean')\<close>: the mean, over the samples whose
  label is not the ignored index -100, of minus the log-probability of the label. It
  raises when the number of labels is not the number of rows or a label is out of range.
\<close>

definition cross_entropy :: "tensor \<Rightarrow> int list \<Rightarrow> error + fl" where
  "cross_entropy pred gold =
     (if length gold \<noteq> length (rws pred) then Inl ValueError
      else if list_ex (\<lambda>g. g \<noteq> - 100 \<and> (g < 0 \<or> int (size1 pred) \<le> g)) gold
        then Inl RuntimeError
      else
        (let kept = filter (\<lambda>(r, g). g \<noteq> - 100) (zip (rws (log_softmax pred)) gold)
         in Inr (fdiv (fsum (map (\<lambda>(r, g). fneg (r ! nat g)) kept))
                      (Fin (real (length kept))))))"

section \<open>The loss function\<close>

text \<open>
  \<^verbatim>\<open>calculate_loss(pred, gold, smoothing)\<close>. The labels \<open>gold\<close> are given flattened, as
  \<^verbatim>\<open>gold.contiguous().view(-1)\<close> leaves them. In the smoothing term Python parses
  \<^verbatim>\<open>(1 - one_hot) * eps / (n_class - 1)\<close> as \<^verbatim>\<open>((1 - one_hot) * eps) / (n_class - 1)\<close>:
  the division is a tensor divided by a Python integer.
\<close>

definition calculate_loss :: "tensor \<Rightarrow> int list \<Rightarrow> bool \<Rightarrow> error + fl" where
  "calculate_loss pred gold smoothing =
     (if smoothing then
        (let eps = Fin (2 / 10);
             n_class = size1 pred
         in case scatter1 (zeros_like pred) gold (Fin 1) of
              Inl e \<Rightarrow> Inl e
            | Inr one_hot \<Rightarrow>
                (let one_hot' =
                       t_map2 fadd
                         (t_map (\<lambda>v. fmul v (fsub (Fin 1) eps)) one_hot)
                         (t_map (\<lambda>v. fdiv v (Fin (of_int (int n_class - 1))))
                            (t_map (\<lambda>v. fmul v eps)
                               (t_map (\<lambda>v. fsub (Fin 1) v) one_hot)));
                     log_prb = log_softmax pred;
                     loss = fneg (mean (sum_dim1 (t_map2 fmul one_hot' log_prb)))
                 in Inr loss))
      else cross_entropy pred gold)"

section \<open>The smoothed loss as the specification words it\<close>

text \<open>
  The soft target of a sample with gold class \<open>g\<close> among \<open>classes\<close> classes: mass
  \<open>1 - eps\<close> on the gold class and \<open>eps / (classes - 1)\<close> on each other class, with
  \<open>eps = 0.2\<close>.
\<close>

definition soft_target :: "nat \<Rightarrow> int \<Rightarrow> real list" where
  "soft_target classes g =
     map (\<lambda>j. if int j = g then 1 - 2 / 10 else (2 / 10) / (real classes - 1)) [0..<classes]"

definition dot :: "fl list \<Rightarrow> fl list \<Rightarrow> fl" where
  "dot xs ys = fsum (map2 fmul xs ys)"

text \<open>
  The mean over the batch of the negative dot product of the soft target with the
  log-softmax of the logits of the sample.
\<close>

definition smoothed_loss_spec :: "tensor \<Rightarrow> int list \<Rightarrow> fl" where
  "smoothed_loss_spec pred gold =
     mean (map (\<lambda>(row, g). fneg (dot (map Fin (soft_target (size1 pred) g))
                                    (log_softmax_row row)))
             (zip (rws pred) gold))"

section \<open>Label arrays, predictions and metrics\<close>

text \<open>
  An integer array as NumPy sees it: zero-dimensional or one-dimensional.
  \<^verbatim>\<open>label.squeeze()\<close> removes every dimension of size one, so the labels of a batch of
  exactly one sample become a zero-dimensional array.
\<close>

datatype ndarray = Arr0 int | Arr1 "int list"

fun flat :: "ndarray \<Rightarrow> int list" where
  "flat (Arr0 l) = [l]"
| "flat (Arr1 ls) = ls"

fun is_arr0 :: "ndarray \<Rightarrow> bool" where
  "is_arr0 (Arr0 l) = True"
| "is_arr0 (Arr1 ls) = False"

definition squeeze :: "int list \<Rightarrow> ndarray" where
  "squeeze ls = (case ls of [l] \<Rightarrow> Arr0 l | _ \<Rightarrow> Arr1 ls)"

text \<open>
  \<^verbatim>\<open>np.concatenate\<close> raises on an empty list of arrays and on a zero-dimensional array.
\<close>

definition np_concatenate :: "ndarray list \<Rightarrow> error + int list" where
  "np_concatenate arrs =
     (if arrs = [] then Inl ValueError
      else if list_ex is_arr0 arrs then Inl ValueError
      else Inr (concat (map flat arrs)))"

text \<open>
  \<^verbatim>\<open>logits.max(dim=1)[1]\<close>: for each row the index of its first maximal entry, a NaN
  counting as maximal; it raises on rows without entries.
\<close>

definition exceeds :: "fl \<Rightarrow> fl \<Rightarrow> bool" where
  "exceeds a b = (fgt a b \<or> (a = NaN \<and> b \<noteq> NaN))"

fun argmax_from :: "fl list \<Rightarrow> nat \<Rightarrow> fl \<Rightarrow> nat \<Rightarrow> nat" where
  "argmax_from [] i best besti = besti"
| "argmax_from (v # vs) i best besti =
     (if exceeds v best then argmax_from vs (Suc i) v i
      else argmax_from vs (Suc i) best besti)"

definition max_dim1_indices :: "tensor \<Rightarrow> error + ndarray" where
  "max_dim1_indices t =
     (if size1 t = 0 \<and> rws t \<noteq> [] then Inl RuntimeError
      else Inr (Arr1 (map (\<lambda>r. case r of [] \<Rightarrow> 0 | v # vs \<Rightarrow> int (argmax_from vs 1 v 0))
                        (rws t))))"

text \<open>
  \<^verbatim>\<open>sklearn.metrics.accuracy_score\<close> and \<^verbatim>\<open>balanced_accuracy_score\<close>, which the source
  calls on two label sequences of one length: the fraction of agreeing positions, and
  the mean over the classes present in \<open>y_true\<close> of the recall of the class.
\<close>

definition accuracy_score :: "int list \<Rightarrow> int list \<Rightarrow> fl" where
  "accuracy_score y_true y_pred =
     fdiv (Fin (real (length (filter (\<lambda>(t, p). t = p) (zip y_true y_pred)))))
          (Fin (real (length y_true)))"

definition recall :: "int list \<Rightarrow> int list \<Rightarrow> int \<Rightarrow> fl" where
  "recall y_true y_pred c =
     fdiv (Fin (real (length (filter (\<lambda>(t, p). t = c \<and> p = c) (zip y_true y_pred)))))
          (Fin (real (length (filter (\<lambda>t. t = c) y_true))))"

definition balanced_accuracy_score :: "int list \<Rightarrow> int list \<Rightarrow> fl" where
  "balanced_accuracy_score y_true y_pred =
     mean (map (recall y_true y_pred) (remdups y_true))"

section \<open>Data loaders\<close>

datatype partition = TrainP | ValidationP | TestP

text \<open>
  The batches a \<^verbatim>\<open>DataLoader\<close> delivers from the samples in the order its sampler drew
  them: consecutive groups of \<open>bs\<close> samples, the last partial group dropped or kept.
\<close>

function batches :: "nat \<Rightarrow> bool \<Rightarrow> 'a list \<Rightarrow> 'a list list" where
  "batches bs drop_last xs =
     (if bs = 0 \<or> xs = [] then []
      else if length xs < bs then (if drop_last then [] else [xs])
      else take bs xs # batches bs drop_last (drop bs xs))"
  by pat_completeness auto
termination
  by (relation "measure (\<lambda>(bs, d, xs). length xs)") auto

declare batches.simps [simp del]

text \<open>
  The constructor of \<^verbatim>\<open>DataLoader\<close>, as \<^verbatim>\<open>main.py\<close> calls it, with \<^verbatim>\<open>shuffle=True\<close>: it
  builds a random sampler, which refuses an empty dataset, and then a batch sampler,
  which refuses a batch size that is not positive.
\<close>

record 'a loader =
  samples :: "'a list"
  bsize :: nat
  drop_last :: bool

definition DataLoader :: "'a list \<Rightarrow> int \<Rightarrow> bool \<Rightarrow> error + 'a loader" where
  "DataLoader ds bs dl =
     (if ds = [] then Inl ValueError
      else if bs \<le> 0 then Inl ValueError
      else Inr \<lparr>samples = ds, bsize = nat bs, drop_last = dl\<rparr>)"

text \<open>
  One iteration over a shuffling loader; \<open>shuffle\<close> is the order the random sampler
  draws for this iteration.
\<close>

definition iterate :: "('a list \<Rightarrow> 'a list) \<Rightarrow> 'a loader \<Rightarrow> 'a list list" where
  "iterate shuffle l = batches (bsize l) (drop_last l) (shuffle (samples l))"

section \<open>The learning-rate schedule\<close>

text \<open>
  \<^verbatim>\<open>CosineAnnealingLR(opt, T_max, eta_min)\<close>: the scheduler keeps the rate the optimizer
  had at construction as its base rate. Below are the closed form of the rate after
  \<open>t\<close> steps, and the update that one \<^verbatim>\<open>scheduler.step()\<close> applies to the rate of
  the optimizer (\<open>t\<close> is the counter after the step). Rates are exact reals.
\<close>

record cosine_annealing_lr =
  base_lr :: real
  eta_min :: real
  T_max :: int
  last_epoch :: nat

definition CosineAnnealingLR :: "real \<Rightarrow> int \<Rightarrow> real \<Rightarrow> cosine_annealing_lr" where
  "CosineAnnealingLR opt_lr T eta = \<lparr>base_lr = opt_lr, eta_min = eta, T_max = T, last_epoch = 0\<rparr>"

definition cosine_annealing :: "cosine_annealing_lr \<Rightarrow> nat \<Rightarrow> real" where
  "cosine_annealing sc t =
     eta_min sc
     + (base_lr sc - eta_min sc) * (1 + cos (pi * real t / real_of_int (T_max sc))) / 2"

definition get_lr :: "cosine_annealing_lr \<Rightarrow> real \<Rightarrow> real" where
  "get_lr sc group_lr =
     (let t = last_epoch sc
      in if t = 0 then group_lr
         else if (int t - 1 - T_max sc) mod (2 * T_max sc) = 0
           then group_lr + (base_lr sc - eta_min sc) * (1 - cos (pi / real_of_int (T_max sc))) / 2
         else (1 + cos (pi * real t / real_of_int (T_max sc)))
              / (1 + cos (pi * (real t - 1) / real_of_int (T_max sc)))
              * (group_lr - eta_min sc) + eta_min sc)"

section \<open>Training\<close>

text \<open>
  The collaborators of \<^verbatim>\<open>main.py\<close>, as parameters: the samples of each partition, the
  order each loader draws at each iteration, the constructors of the models and of the
  optimizer, the forward pass (in training or evaluation mode) and the effect of
  \<^verbatim>\<open>loss.backward(); opt.step()\<close> on the optimizer and the parameters.
\<close>

datatype opt_kind = SGD real real | Adam real

record ('x, 'm, 'o) env =
  dataset_loader :: "partition \<Rightarrow> ('x \<times> int) list"
  sampler :: "partition \<Rightarrow> nat \<Rightarrow> ('x \<times> int) list \<Rightarrow> ('x \<times> int) list"
  construct :: "arch \<Rightarrow> 'm"
  make_opt :: "opt_kind \<Rightarrow> 'o"
  forward :: "bool \<Rightarrow> 'm \<Rightarrow> 'x list \<Rightarrow> tensor"
  backward_step :: "real \<Rightarrow> 'o \<Rightarrow> 'm \<Rightarrow> 'x list \<Rightarrow> int list \<Rightarrow> 'o \<times> 'm"

text \<open>What a run does to the outside, in order.\<close>

datatype ('x, 'm) event =
    LogModel arch
  | SchedulerStep
  | TrainBatch "('x \<times> int) list"
  | ValBatch "('x \<times> int) list"
  | TestBatch "('x \<times> int) list"
  | Csv nat fl fl fl fl fl fl
  | Save string 'm
  | Load string
  | PrintSummary fl fl fl
  | LogTest fl fl

text \<open>
  The state of a run: the parameters of the model, the optimizer with its current rate,
  the scheduler, the three \<^verbatim>\<open>global_best\<close> variables, the files, and the
  events so far.
\<close>

record ('x, 'm, 'o) state =
  net :: 'm
  opt :: 'o
  cur_lr :: real
  scheduler :: cosine_annealing_lr
  global_best_loss :: fl
  global_best_acc :: fl
  global_best_avg_acc :: fl
  files :: "string \<rightharpoonup> 'm"
  trace :: "('x, 'm) event list"

definition emit :: "('x, 'm) event \<Rightarrow> ('x, 'm, 'o) state \<Rightarrow> ('x, 'm, 'o) state" where
  "emit ev s = s\<lparr>trace := trace s @ [ev]\<rparr>"

definition best_model_path :: string where
  "best_model_path = ''./tmp/output/best_model.m7''"

text \<open>\<^verbatim>\<open>torch.save(model.state_dict(), path)\<close> and \<^verbatim>\<open>model.load_state_dict(torch.load(path))\<close>.\<close>

definition torch_save :: "string \<Rightarrow> ('x, 'm, 'o) state \<Rightarrow> ('x, 'm, 'o) state" where
  "torch_save path s = emit (Save path (net s)) (s\<lparr>files := (files s)(path \<mapsto> net s)\<rparr>)"

definition torch_load :: "string \<Rightarrow> ('x, 'm, 'o) state \<Rightarrow> ('x, 'm, 'o) state \<times> (error + unit)" where
  "torch_load path s =
     (case files s path of
        None \<Rightarrow> (s, Inl FileNotFoundError)
      | Some m \<Rightarrow> (emit (Load path) (s\<lparr>net := m\<rparr>), Inr ()))"

definition scheduler_step :: "('x, 'm, 'o) state \<Rightarrow> ('x, 'm, 'o) state" where
  "scheduler_step s =
     (let sc = (scheduler s)\<lparr>last_epoch := Suc (last_epoch (scheduler s))\<rparr>
      in emit SchedulerStep (s\<lparr>scheduler := sc, cur_lr := get_lr sc (cur_lr s)\<rparr>))"

text \<open>The accumulators of a pass over the batches.\<close>

record accum =
  loss_sum :: fl
  count :: fl
  trues :: "ndarray list"
  preds :: "ndarray list"

definition accum0 :: accum where
  "accum0 = \<lparr>loss_sum = Fin 0, count = Fin 0, trues = [], preds = []\<rparr>"

definition accumulate :: "accum \<Rightarrow> fl \<Rightarrow> nat \<Rightarrow> ndarray \<Rightarrow> ndarray \<Rightarrow> accum" where
  "accumulate a loss n_batch label prd =
     \<lparr>loss_sum = fadd (loss_sum a) (fmul loss (Fin (real n_batch))),
      count = fadd (count a) (Fin (real n_batch)),
      trues = trues a @ [label],
      preds = preds a @ [prd]\<rparr>"

text \<open>The \<^verbatim>\<open>for\<close> loop of \<^verbatim>\<open>train_batch\<close>, over the batches still to come.\<close>

fun train_loop ::
  "('x, 'm, 'o) env \<Rightarrow> 'a params_scheme \<Rightarrow> ('x \<times> int) list list \<Rightarrow> ('x, 'm, 'o) state \<Rightarrow> accum
     \<Rightarrow> ('x, 'm, 'o) state \<times> (error + accum)" where
  "train_loop env p [] s a = (s, Inr a)"
| "train_loop env p (b # bs) s a =
     (let data = map fst b;
          label = squeeze (map snd b);
          n_batch = length data;
          logits = forward env True (net s) data;
          s1 = emit (TrainBatch b) s
      in case calculate_loss logits (flat label) True of
           Inl e \<Rightarrow> (s1, Inl e)
         | Inr loss \<Rightarrow>
             (let (o', m') = backward_step env (cur_lr s1) (opt s1) (net s1) data (flat label);
                  s2 = s1\<lparr>opt := o', net := m'\<rparr>
              in case max_dim1_indices logits of
                   Inl e \<Rightarrow> (s2, Inl e)
                 | Inr prd \<Rightarrow>
                     (let a' = accumulate a loss n_batch label prd
                      in if dry_ryn p then (s2, Inr a') else train_loop env p bs s2 a')))"

text \<open>\<^verbatim>\<open>train_batch()\<close> of epoch \<open>epoch\<close>: it returns the loss, the true and the predicted labels.\<close>

definition train_batch ::
  "('x, 'm, 'o) env \<Rightarrow> 'a params_scheme \<Rightarrow> ('x \<times> int) loader \<Rightarrow> nat \<Rightarrow> ('x, 'm, 'o) state
     \<Rightarrow> ('x, 'm, 'o) state \<times> (error + fl \<times> int list \<times> int list)" where
  "train_batch env p train_loader epoch s =
     (case train_loop env p (iterate (sampler env TrainP epoch) train_loader)
             (scheduler_step s) accum0 of
        (s1, Inl e) \<Rightarrow> (s1, Inl e)
      | (s1, Inr a) \<Rightarrow>
          (case np_concatenate (trues a) of
             Inl e \<Rightarrow> (s1, Inl e)
           | Inr train_true \<Rightarrow>
               (case np_concatenate (preds a) of
                  Inl e \<Rightarrow> (s1, Inl e)
                | Inr train_pred \<Rightarrow>
                    (case py_truediv (fmul (loss_sum a) (Fin 1)) (count a) of
                       Inl e \<Rightarrow> (s1, Inl e)
                     | Inr train_loss \<Rightarrow> (s1, Inr (train_loss, train_true, train_pred))))))"

text \<open>The \<^verbatim>\<open>for\<close> loop of the validation pass.\<close>

fun val_loop ::
  "('x, 'm, 'o) env \<Rightarrow> ('x \<times> int) list list \<Rightarrow> ('x, 'm, 'o) state \<Rightarrow> accum
     \<Rightarrow> ('x, 'm, 'o) state \<times> (error + accum)" where
  "val_loop env [] s a = (s, Inr a)"
| "val_loop env (b # bs) s a =
     (let data = map fst b;
          label = squeeze (map snd b);
          n_batch = length data;
          logits = forward env False (net s) data;
          s1 = emit (ValBatch b) s
      in case calculate_loss logits (flat label) True of
           Inl e \<Rightarrow> (s1, Inl e)
         | Inr loss \<Rightarrow>
             (case max_dim1_indices logits of
                Inl e \<Rightarrow> (s1, Inl e)
              | Inr prd \<Rightarrow> val_loop env bs s1 (accumulate a loss n_batch label prd)))"

text \<open>
  The body of the epoch loop of \<^verbatim>\<open>train\<close>: the training pass, the exit of a dry run,
  the validation pass, the metrics row, the checkpoint, and the comparison with the best
  balanced accuracy so far. The quotient \<^verbatim>\<open>val_loss*1.0/count\<close> is first evaluated for
  the metrics row; the assignment to \<^verbatim>\<open>global_best_loss\<close> evaluates it again, to the
  same value.
\<close>

datatype flow = Continue | Break

definition epoch_body ::
  "('x, 'm, 'o) env \<Rightarrow> 'a params_scheme \<Rightarrow> ('x \<times> int) loader \<Rightarrow> ('x \<times> int) loader \<Rightarrow> nat
     \<Rightarrow> ('x, 'm, 'o) state \<Rightarrow> ('x, 'm, 'o) state \<times> (error + flow)" where
  "epoch_body env p train_loader validation_loader epoch s =
     (case train_batch env p train_loader epoch s of
        (s1, Inl e) \<Rightarrow> (s1, Inl e)
      | (s1, Inr (train_loss, train_true, train_pred)) \<Rightarrow>
          if dry_ryn p then (s1, Inr Break)
          else
            (case val_loop env (iterate (sampler env ValidationP epoch) validation_loader)
                    s1 accum0 of
               (s2, Inl e) \<Rightarrow> (s2, Inl e)
             | (s2, Inr a) \<Rightarrow>
                 (case np_concatenate (trues a) of
                    Inl e \<Rightarrow> (s2, Inl e)
                  | Inr val_true \<Rightarrow>
                      (case np_concatenate (preds a) of
                         Inl e \<Rightarrow> (s2, Inl e)
                       | Inr val_pred \<Rightarrow>
                           (let val_acc = accuracy_score val_true val_pred;
                                avg_per_class_acc = balanced_accuracy_score val_true val_pred
                            in case py_truediv (fmul (loss_sum a) (Fin 1)) (count a) of
                                 Inl e \<Rightarrow> (s2, Inl e)
                               | Inr val_loss \<Rightarrow>
                                   (let s3 = emit (Csv epoch train_loss
                                                     (accuracy_score train_true train_pred)
                                                     (balanced_accuracy_score train_true train_pred)
                                                     val_loss val_acc avg_per_class_acc) s2;
                                        s4 = torch_save (checkpoint_path p) s3
                                    in if fgt avg_per_class_acc (global_best_avg_acc s4)
                                       then (torch_save best_model_path
                                               (s4\<lparr>global_best_loss := val_loss,
                                                   global_best_acc := val_acc,
                                                   global_best_avg_acc := avg_per_class_acc\<rparr>),
                                             Inr Continue)
                                       else (s4, Inr Continue)))))))"

text \<open>\<^verbatim>\<open>for epoch in range(args.epochs)\<close>, over the epochs still to run.\<close>

fun epoch_loop ::
  "('x, 'm, 'o) env \<Rightarrow> 'a params_scheme \<Rightarrow> ('x \<times> int) loader \<Rightarrow> ('x \<times> int) loader \<Rightarrow> nat list
     \<Rightarrow> ('x, 'm, 'o) state \<Rightarrow> ('x, 'm, 'o) state \<times> (error + unit)" where
  "epoch_loop env p train_loader validation_loader [] s = (s, Inr ())"
| "epoch_loop env p train_loader validation_loader (epoch # rest) s =
     (case epoch_body env p train_loader validation_loader epoch s of
        (s', Inl e) \<Rightarrow> (s', Inl e)
      | (s', Inr Break) \<Rightarrow> (s', Inr ())
      | (s', Inr Continue) \<Rightarrow> epoch_loop env p train_loader validation_loader rest s')"

text \<open>
  The state in which \<^verbatim>\<open>train\<close> enters its loop, before a checkpoint is resumed: the
  selected model, the chosen optimizer at the configured rate, the scheduler
  \<^verbatim>\<open>CosineAnnealingLR(opt, args.epochs, eta_min=args.lr)\<close> before its first step, the three
  best values at 0.
\<close>

definition init_state ::
  "('x, 'm, 'o) env \<Rightarrow> 'a params_scheme \<Rightarrow> (string \<rightharpoonup> 'm) \<Rightarrow> ('x, 'm, 'o) state" where
  "init_state env p fs =
     \<lparr>net = construct env (select_model p),
      opt = make_opt env (if optimizer p = ''SGD'' then SGD (lr p) (momentum p) else Adam (lr p)),
      cur_lr = lr p,
      scheduler = CosineAnnealingLR (lr p) (epochs p) (lr p),
      global_best_loss = Fin 0,
      global_best_acc = Fin 0,
      global_best_avg_acc = Fin 0,
      files = fs,
      trace = [LogModel (select_model p)]\<rparr>"

text \<open>
  The three loaders, as \<^verbatim>\<open>train\<close> and \<^verbatim>\<open>test\<close> construct them: the training loader
  with the training batch size and \<^verbatim>\<open>drop_last=True\<close>, the validation and the test
  loader with the test batch size and \<^verbatim>\<open>drop_last=False\<close>.
\<close>

definition train_loader_of ::
  "('x, 'm, 'o) env \<Rightarrow> 'a params_scheme \<Rightarrow> error + ('x \<times> int) loader" where
  "train_loader_of env p = DataLoader (dataset_loader env TrainP) (batch_size p) True"

definition validation_loader_of ::
  "('x, 'm, 'o) env \<Rightarrow> 'a params_scheme \<Rightarrow> error + ('x \<times> int) loader" where
  "validation_loader_of env p =
     DataLoader (dataset_loader env ValidationP) (test_batch_size p) False"

definition test_loader_of ::
  "('x, 'm, 'o) env \<Rightarrow> 'a params_scheme \<Rightarrow> error + ('x \<times> int) loader" where
  "test_loader_of env p = DataLoader (dataset_loader env TestP) (test_batch_size p) False"

text \<open>
  \<^verbatim>\<open>if args.last_checkpoint() != "": model.load_state_dict(torch.load(args.last_checkpoint()))\<close>
\<close>

definition resume ::
  "'a params_scheme \<Rightarrow> ('x, 'm, 'o) state \<Rightarrow> ('x, 'm, 'o) state \<times> (error + unit)" where
  "resume p s =
     (if last_checkpoint p \<noteq> [] then torch_load (last_checkpoint p) s else (s, Inr ()))"

text \<open>\<^verbatim>\<open>train(args)\<close>, run on the files \<open>fs\<close>.\<close>

definition train ::
  "('x, 'm, 'o) env \<Rightarrow> 'a params_scheme \<Rightarrow> (string \<rightharpoonup> 'm)
     \<Rightarrow> ('x, 'm, 'o) state \<times> (error + unit)" where
  "train env p fs =
     (case train_loader_of env p of
        Inl e \<Rightarrow> ((init_state env p fs)\<lparr>trace := []\<rparr>, Inl e)
      | Inr train_loader \<Rightarrow>
          (case validation_loader_of env p of
             Inl e \<Rightarrow> ((init_state env p fs)\<lparr>trace := []\<rparr>, Inl e)
           | Inr validation_loader \<Rightarrow>
               (case resume p (init_state env p fs) of
                  (s0, Inl e) \<Rightarrow> (s0, Inl e)
                | (s0, Inr u) \<Rightarrow>
                    (case epoch_loop env p train_loader validation_loader
                            [0..<nat (epochs p)] s0 of
                       (s1, Inl e) \<Rightarrow> (s1, Inl e)
                     | (s1, Inr u) \<Rightarrow>
                         (emit (PrintSummary (global_best_loss s1) (global_best_acc s1)
                                  (global_best_avg_acc s1)) s1,
                          Inr ())))))"

section \<open>Evaluation\<close>

text \<open>The \<^verbatim>\<open>for\<close> loop of \<^verbatim>\<open>test\<close>; the model \<open>m\<close> is not changed.\<close>

fun test_loop ::
  "('x, 'm, 'o) env \<Rightarrow> 'm \<Rightarrow> ('x \<times> int) list list \<Rightarrow> ('x, 'm) event list
     \<Rightarrow> ndarray list \<Rightarrow> ndarray list
     \<Rightarrow> ('x, 'm) event list \<times> (error + ndarray list \<times> ndarray list)" where
  "test_loop env m [] tr test_true test_pred = (tr, Inr (test_true, test_pred))"
| "test_loop env m (b # bs) tr test_true test_pred =
     (let data = map fst b;
          label = squeeze (map snd b);
          logits = forward env False m data;
          tr1 = tr @ [TestBatch b]
      in case max_dim1_indices logits of
           Inl e \<Rightarrow> (tr1, Inl e)
         | Inr prd \<Rightarrow> test_loop env m bs tr1 (test_true @ [label]) (test_pred @ [prd]))"

text \<open>
  \<^verbatim>\<open>test(args, state_dict)\<close>, run on the files \<open>fs\<close>: the events and the returned pair.
\<close>

definition test ::
  "('x, 'm, 'o) env \<Rightarrow> 'a params_scheme \<Rightarrow> string option \<Rightarrow> (string \<rightharpoonup> 'm)
     \<Rightarrow> ('x, 'm) event list \<times> (error + fl \<times> fl)" where
  "test env p state_dict fs =
     (case test_loader_of env p of
        Inl e \<Rightarrow> ([], Inl e)
      | Inr test_loader \<Rightarrow>
          (let path = (case state_dict of Some given \<Rightarrow> given | None \<Rightarrow> best_model_path)
           in case fs path of
                None \<Rightarrow> ([], Inl FileNotFoundError)
              | Some m \<Rightarrow>
                  (case test_loop env m (iterate (sampler env TestP 0) test_loader)
                          [Load path] [] [] of
                     (tr, Inl e) \<Rightarrow> (tr, Inl e)
                   | (tr, Inr (tt, tp)) \<Rightarrow>
                       (case np_concatenate tt of
                          Inl e \<Rightarrow> (tr, Inl e)
                        | Inr test_true \<Rightarrow>
                            (case np_concatenate tp of
                               Inl e \<Rightarrow> (tr, Inl e)
                             | Inr test_pred \<Rightarrow>
                                 (let test_acc = accuracy_score test_true test_pred;
                                      avg_per_class_acc =
                                        balanced_accuracy_score test_true test_pred
                                  in (if state_dict = None
                                      then tr @ [LogTest test_acc avg_per_class_acc]
                                      else tr,
                                      Inr (test_acc, avg_per_class_acc))))))))"

section \<open>Notions used to state the properties\<close>

text \<open>
  The contract of the model collaborator: a forward pass returns one row of \<open>C\<close> logits
  per point cloud; and of the dataset collaborator: labels are class indices.
\<close>

definition net_ok :: "('x, 'm, 'o) env \<Rightarrow> nat \<Rightarrow> bool" where
  "net_ok env C =
     (0 < C \<and> (\<forall>mode m xs. wf_tensor (forward env mode m xs)
                  \<and> size1 (forward env mode m xs) = C
                  \<and> length (rws (forward env mode m xs)) = length xs))"

definition labels_ok :: "('x \<times> int) list \<Rightarrow> nat \<Rightarrow> bool" where
  "labels_ok ds C = list_all (\<lambda>(x, l). 0 \<le> l \<and> l < int C) ds"

text \<open>A random sampler draws the samples of its dataset in some order.\<close>

definition sampler_ok :: "('x, 'm, 'o) env \<Rightarrow> bool" where
  "sampler_ok env = (\<forall>part epoch xs. mset (sampler env part epoch xs) = mset xs)"

text \<open>The loss and the predictions of one batch under the parameters \<open>m\<close>.\<close>

definition batch_loss :: "('x, 'm, 'o) env \<Rightarrow> bool \<Rightarrow> 'm \<Rightarrow> ('x \<times> int) list \<Rightarrow> error + fl" where
  "batch_loss env mode m b = calculate_loss (forward env mode m (map fst b)) (map snd b) True"

definition batch_preds ::
  "('x, 'm, 'o) env \<Rightarrow> bool \<Rightarrow> 'm \<Rightarrow> ('x \<times> int) list \<Rightarrow> error + ndarray" where
  "batch_preds env mode m b = max_dim1_indices (forward env mode m (map fst b))"

text \<open>
  The optimizer and the parameters before each batch of a training pass at rate \<open>r\<close>.
\<close>

fun train_states ::
  "('x, 'm, 'o) env \<Rightarrow> real \<Rightarrow> 'o \<times> 'm \<Rightarrow> ('x \<times> int) list list \<Rightarrow> ('o \<times> 'm) list" where
  "train_states env r om [] = []"
| "train_states env r om (b # bs) =
     om # train_states env r (backward_step env r (fst om) (snd om) (map fst b) (map snd b)) bs"

text \<open>The batches a training pass goes through: the first one only in a dry run.\<close>

definition processed :: "'a params_scheme \<Rightarrow> 'b list \<Rightarrow> 'b list" where
  "processed p bs = (if dry_ryn p then take 1 bs else bs)"

text \<open>
  The sum over the batches of loss times batch size, divided by the number of samples.
\<close>

definition weighted_mean :: "fl list \<Rightarrow> 'a list list \<Rightarrow> fl" where
  "weighted_mean ls bs =
     fdiv (fsum (map2 (\<lambda>l b. fmul l (Fin (real (length b)))) ls bs))
          (Fin (real (length (concat bs))))"

text \<open>Kinds of events, and the samples that the events of a kind went through.\<close>

fun is_train_batch :: "('x, 'm) event \<Rightarrow> bool" where
  "is_train_batch (TrainBatch b) = True"
| "is_train_batch ev = False"

fun is_val_batch :: "('x, 'm) event \<Rightarrow> bool" where
  "is_val_batch (ValBatch b) = True"
| "is_val_batch ev = False"

fun is_save :: "('x, 'm) event \<Rightarrow> bool" where
  "is_save (Save path m) = True"
| "is_save ev = False"

fun saves_to :: "string \<Rightarrow> ('x, 'm) event \<Rightarrow> bool" where
  "saves_to path (Save path' m) = (path' = path)"
| "saves_to path ev = False"

fun train_batches :: "('x, 'm) event list \<Rightarrow> ('x \<times> int) list list" where
  "train_batches [] = []"
| "train_batches (TrainBatch b # evs) = b # train_batches evs"
| "train_batches (ev # evs) = train_batches evs"

fun val_batches :: "('x, 'm) event list \<Rightarrow> ('x \<times> int) list list" where
  "val_batches [] = []"
| "val_batches (ValBatch b # evs) = b # val_batches evs"
| "val_batches (ev # evs) = val_batches evs"

fun test_batches :: "('x, 'm) event list \<Rightarrow> ('x \<times> int) list list" where
  "test_batches [] = []"
| "test_batches (TestBatch b # evs) = b # test_batches evs"
| "test_batches (ev # evs) = test_batches evs"

text \<open>The summary line of \<^verbatim>\<open>test\<close> among the events.\<close>

fun is_log_test :: "('x, 'm) event \<Rightarrow> bool" where
  "is_log_test (LogTest acc avg) = True"
| "is_log_test ev = False"

text \<open>
  The predictions of a model \<open>m\<close> in evaluation mode on a sequence of batches, and the
  validation balanced accuracy of \<open>m\<close> in epoch \<open>epoch\<close>: the balanced accuracy of these
  predictions against the labels, over the batches of the validation loader.
\<close>

definition eval_predictions ::
  "('x, 'm, 'o) env \<Rightarrow> 'm \<Rightarrow> ('x \<times> int) list list \<Rightarrow> int list" where
  "eval_predictions env m bs =
     concat (map (\<lambda>b. case batch_preds env False m b of Inr q \<Rightarrow> flat q | Inl e \<Rightarrow> []) bs)"

definition val_bal_acc ::
  "('x, 'm, 'o) env \<Rightarrow> ('x \<times> int) loader \<Rightarrow> nat \<Rightarrow> 'm \<Rightarrow> fl" where
  "val_bal_acc env vl epoch m =
     balanced_accuracy_score
       (map snd (concat (iterate (sampler env ValidationP epoch) vl)))
       (eval_predictions env m (iterate (sampler env ValidationP epoch) vl))"

text \<open>Not smaller, for floats: equal, or greater in the sense of \<^verbatim>\<open>>\<close>.\<close>

definition fge :: "fl \<Rightarrow> fl \<Rightarrow> bool" where
  "fge a b = (a = b \<or> fgt a b)"

text \<open>
  From \<open>s\<close> to \<open>s'\<close> no file was written, the best values were not assigned, no
  validation batch was processed and nothing was saved.
\<close>

definition untouched :: "('x, 'm, 'o) state \<Rightarrow> ('x, 'm, 'o) state \<Rightarrow> bool" where
  "untouched s s' =
     (files s' = files s \<and> global_best_loss s' = global_best_loss s
      \<and> global_best_acc s' = global_best_acc s \<and> global_best_avg_acc s' = global_best_avg_acc s
      \<and> val_batches (trace s') = val_batches (trace s)
      \<and> filter is_save (trace s') = filter is_save (trace s))"

text \<open>From \<open>s\<close> to \<open>s'\<close> no file was written, no best value assigned, nothing saved.\<close>

definition nothing_saved :: "('x, 'm, 'o) state \<Rightarrow> ('x, 'm, 'o) state \<Rightarrow> bool" where
  "nothing_saved s s' =
     (files s' = files s \<and> global_best_loss s' = global_best_loss s
      \<and> global_best_acc s' = global_best_acc s \<and> global_best_avg_acc s' = global_best_avg_acc s
      \<and> filter is_save (trace s') = filter is_save (trace s))"

text \<open>The state in which \<^verbatim>\<open>train\<close> enters its epoch loop, after the resumption.\<close>

definition entry_state ::
  "('x, 'm, 'o) env \<Rightarrow> 'a params_scheme \<Rightarrow> (string \<rightharpoonup> 'm) \<Rightarrow> ('x, 'm, 'o) state" where
  "entry_state env p fs = fst (resume p (init_state env p fs))"

text \<open>The rate of the optimizer and both rates of the scheduler are \<open>r\<close>.\<close>

definition lr_inv :: "real \<Rightarrow> ('x, 'm, 'o) state \<Rightarrow> bool" where
  "lr_inv r s = (cur_lr s = r \<and> base_lr (scheduler s) = r \<and> eta_min (scheduler s) = r)"

section \<open>A small run, for concrete instances\<close>

text \<open>
  Point clouds are numbered; the model is the number of optimizer steps taken. There
  are two classes, and the logits of a cloud favour class 1 when the number of the cloud
  plus the number of steps is odd.
\<close>

definition toy_env :: "(nat, nat, nat) env" where
  "toy_env =
     \<lparr>dataset_loader =
        (\<lambda>part. case part of
           TrainP \<Rightarrow> [(0, 0), (1, 1), (2, 0), (3, 1), (4, 0), (5, 1), (6, 0)]
         | ValidationP \<Rightarrow> [(7, 1), (8, 0), (9, 0), (10, 0), (11, 1)]
         | TestP \<Rightarrow> [(12, 0), (13, 1), (14, 1), (15, 0), (16, 1)]),
      sampler = (\<lambda>part epoch xs. xs),
      construct = (\<lambda>a. 0),
      make_opt = (\<lambda>k. 0),
      forward = (\<lambda>mode m xs.
        \<lparr>size1 = 2,
         rws = map (\<lambda>x. if odd (x + m) then [Fin 0, Fin 1] else [Fin 1, Fin 0]) xs\<rparr>),
      backward_step = (\<lambda>r ost m xs ls. (Suc ost, Suc m))\<rparr>"

definition toy_params :: "bool \<Rightarrow> int \<Rightarrow> params" where
  "toy_params dry n =
     \<lparr>model_name = ''DGCNN'', optimizer = ''SGD'', lr = 1 / 10000, momentum = 9 / 10,
      epochs = n, batch_size = 2, test_batch_size = 3, dry_ryn = dry,
      last_checkpoint = [], checkpoint_path = ''./tmp/output/checkpoint.t7''\<rparr>"

section \<open>Model selection\<close>

text \<open>
  Claim C7. Model selection is a fixed mapping from the configured model name to a
  constructor: the result depends on the name only, the three recognised names select
  their own architecture, and every other name selects DGCNN (the function is total, no
  name makes it fail).
\<close>

theorem select_model_dispatch:
  "(model_name p = model_name q \<longrightarrow> select_model p = select_model q) \<and>
   (model_name p = ''PointNet'' \<longrightarrow> select_model p = PointNet) \<and>
   (model_name p = ''PointAttentionNet'' \<longrightarrow> select_model p = PointAttentionNet) \<and>
   (model_name p = ''AttentionDGCNN'' \<longrightarrow> select_model p = AttentionDGCNN) \<and>
   (model_name p \<notin> {''PointNet'', ''PointAttentionNet'', ''AttentionDGCNN''}
      \<longrightarrow> select_model p = DGCNN)"
  by (simp add: select_model_def)

theorem select_model_dispatch_witness:
  "model_name \<lparr>model_name = ''Transformer'', optimizer = ''SGD'', lr = 1 / 10000,
       momentum = 9 / 10, epochs = 1, batch_size = 32, test_batch_size = 16,
       dry_ryn = False, last_checkpoint = [], checkpoint_path = ''ckpt''\<rparr>
     \<notin> {''PointNet'', ''PointAttentionNet'', ''AttentionDGCNN''}
   \<and> select_model \<lparr>model_name = ''Transformer'', optimizer = ''SGD'', lr = 1 / 10000,
       momentum = 9 / 10, epochs = 1, batch_size = 32, test_batch_size = 16,
       dry_ryn = False, last_checkpoint = [], checkpoint_path = ''ckpt''\<rparr> = DGCNN"
  using select_model_dispatch [of
      "\<lparr>model_name = ''Transformer'', optimizer = ''SGD'', lr = 1 / 10000,
        momentum = 9 / 10, epochs = 1, batch_size = 32, test_batch_size = 16,
        dry_ryn = False, last_checkpoint = [], checkpoint_path = ''ckpt''\<rparr>"
      "\<lparr>model_name = ''Transformer'', optimizer = ''SGD'', lr = 1 / 10000,
        momentum = 9 / 10, epochs = 1, batch_size = 32, test_batch_size = 16,
        dry_ryn = False, last_checkpoint = [], checkpoint_path = ''ckpt''\<rparr>"]
  by simp

section \<open>The smoothed loss\<close>

lemma fneg_fadd: "fneg (fadd a b) = fadd (fneg a) (fneg b)"
  by (cases a; cases b) simp_all

lemma fneg_fdiv_Fin: "fneg (fdiv a (Fin y)) = fdiv (fneg a) (Fin y)"
  by (cases a) (simp_all add: inf_of_sign_def)

lemma fneg_foldl_fadd: "fneg (foldl fadd a xs) = foldl fadd (fneg a) (map fneg xs)"
  by (induction xs arbitrary: a) (simp_all add: fneg_fadd)

lemma fneg_fsum: "fneg (fsum xs) = fsum (map fneg xs)"
  using fneg_foldl_fadd [of "Fin 0" xs] by (simp add: fsum_def)

lemma fneg_mean: "fneg (mean xs) = mean (map fneg xs)"
  by (simp add: mean_def fneg_fdiv_Fin fneg_fsum)

text \<open>
  With at least two classes, the arithmetic of the source turns the one-hot row of a
  valid label into the soft target.
\<close>

lemma smooth_row:
  assumes "length r = n" "2 \<le> n" "0 \<le> g" "g < int n"
  shows "map2 fadd
           (map (\<lambda>v. fmul v (fsub (Fin 1) (Fin (2 / 10)))) ((map (\<lambda>_. Fin 0) r)[nat g := Fin 1]))
           (map (\<lambda>v. fdiv v (Fin (of_int (int n - 1))))
              (map (\<lambda>v. fmul v (Fin (2 / 10)))
                 (map (\<lambda>v. fsub (Fin 1) v) ((map (\<lambda>_. Fin 0) r)[nat g := Fin 1]))))
         = map Fin (soft_target n g)" (is "?l = ?r")
proof (rule nth_equalityI)
  show "length ?l = length ?r"
    using assms by (simp add: soft_target_def)
next
  fix j
  assume "j < length ?l"
  then have j: "j < n" using assms by simp
  have ne: "real_of_int (int n - 1) \<noteq> 0" using assms by simp
  from j assms ne show "?l ! j = ?r ! j"
    by (auto simp: soft_target_def nth_list_update fsub_def)
qed

lemma smooth_rows:
  assumes "length rs = length gold" "\<forall>r\<in>set rs. length r = n" "2 \<le> n"
    "\<forall>g\<in>set gold. 0 \<le> g \<and> g < int n"
  shows "map2 (map2 fadd)
           (map (map (\<lambda>v. fmul v (fsub (Fin 1) (Fin (2 / 10)))))
              (scatter_rows (map (map (\<lambda>_. Fin 0)) rs) gold (Fin 1)))
           (map (map (\<lambda>v. fdiv v (Fin (of_int (int n - 1)))))
              (map (map (\<lambda>v. fmul v (Fin (2 / 10))))
                 (map (map (\<lambda>v. fsub (Fin 1) v))
                    (scatter_rows (map (map (\<lambda>_. Fin 0)) rs) gold (Fin 1)))))
         = map (\<lambda>g. map Fin (soft_target n g)) gold"
  using assms
proof (induction rs gold rule: list_induct2)
  case Nil
  then show ?case by simp
next
  case (Cons r rs g gold)
  then show ?case using smooth_row [of r n g] by simp
qed

lemma rows_dot:
  "length rs = length gold \<Longrightarrow>
   map fneg (map fsum (map2 (map2 fmul) (map S gold) (map L rs)))
   = map (\<lambda>(row, g). fneg (dot (S g) (L row))) (zip rs gold)"
  by (induction rs gold rule: list_induct2) (simp_all add: dot_def)

lemma scatter1_ok:
  "length index \<le> length (rws t) \<Longrightarrow> \<forall>g\<in>set index. 0 \<le> g \<and> g < int (size1 t) \<Longrightarrow>
   scatter1 t index v = Inr (t\<lparr>rws := scatter_rows (rws t) index v\<rparr>)"
  by (auto simp: scatter1_def list_ex_iff)

lemma scatter1_error: "scatter1 t index v = Inl e \<Longrightarrow> e = RuntimeError"
  by (auto simp: scatter1_def split: if_splits)

lemma calculate_loss_error:
  "calculate_loss pred gold True = Inl e \<Longrightarrow> e = RuntimeError"
  by (auto simp: calculate_loss_def Let_def split: sum.splits dest: scatter1_error)

text \<open>
  Claim C2. For logits of shape batch \<times> classes with at least two classes and one gold
  label per sample, each the index of a class, the loss with smoothing enabled is the
  mean over the batch of the negative dot product between the soft target (\<open>1 - eps\<close> on
  the gold class, \<open>eps / (classes - 1)\<close> on each other class, \<open>eps = 0.2\<close>) and the
  log-softmax of the logits.
\<close>

theorem calculate_loss_smoothing:
  assumes "wf_tensor pred" "2 \<le> size1 pred" "length gold = length (rws pred)"
    "\<forall>g\<in>set gold. 0 \<le> g \<and> g < int (size1 pred)"
  shows "calculate_loss pred gold True = Inr (smoothed_loss_spec pred gold)"
proof -
  define oh where
    "oh = (zeros_like pred)\<lparr>rws := scatter_rows (rws (zeros_like pred)) gold (Fin 1)\<rparr>"
  define oh' where
    "oh' = t_map2 fadd
             (t_map (\<lambda>v. fmul v (fsub (Fin 1) (Fin (2 / 10)))) oh)
             (t_map (\<lambda>v. fdiv v (Fin (of_int (int (size1 pred) - 1))))
                (t_map (\<lambda>v. fmul v (Fin (2 / 10)))
                   (t_map (\<lambda>v. fsub (Fin 1) v) oh)))"
  have len: "length (rws pred) = length gold" using assms(3) by simp
  have rows: "\<forall>r\<in>set (rws pred). length r = size1 pred"
    using assms(1) by (simp add: wf_tensor_def list_all_iff)
  have sc: "scatter1 (zeros_like pred) gold (Fin 1) = Inr oh"
    unfolding oh_def using assms by (intro scatter1_ok) (simp_all add: zeros_like_def)
  have oh': "rws oh' = map (\<lambda>g. map Fin (soft_target (size1 pred) g)) gold"
    unfolding oh'_def oh_def
    using smooth_rows [OF len rows assms(2) assms(4)]
    by (simp add: t_map_def t_map2_def zeros_like_def del: map_map)
  have "fneg (mean (sum_dim1 (t_map2 fmul oh' (log_softmax pred))))
      = smoothed_loss_spec pred gold"
    unfolding smoothed_loss_spec_def fneg_mean sum_dim1_def
    using rows_dot [OF len, of "\<lambda>g. map Fin (soft_target (size1 pred) g)" log_softmax_row]
    by (simp add: t_map2_def oh' log_softmax_def del: map_map)
  then show ?thesis
    unfolding calculate_loss_def
    by (simp add: sc Let_def oh'_def)
qed

theorem calculate_loss_smoothing_witness:
  "wf_tensor \<lparr>size1 = 3, rws = [[Fin 1, Fin 2, Fin 3], [Fin 0, Fin 0, Fin 0]]\<rparr>
   \<and> 2 \<le> size1 \<lparr>size1 = 3, rws = [[Fin 1, Fin 2, Fin 3], [Fin 0, Fin 0, Fin 0]]\<rparr>
   \<and> length [2, 0 :: int]
       = length (rws \<lparr>size1 = 3, rws = [[Fin 1, Fin 2, Fin 3], [Fin 0, Fin 0, Fin 0]]\<rparr>)
   \<and> list_all (\<lambda>g. 0 \<le> g
         \<and> g < int (size1 \<lparr>size1 = 3, rws = [[Fin 1, Fin 2, Fin 3], [Fin 0, Fin 0, Fin 0]]\<rparr>))
       [2, 0 :: int]
   \<and> calculate_loss \<lparr>size1 = 3, rws = [[Fin 1, Fin 2, Fin 3], [Fin 0, Fin 0, Fin 0]]\<rparr>
         [2, 0] True
       = Inr (smoothed_loss_spec
                \<lparr>size1 = 3, rws = [[Fin 1, Fin 2, Fin 3], [Fin 0, Fin 0, Fin 0]]\<rparr> [2, 0])"
  using calculate_loss_smoothing
    [of "\<lparr>size1 = 3, rws = [[Fin 1, Fin 2, Fin 3], [Fin 0, Fin 0, Fin 0]]\<rparr>" "[2, 0]"]
  by (simp add: wf_tensor_def)

section \<open>The loss on a single class\<close>

lemma length_log_softmax_row: "length (log_softmax_row xs) = length xs"
  by (simp add: log_softmax_row_def Let_def split: list.splits)

lemma foldl_fadd_NaN: "foldl fadd NaN xs = NaN"
  by (induction xs) simp_all

lemma mean_all_NaN: "\<forall>x\<in>set xs. x = NaN \<Longrightarrow> mean xs = NaN"
  by (cases xs) (simp_all add: mean_def fsum_def foldl_fadd_NaN inf_of_sign_def)

text \<open>
  With one class the divisor \<open>n_class - 1\<close> is 0 and the smoothing term of the only
  entry of a row is \<open>0 / 0\<close>: the row sums to NaN.
\<close>

lemma one_class_row:
  assumes "length r = 1"
  shows "fsum (map2 fmul
           (map2 fadd
              (map (\<lambda>v. fmul v (fsub (Fin 1) (Fin (2 / 10)))) ((map (\<lambda>_. Fin 0) r)[nat 0 := Fin 1]))
              (map (\<lambda>v. fdiv v (Fin (of_int (int 1 - 1))))
                 (map (\<lambda>v. fmul v (Fin (2 / 10)))
                    (map (\<lambda>v. fsub (Fin 1) v) ((map (\<lambda>_. Fin 0) r)[nat 0 := Fin 1])))))
           (log_softmax_row r)) = NaN"
proof -
  from assms obtain x where r: "r = [x]" by (cases r) auto
  obtain y where y: "log_softmax_row [x] = [y]"
    using length_log_softmax_row [of "[x]"] by (cases "log_softmax_row [x]") auto
  show ?thesis
    by (simp add: r y fsub_def inf_of_sign_def fsum_def)
qed

lemma one_class_rows:
  assumes "length rs = length gold" "\<forall>r\<in>set rs. length r = 1" "\<forall>g\<in>set gold. g = 0"
  shows "\<forall>x\<in>set (map fsum (map2 (map2 fmul)
           (map2 (map2 fadd)
              (map (map (\<lambda>v. fmul v (fsub (Fin 1) (Fin (2 / 10)))))
                 (scatter_rows (map (map (\<lambda>_. Fin 0)) rs) gold (Fin 1)))
              (map (map (\<lambda>v. fdiv v (Fin (of_int (int 1 - 1)))))
                 (map (map (\<lambda>v. fmul v (Fin (2 / 10))))
                    (map (map (\<lambda>v. fsub (Fin 1) v))
                       (scatter_rows (map (map (\<lambda>_. Fin 0)) rs) gold (Fin 1))))))
           (map log_softmax_row rs))). x = NaN"
  using assms
proof (induction rs gold rule: list_induct2)
  case Nil
  then show ?case by simp
next
  case (Cons r rs g gold)
  then have g: "g = 0" and r: "length r = 1" by simp_all
  from Cons show ?case using one_class_row [OF r] by (simp add: g del: map_map)
qed

text \<open>
  Claim C8, as the code has it. With smoothing enabled the loss function raises no
  division-by-zero error on any input: the division by \<open>n_class - 1\<close> is a tensor
  division, which yields NaN or an infinity on a zero divisor. On logits with exactly
  one class and one label per sample, each label 0 (the only class), it returns NaN.
\<close>

theorem calculate_loss_one_class:
  "calculate_loss pred gold True \<noteq> Inl ZeroDivisionError \<and>
   (wf_tensor pred \<and> size1 pred = 1 \<and> length gold = length (rws pred) \<and> (\<forall>g\<in>set gold. g = 0)
      \<longrightarrow> calculate_loss pred gold True = Inr NaN)"
proof (intro conjI impI)
  show "calculate_loss pred gold True \<noteq> Inl ZeroDivisionError"
    using calculate_loss_error [of pred gold ZeroDivisionError] by auto
next
  assume a: "wf_tensor pred \<and> size1 pred = 1 \<and> length gold = length (rws pred)
    \<and> (\<forall>g\<in>set gold. g = 0)"
  define oh where
    "oh = (zeros_like pred)\<lparr>rws := scatter_rows (rws (zeros_like pred)) gold (Fin 1)\<rparr>"
  have len: "length (rws pred) = length gold" using a by simp
  have rows: "\<forall>r\<in>set (rws pred). length r = 1"
    using a by (simp add: wf_tensor_def list_all_iff)
  have sc: "scatter1 (zeros_like pred) gold (Fin 1) = Inr oh"
    unfolding oh_def using a by (intro scatter1_ok) (auto simp: zeros_like_def)
  have g0: "\<forall>g\<in>set gold. g = 0" using a by simp
  have s1: "size1 pred = 1" using a by simp
  have "fneg (mean (sum_dim1 (t_map2 fmul
          (t_map2 fadd
             (t_map (\<lambda>v. fmul v (fsub (Fin 1) (Fin (2 / 10)))) oh)
             (t_map (\<lambda>v. fdiv v (Fin (of_int (int 1 - 1))))
                (t_map (\<lambda>v. fmul v (Fin (2 / 10)))
                   (t_map (\<lambda>v. fsub (Fin 1) v) oh))))
          (log_softmax pred)))) = NaN"
    using mean_all_NaN [OF one_class_rows [OF len rows g0]]
    by (simp add: oh_def t_map_def t_map2_def zeros_like_def sum_dim1_def
        log_softmax_def del: map_map)
  then show "calculate_loss pred gold True = Inr NaN"
    unfolding calculate_loss_def
    by (simp add: sc Let_def s1)
qed

theorem calculate_loss_one_class_witness:
  "wf_tensor \<lparr>size1 = 1, rws = [[Fin 3], [Fin (- 1)]]\<rparr>
   \<and> size1 \<lparr>size1 = 1, rws = [[Fin 3], [Fin (- 1)]]\<rparr> = 1
   \<and> length [0, 0 :: int] = length (rws \<lparr>size1 = 1, rws = [[Fin 3], [Fin (- 1)]]\<rparr>)
   \<and> list_all (\<lambda>g. g = 0) [0, 0 :: int]
   \<and> calculate_loss \<lparr>size1 = 1, rws = [[Fin 3], [Fin (- 1)]]\<rparr> [0, 0] True = Inr NaN"
  using calculate_loss_one_class [of "\<lparr>size1 = 1, rws = [[Fin 3], [Fin (- 1)]]\<rparr>" "[0, 0]"]
  by (simp add: wf_tensor_def)

text \<open>
  The claim as the specification states it fails on one sample with one class: the call
  returns a value, NaN, and raises nothing.
\<close>

theorem calculate_loss_one_class_returns_nan:
  "calculate_loss \<lparr>size1 = 1, rws = [[Fin 0]]\<rparr> [0] True = Inr NaN"
  by (simp add: calculate_loss_def scatter1_def zeros_like_def t_map_def t_map2_def
        log_softmax_def log_softmax_row_def sum_dim1_def mean_def fsum_def fsub_def
        inf_of_sign_def)

section \<open>What the loops do to the state\<close>

lemma get_lr_const: "base_lr sc = eta_min sc \<Longrightarrow> get_lr sc (eta_min sc) = eta_min sc"
  by (simp add: get_lr_def Let_def)

lemma cosine_annealing_const: "base_lr sc = eta_min sc \<Longrightarrow> cosine_annealing sc t = eta_min sc"
  by (simp add: cosine_annealing_def)

lemma train_loop_frame:
  "\<exists>o' m' k. k \<le> length bs \<and> (dry_ryn p \<longrightarrow> k \<le> 1) \<and>
     fst (train_loop env p bs s a)
       = s\<lparr>net := m', opt := o', trace := trace s @ map TrainBatch (take k bs)\<rparr>"
proof (induction bs arbitrary: s a)
  case Nil
  have "fst (train_loop env p [] s a) = s\<lparr>net := net s, opt := opt s, trace := trace s @ map TrainBatch (take 0 [])\<rparr>"
    by simp
  then show ?case by blast
next
  case (Cons b bs)
  define logits where "logits = forward env True (net s) (map fst b)"
  define s1 where "s1 = emit (TrainBatch b) s"
  show ?case
  proof (cases "calculate_loss logits (flat (squeeze (map snd b))) True")
    case (Inl e)
    then have "fst (train_loop env p (b # bs) s a)
        = s\<lparr>net := net s, opt := opt s, trace := trace s @ map TrainBatch (take 1 (b # bs))\<rparr>"
      by (simp add: Let_def logits_def emit_def)
    moreover have "(1::nat) \<le> length (b # bs)" "dry_ryn p \<longrightarrow> (1::nat) \<le> 1" by simp_all
    ultimately show ?thesis by blast
  next
    case (Inr loss)
    obtain o' m' where bw: "backward_step env (cur_lr s1) (opt s1) (net s1) (map fst b)
        (flat (squeeze (map snd b))) = (o', m')" by (cases "backward_step env (cur_lr s1) (opt s1) (net s1) (map fst b)
        (flat (squeeze (map snd b)))") auto
    define s2 where "s2 = s1\<lparr>opt := o', net := m'\<rparr>"
    have one: "(1::nat) \<le> length (b # bs)" "dry_ryn p \<longrightarrow> (1::nat) \<le> 1" by simp_all
    have s2: "s2 = s\<lparr>net := m', opt := o', trace := trace s @ map TrainBatch (take 1 (b # bs))\<rparr>"
      by (simp add: s2_def s1_def emit_def)
    show ?thesis
    proof (cases "max_dim1_indices logits")
      case (Inl e)
      with Inr bw have "fst (train_loop env p (b # bs) s a) = s2"
        by (simp add: Let_def logits_def s1_def s2_def)
      with s2 have "fst (train_loop env p (b # bs) s a)
          = s\<lparr>net := m', opt := o', trace := trace s @ map TrainBatch (take 1 (b # bs))\<rparr>"
        by simp
      with one show ?thesis by blast
    next
      case prd: (Inr prd)
      show ?thesis
      proof (cases "dry_ryn p")
        case True
        with Inr bw prd have "fst (train_loop env p (b # bs) s a) = s2"
          by (simp add: Let_def logits_def s1_def s2_def)
        with s2 have "fst (train_loop env p (b # bs) s a)
          = s\<lparr>net := m', opt := o', trace := trace s @ map TrainBatch (take 1 (b # bs))\<rparr>"
        by simp
      with one show ?thesis by blast
      next
        case False
        define a' where "a' = accumulate a loss (length (map fst b)) (squeeze (map snd b)) prd"
        from False Inr bw prd
        have step: "train_loop env p (b # bs) s a = train_loop env p bs s2 a'"
          by (simp add: Let_def logits_def s1_def s2_def a'_def)
        from Cons.IH [of s2 a'] obtain o'' m'' k where
          k: "k \<le> length bs" "dry_ryn p \<longrightarrow> k \<le> 1"
          and eq: "fst (train_loop env p bs s2 a')
            = s2\<lparr>net := m'', opt := o'', trace := trace s2 @ map TrainBatch (take k bs)\<rparr>"
          by blast
        have "fst (train_loop env p (b # bs) s a)
            = s\<lparr>net := m'', opt := o'', trace := trace s @ map TrainBatch (take (Suc k) (b # bs))\<rparr>"
          unfolding step eq by (simp add: s2)
        moreover have "Suc k \<le> length (b # bs)" "dry_ryn p \<longrightarrow> Suc k \<le> 1"
          using k False by simp_all
        ultimately show ?thesis by blast
      qed
    qed
  qed
qed


lemma flat_squeeze [simp]: "flat (squeeze ls) = ls"
  by (cases ls rule: list.exhaust; simp add: squeeze_def split: list.splits)

lemma val_loop_frame:
  "\<exists>k. k \<le> length bs \<and>
     fst (val_loop env bs s a) = s\<lparr>trace := trace s @ map ValBatch (take k bs)\<rparr>"
proof (induction bs arbitrary: s a)
  case Nil
  have "fst (val_loop env [] s a) = s\<lparr>trace := trace s @ map ValBatch (take 0 [])\<rparr>"
    by simp
  then show ?case by blast
next
  case (Cons b bs)
  define logits where "logits = forward env False (net s) (map fst b)"
  define s1 where "s1 = emit (ValBatch b) s"
  have one: "(1::nat) \<le> length (b # bs)" by simp
  have s1: "s1 = s\<lparr>trace := trace s @ map ValBatch (take 1 (b # bs))\<rparr>"
    by (simp add: s1_def emit_def)
  show ?case
  proof (cases "calculate_loss logits (map snd b) True")
    case (Inl e)
    then have "fst (val_loop env (b # bs) s a) = s1"
      by (simp add: Let_def logits_def s1_def)
    with s1 one show ?thesis by metis
  next
    case (Inr loss)
    show ?thesis
    proof (cases "max_dim1_indices logits")
      case (Inl e)
      with Inr have "fst (val_loop env (b # bs) s a) = s1"
        by (simp add: Let_def logits_def s1_def)
      with s1 one show ?thesis by metis
    next
      case prd: (Inr prd)
      define a' where "a' = accumulate a loss (length (map fst b)) (squeeze (map snd b)) prd"
      from Inr prd
      have step: "val_loop env (b # bs) s a = val_loop env bs s1 a'"
        by (simp add: Let_def logits_def s1_def a'_def)
      from Cons.IH [of s1 a'] obtain k where
        k: "k \<le> length bs"
        and eq: "fst (val_loop env bs s1 a')
            = s1\<lparr>trace := trace s1 @ map ValBatch (take k bs)\<rparr>"
        by blast
      have "fst (val_loop env (b # bs) s a)
            = s\<lparr>trace := trace s @ map ValBatch (take (Suc k) (b # bs))\<rparr>"
        unfolding step eq by (simp add: s1)
      moreover have "Suc k \<le> length (b # bs)" using k by simp
      ultimately show ?thesis by blast
    qed
  qed
qed

lemma train_batch_state:
  "fst (train_batch env p trl e s)
     = fst (train_loop env p (iterate (sampler env TrainP e) trl) (scheduler_step s) accum0)"
  by (simp add: train_batch_def split: prod.splits sum.splits)

lemma epoch_body_Continue:
  assumes "epoch_body env p trl vl e s = (s', Inr Continue)"
  obtains s1 train_loss train_true train_pred s2 a val_true val_pred val_loss where
    "train_batch env p trl e s = (s1, Inr (train_loss, train_true, train_pred))"
    "\<not> dry_ryn p"
    "val_loop env (iterate (sampler env ValidationP e) vl) s1 accum0 = (s2, Inr a)"
    "np_concatenate (trues a) = Inr val_true"
    "np_concatenate (preds a) = Inr val_pred"
    "py_truediv (fmul (loss_sum a) (Fin 1)) (count a) = Inr val_loss"
    "s' = (let s4 = torch_save (checkpoint_path p)
                      (emit (Csv e train_loss (accuracy_score train_true train_pred)
                               (balanced_accuracy_score train_true train_pred) val_loss
                               (accuracy_score val_true val_pred)
                               (balanced_accuracy_score val_true val_pred)) s2)
           in if fgt (balanced_accuracy_score val_true val_pred) (global_best_avg_acc s4)
              then torch_save best_model_path
                     (s4\<lparr>global_best_loss := val_loss,
                         global_best_acc := accuracy_score val_true val_pred,
                         global_best_avg_acc := balanced_accuracy_score val_true val_pred\<rparr>)
              else s4)"
  using assms that unfolding epoch_body_def
  by (auto simp: Let_def split: prod.splits sum.splits if_splits)

lemma epoch_body_Break:
  assumes "epoch_body env p trl vl e s = (s', Inr Break)"
  shows "dry_ryn p \<and> (\<exists>t. train_batch env p trl e s = (s', Inr t))"
  using assms unfolding epoch_body_def
  by (auto simp: Let_def split: prod.splits sum.splits if_splits)

lemma epoch_body_Inl:
  assumes "epoch_body env p trl vl e s = (s', Inl err)"
  shows "s' = fst (train_batch env p trl e s)
       \<or> (\<not> dry_ryn p \<and> s' = fst (val_loop env (iterate (sampler env ValidationP e) vl)
                     (fst (train_batch env p trl e s)) accum0))"
  using assms unfolding epoch_body_def
  by (auto simp: Let_def split: prod.splits sum.splits if_splits)

lemma epoch_body_dry:
  assumes "dry_ryn p"
  shows "fst (epoch_body env p trl vl e s) = fst (train_batch env p trl e s)
    \<and> snd (epoch_body env p trl vl e s) \<noteq> Inr Continue"
  using assms unfolding epoch_body_def
  by (auto simp: Let_def split: prod.splits sum.splits if_splits)

section \<open>The learning rate\<close>

lemma train_batch_frame:
  "\<exists>o' m' k. k \<le> length (iterate (sampler env TrainP e) trl) \<and> (dry_ryn p \<longrightarrow> k \<le> 1) \<and>
     fst (train_batch env p trl e s)
       = s\<lparr>net := m', opt := o', cur_lr := cur_lr (scheduler_step s),
            scheduler := scheduler (scheduler_step s),
            trace := trace s @ SchedulerStep
                       # map TrainBatch (take k (iterate (sampler env TrainP e) trl))\<rparr>"
proof -
  from train_loop_frame [of "iterate (sampler env TrainP e) trl" p env "scheduler_step s" accum0]
  obtain o' m' k where k: "k \<le> length (iterate (sampler env TrainP e) trl)" "dry_ryn p \<longrightarrow> k \<le> 1"
    and eq: "fst (train_loop env p (iterate (sampler env TrainP e) trl) (scheduler_step s) accum0)
       = (scheduler_step s)\<lparr>net := m', opt := o',
            trace := trace (scheduler_step s) @ map TrainBatch (take k (iterate (sampler env TrainP e) trl))\<rparr>"
    by blast
  have "fst (train_batch env p trl e s)
       = s\<lparr>net := m', opt := o', cur_lr := cur_lr (scheduler_step s),
            scheduler := scheduler (scheduler_step s),
            trace := trace s @ SchedulerStep
                       # map TrainBatch (take k (iterate (sampler env TrainP e) trl))\<rparr>"
    unfolding train_batch_state eq by (simp add: scheduler_step_def emit_def Let_def)
  with k show ?thesis by blast
qed

lemma cur_lr_scheduler_step:
  "base_lr (scheduler s) = eta_min (scheduler s) \<Longrightarrow> cur_lr s = eta_min (scheduler s) \<Longrightarrow>
   cur_lr (scheduler_step s) = eta_min (scheduler s)
   \<and> base_lr (scheduler (scheduler_step s)) = base_lr (scheduler s)
   \<and> eta_min (scheduler (scheduler_step s)) = eta_min (scheduler s)
   \<and> T_max (scheduler (scheduler_step s)) = T_max (scheduler s)"
  by (simp add: scheduler_step_def emit_def Let_def get_lr_def)

lemma lr_inv_train_batch: "lr_inv r s \<Longrightarrow> lr_inv r (fst (train_batch env p trl e s))"
proof -
  assume a: "lr_inv r s"
  from train_batch_frame [of env e trl p s] obtain o' m' k where
    eq: "fst (train_batch env p trl e s)
       = s\<lparr>net := m', opt := o', cur_lr := cur_lr (scheduler_step s),
            scheduler := scheduler (scheduler_step s),
            trace := trace s @ SchedulerStep
                       # map TrainBatch (take k (iterate (sampler env TrainP e) trl))\<rparr>"
    by blast
  show ?thesis
    unfolding eq using a cur_lr_scheduler_step [of s] by (simp add: lr_inv_def)
qed

lemma lr_inv_val_loop: "lr_inv r s \<Longrightarrow> lr_inv r (fst (val_loop env bs s a))"
proof -
  assume a: "lr_inv r s"
  from val_loop_frame [of bs env s a] obtain k where
    eq: "fst (val_loop env bs s a) = s\<lparr>trace := trace s @ map ValBatch (take k bs)\<rparr>"
    by blast
  show ?thesis unfolding eq using a by (simp add: lr_inv_def)
qed

lemma lr_inv_epoch_body:
  assumes "lr_inv r s"
  shows "lr_inv r (fst (epoch_body env p trl vl e s))"
proof -
  obtain s' res where eb: "epoch_body env p trl vl e s = (s', res)"
    by (cases "epoch_body env p trl vl e s")
  have s1: "lr_inv r (fst (train_batch env p trl e s))"
    using assms by (rule lr_inv_train_batch)
  have "lr_inv r s'"
  proof (cases res)
    case (Inl err)
    with eb epoch_body_Inl [of env p trl vl e s s' err] s1 lr_inv_val_loop [OF s1]
    show ?thesis by auto
  next
    case (Inr fl)
    show ?thesis
    proof (cases fl)
      case Continue
      with eb Inr have "epoch_body env p trl vl e s = (s', Inr Continue)" by simp
      then show ?thesis
      proof (rule epoch_body_Continue)
        fix s1' train_loss train_true train_pred s2 a val_true val_pred val_loss
        assume tb: "train_batch env p trl e s = (s1', Inr (train_loss, train_true, train_pred))"
          and vlp: "val_loop env (iterate (sampler env ValidationP e) vl) s1' accum0 = (s2, Inr a)"
          and s': "s' = (let s4 = torch_save (checkpoint_path p)
                      (emit (Csv e train_loss (accuracy_score train_true train_pred)
                               (balanced_accuracy_score train_true train_pred) val_loss
                               (accuracy_score val_true val_pred)
                               (balanced_accuracy_score val_true val_pred)) s2)
           in if fgt (balanced_accuracy_score val_true val_pred) (global_best_avg_acc s4)
              then torch_save best_model_path
                     (s4\<lparr>global_best_loss := val_loss,
                         global_best_acc := accuracy_score val_true val_pred,
                         global_best_avg_acc := balanced_accuracy_score val_true val_pred\<rparr>)
              else s4)"
        from tb s1 have "lr_inv r s1'" by simp
        from lr_inv_val_loop [OF this, of env "iterate (sampler env ValidationP e) vl" accum0] vlp
        have "lr_inv r s2" by simp
        then show "lr_inv r s'"
          unfolding s' by (simp add: lr_inv_def Let_def torch_save_def emit_def)
      qed
    next
      case Break
      with eb Inr epoch_body_Break [of env p trl vl e s s'] s1 show ?thesis by auto
    qed
  qed
  with eb show ?thesis by simp
qed

lemma lr_inv_epoch_loop:
  "lr_inv r s \<Longrightarrow> lr_inv r (fst (epoch_loop env p trl vl es s))"
proof (induction es arbitrary: s)
  case Nil
  then show ?case by simp
next
  case (Cons e es)
  from lr_inv_epoch_body [OF Cons.prems, of env p trl vl e]
  have "lr_inv r (fst (epoch_body env p trl vl e s))" .
  then show ?case
    using Cons.IH [of "fst (epoch_body env p trl vl e s)"]
    by (auto split: prod.splits sum.splits flow.splits)
qed

lemma lr_inv_init: "lr_inv (lr p) (init_state env p fs)"
  by (simp add: lr_inv_def init_state_def CosineAnnealingLR_def)

lemma lr_inv_resume: "lr_inv r s \<Longrightarrow> lr_inv r (fst (resume p s))"
  by (simp add: lr_inv_def resume_def torch_load_def emit_def split: option.splits)

lemma train_cases:
  obtains (loader_error) e where
      "train env p fs = ((init_state env p fs)\<lparr>trace := []\<rparr>, Inl e)"
      "train_loader_of env p = Inl e \<or> validation_loader_of env p = Inl e"
  | (resume_error) trl vl s0 e where
      "train_loader_of env p = Inr trl"
      "validation_loader_of env p = Inr vl"
      "resume p (init_state env p fs) = (s0, Inl e)"
      "train env p fs = (s0, Inl e)"
  | (loop_error) trl vl s0 s1 e where
      "train_loader_of env p = Inr trl"
      "validation_loader_of env p = Inr vl"
      "resume p (init_state env p fs) = (s0, Inr ())"
      "epoch_loop env p trl vl [0..<nat (epochs p)] s0 = (s1, Inl e)"
      "train env p fs = (s1, Inl e)"
  | (finished) trl vl s0 s1 where
      "train_loader_of env p = Inr trl"
      "validation_loader_of env p = Inr vl"
      "resume p (init_state env p fs) = (s0, Inr ())"
      "epoch_loop env p trl vl [0..<nat (epochs p)] s0 = (s1, Inr ())"
      "train env p fs = (emit (PrintSummary (global_best_loss s1) (global_best_acc s1)
                                  (global_best_avg_acc s1)) s1, Inr ())"
proof (cases "train_loader_of env p")
  case (Inl e)
  then show ?thesis using loader_error [of e] by (simp add: train_def)
next
  case trl: (Inr trl)
  show ?thesis
  proof (cases "validation_loader_of env p")
    case (Inl e)
    then show ?thesis using trl loader_error [of e] by (simp add: train_def)
  next
    case vl: (Inr vl)
    obtain s0 r0 where r: "resume p (init_state env p fs) = (s0, r0)"
      by (cases "resume p (init_state env p fs)")
    show ?thesis
    proof (cases r0)
      case (Inl e)
      then show ?thesis using trl vl r resume_error [of trl vl s0 e] by (simp add: train_def)
    next
      case (Inr u)
      obtain s1 r1 where l: "epoch_loop env p trl vl [0..<nat (epochs p)] s0 = (s1, r1)"
        by (cases "epoch_loop env p trl vl [0..<nat (epochs p)] s0")
      show ?thesis
      proof (cases r1)
        case (Inl e)
        then show ?thesis using trl vl r Inr l loop_error [of trl vl s0 s1 e]
          by (simp add: train_def)
      next
        case u': (Inr u')
        then show ?thesis using trl vl r Inr l finished [of trl vl s0 s1]
          by (simp add: train_def)
      qed
    qed
  qed
qed

lemma lr_inv_train: "lr_inv (lr p) (fst (train env p fs))"
proof -
  have i: "lr_inv (lr p) (init_state env p fs)" by (rule lr_inv_init)
  have l: "lr_inv (lr p) (fst (resume p (init_state env p fs)))"
    using i by (rule lr_inv_resume)
  show ?thesis
  proof (cases rule: train_cases [of env p fs])
    case (loader_error e)
    then show ?thesis using i by (simp add: lr_inv_def)
  next
    case (resume_error trl vl s0 e)
    then show ?thesis using l by simp
  next
    case (loop_error trl vl s0 s1 e)
    then show ?thesis using l lr_inv_epoch_loop [of "lr p" s0 env p trl vl "[0..<nat (epochs p)]"]
      by simp
  next
    case (finished trl vl s0 s1)
    then show ?thesis using l lr_inv_epoch_loop [of "lr p" s0 env p trl vl "[0..<nat (epochs p)]"]
      by (simp add: lr_inv_def emit_def)
  qed
qed

text \<open>
  Claim C10. The scheduler is constructed with a minimum rate equal to the configured
  rate, which is also its base rate. So the closed form of cosine annealing gives the
  configured rate after any number of steps, and the rate of the optimizer is the
  configured rate after any sequence of epochs and at the end of a training run.
\<close>

theorem learning_rate_constant:
  "eta_min (scheduler (init_state env p fs)) = lr p
   \<and> base_lr (scheduler (init_state env p fs)) = lr p
   \<and> cosine_annealing (scheduler (init_state env p fs)) t = lr p
   \<and> cur_lr (fst (epoch_loop env p trl vl es (fst (resume p (init_state env p fs))))) = lr p
   \<and> cur_lr (fst (train env p fs)) = lr p"
proof -
  have i: "lr_inv (lr p) (init_state env p fs)" by (rule lr_inv_init)
  have "cosine_annealing (scheduler (init_state env p fs)) t = lr p"
    using i cosine_annealing_const [of "scheduler (init_state env p fs)" t]
    by (simp add: lr_inv_def)
  moreover have "cur_lr (fst (epoch_loop env p trl vl es (fst (resume p (init_state env p fs))))) = lr p"
  proof -
    have "lr_inv (lr p) (fst (resume p (init_state env p fs)))"
      using i by (rule lr_inv_resume)
    then have "lr_inv (lr p) (fst (epoch_loop env p trl vl es (fst (resume p (init_state env p fs)))))"
      by (rule lr_inv_epoch_loop)
    then show ?thesis by (simp add: lr_inv_def)
  qed
  moreover have "cur_lr (fst (train env p fs)) = lr p"
    using lr_inv_train [of p env fs] by (simp add: lr_inv_def)
  ultimately show ?thesis using i by (simp add: lr_inv_def)
qed

section \<open>The batches of a loader\<close>

lemma concat_batches_keep: "0 < bs \<Longrightarrow> concat (batches bs False xs) = xs"
proof (induction bs "False" xs rule: batches.induct)
  case (1 bs xs)
  show ?case
  proof (cases "xs = [] \<or> length xs < bs")
    case True
    with "1.prems" show ?thesis by (auto simp: batches.simps [of bs False xs])
  next
    case False
    with 1 show ?thesis by (simp add: batches.simps [of bs False xs])
  qed
qed

lemma batches_drop_full: "list_all (\<lambda>b. length b = bs) (batches bs True xs)"
proof (induction bs "True" xs rule: batches.induct)
  case (1 bs xs)
  show ?case
  proof (cases "bs = 0 \<or> xs = [] \<or> length xs < bs")
    case True
    then show ?thesis by (auto simp: batches.simps [of bs True xs])
  next
    case False
    with 1 show ?thesis by (simp add: batches.simps [of bs True xs])
  qed
qed

lemma length_batches_drop: "0 < bs \<Longrightarrow> length (batches bs True xs) = length xs div bs"
proof (induction bs "True" xs rule: batches.induct)
  case (1 bs xs)
  show ?case
  proof (cases "xs = [] \<or> length xs < bs")
    case True
    with "1.prems" show ?thesis by (auto simp: batches.simps [of bs True xs])
  next
    case False
    then have ge: "bs \<le> length xs" by simp
    have "length (batches bs True xs) = Suc (length (batches bs True (drop bs xs)))"
      using False "1.prems" by (simp add: batches.simps [of bs True xs])
    also have "\<dots> = Suc ((length xs - bs) div bs)"
      using 1 False by simp
    also have "\<dots> = length xs div bs"
      using ge "1.prems" by (simp add: le_div_geq)
    finally show ?thesis .
  qed
qed

lemma concat_batches_drop:
  "0 < bs \<Longrightarrow> concat (batches bs True xs) = take (length xs div bs * bs) xs"
proof (induction bs "True" xs rule: batches.induct)
  case (1 bs xs)
  show ?case
  proof (cases "xs = [] \<or> length xs < bs")
    case True
    with "1.prems" show ?thesis by (auto simp: batches.simps [of bs True xs])
  next
    case False
    then have ge: "bs \<le> length xs" by simp
    have d: "length xs div bs = Suc ((length xs - bs) div bs)"
      using ge "1.prems" by (simp add: le_div_geq)
    have "concat (batches bs True xs) = take bs xs @ concat (batches bs True (drop bs xs))"
      using False "1.prems" by (simp add: batches.simps [of bs True xs])
    also have "\<dots> = take bs xs @ take ((length xs - bs) div bs * bs) (drop bs xs)"
      using 1 False by simp
    also have "\<dots> = take (bs + (length xs - bs) div bs * bs) xs"
      by (simp add: take_add)
    also have "\<dots> = take (length xs div bs * bs) xs"
      by (simp add: d)
    finally show ?thesis .
  qed
qed

lemma batches_nonempty: "list_all (\<lambda>b. b \<noteq> []) (batches bs d xs)"
proof (induction bs d xs rule: batches.induct)
  case (1 bs d xs)
  show ?case
  proof (cases "bs = 0 \<or> xs = [] \<or> length xs < bs")
    case True
    then show ?thesis by (auto simp: batches.simps [of bs d xs])
  next
    case False
    with 1 show ?thesis by (auto simp: batches.simps [of bs d xs])
  qed
qed

lemma batches_keep_eq:
  "0 < bs \<Longrightarrow> length xs mod bs \<noteq> 0 \<Longrightarrow>
   batches bs False xs = batches bs True xs @ [drop (length xs div bs * bs) xs]"
proof (induction bs "False" xs rule: batches.induct)
  case (1 bs xs)
  show ?case
  proof (cases "length xs < bs")
    case True
    with "1.prems" have "xs \<noteq> []" by auto
    with True "1.prems" show ?thesis
      by (simp add: batches.simps [of bs False xs] batches.simps [of bs True xs])
  next
    case False
    then have ge: "bs \<le> length xs" by simp
    then have ne: "xs \<noteq> []" using "1.prems" by auto
    have d: "length xs div bs = Suc ((length xs - bs) div bs)"
      using ge "1.prems" by (simp add: le_div_geq)
    have m: "(length xs - bs) mod bs \<noteq> 0"
      using ge "1.prems" by (simp add: le_mod_geq)
    have "batches bs False (drop bs xs)
        = batches bs True (drop bs xs) @ [drop ((length xs - bs) div bs * bs) (drop bs xs)]"
      using "1.hyps" [of] False ne "1.prems" m by simp
    then show ?thesis
      using False ne "1.prems"
      by (simp add: batches.simps [of bs False xs] batches.simps [of bs True xs] d add.commute)
  qed
qed

section \<open>Loops that do not raise\<close>

lemma set_batches: "b \<in> set (batches bs d xs) \<Longrightarrow> set b \<subseteq> set xs"
proof (induction bs d xs rule: batches.induct)
  case (1 bs d xs)
  show ?case
  proof (cases "bs = 0 \<or> xs = [] \<or> length xs < bs")
    case True
    with "1.prems" show ?thesis by (auto simp: batches.simps [of bs d xs] split: if_splits)
  next
    case False
    with "1.prems" have "b = take bs xs \<or> b \<in> set (batches bs d (drop bs xs))"
      by (simp add: batches.simps [of bs d xs])
    then show ?thesis
    proof
      assume "b = take bs xs"
      then show ?thesis by (auto dest: in_set_takeD)
    next
      assume "b \<in> set (batches bs d (drop bs xs))"
      with "1.IH" False have "set b \<subseteq> set (drop bs xs)" by simp
      then show ?thesis by (auto dest: in_set_dropD)
    qed
  qed
qed

lemma labels_ok_batches:
  assumes "labels_ok xs C"
  shows "list_all (\<lambda>b. labels_ok b C) (batches bs d xs)"
  using assms set_batches [of _ bs d xs]
  unfolding labels_ok_def list_all_iff by blast

lemma labels_ok_sampler:
  "sampler_ok env \<Longrightarrow> labels_ok xs C \<Longrightarrow> labels_ok (sampler env part e xs) C"
  unfolding sampler_ok_def labels_ok_def list_all_iff
  by (metis mset_eq_setD)

lemma labels_ok_iterate:
  assumes "sampler_ok env" "labels_ok (samples l) C"
  shows "list_all (\<lambda>b. labels_ok b C) (iterate (sampler env part e) l)"
  unfolding iterate_def
  using labels_ok_batches [OF labels_ok_sampler [OF assms]] .

lemma calculate_loss_returns:
  assumes "wf_tensor pred" "length gold = length (rws pred)"
    "list_all (\<lambda>g. 0 \<le> g \<and> g < int (size1 pred)) gold"
  shows "\<exists>l. calculate_loss pred gold True = Inr l"
proof -
  have "scatter1 (zeros_like pred) gold (Fin 1)
      = Inr ((zeros_like pred)\<lparr>rws := scatter_rows (rws (zeros_like pred)) gold (Fin 1)\<rparr>)"
    using assms by (intro scatter1_ok) (simp_all add: zeros_like_def list_all_iff)
  then show ?thesis
    unfolding calculate_loss_def by (simp add: Let_def)
qed

lemma max_dim1_indices_returns:
  assumes "0 < size1 t"
  shows "\<exists>q. max_dim1_indices t = Inr (Arr1 q) \<and> length q = length (rws t)"
  using assms by (simp add: max_dim1_indices_def)

lemma max_dim1_indices_Arr1:
  "max_dim1_indices t = Inr q \<Longrightarrow> \<exists>qs. q = Arr1 qs \<and> length qs = length (rws t)"
  by (auto simp: max_dim1_indices_def split: if_splits)

lemma batch_ok:
  assumes "net_ok env C" "labels_ok b C"
  shows "(\<exists>l. batch_loss env mode m b = Inr l)
       \<and> (\<exists>q. batch_preds env mode m b = Inr (Arr1 q) \<and> length q = length b)"
proof -
  have wf: "wf_tensor (forward env mode m (map fst b))"
    and sz: "size1 (forward env mode m (map fst b)) = C"
    and len: "length (rws (forward env mode m (map fst b))) = length (map fst b)"
    and C: "0 < C"
    using assms(1) by (simp_all add: net_ok_def)
  have lab: "list_all (\<lambda>g. 0 \<le> g \<and> g < int (size1 (forward env mode m (map fst b)))) (map snd b)"
    using assms(2) by (auto simp: labels_ok_def list_all_iff sz)
  from calculate_loss_returns [OF wf _ lab] len
  have "\<exists>l. batch_loss env mode m b = Inr l" by (simp add: batch_loss_def)
  moreover from max_dim1_indices_returns [of "forward env mode m (map fst b)"] sz C len
  have "\<exists>q. batch_preds env mode m b = Inr (Arr1 q) \<and> length q = length b"
    by (simp add: batch_preds_def)
  ultimately show ?thesis by blast
qed

text \<open>One turn of each loop, in terms of the loss and the predictions of the batch.\<close>

lemma train_loop_Cons:
  "train_loop env p (b # bs) s a =
     (case batch_loss env True (net s) b of
        Inl e \<Rightarrow> (emit (TrainBatch b) s, Inl e)
      | Inr loss \<Rightarrow>
          (case batch_preds env True (net s) b of
             Inl e \<Rightarrow> ((emit (TrainBatch b) s)
                        \<lparr>opt := fst (backward_step env (cur_lr s) (opt s) (net s) (map fst b) (map snd b)),
                         net := snd (backward_step env (cur_lr s) (opt s) (net s) (map fst b) (map snd b))\<rparr>,
                       Inl e)
           | Inr prd \<Rightarrow>
               if dry_ryn p
               then ((emit (TrainBatch b) s)
                        \<lparr>opt := fst (backward_step env (cur_lr s) (opt s) (net s) (map fst b) (map snd b)),
                         net := snd (backward_step env (cur_lr s) (opt s) (net s) (map fst b) (map snd b))\<rparr>,
                     Inr (accumulate a loss (length b) (squeeze (map snd b)) prd))
               else train_loop env p bs
                      ((emit (TrainBatch b) s)
                        \<lparr>opt := fst (backward_step env (cur_lr s) (opt s) (net s) (map fst b) (map snd b)),
                         net := snd (backward_step env (cur_lr s) (opt s) (net s) (map fst b) (map snd b))\<rparr>)
                      (accumulate a loss (length b) (squeeze (map snd b)) prd)))"
  by (simp add: Let_def batch_loss_def batch_preds_def emit_def split: sum.splits prod.splits)

lemma val_loop_Cons:
  "val_loop env (b # bs) s a =
     (case batch_loss env False (net s) b of
        Inl e \<Rightarrow> (emit (ValBatch b) s, Inl e)
      | Inr loss \<Rightarrow>
          (case batch_preds env False (net s) b of
             Inl e \<Rightarrow> (emit (ValBatch b) s, Inl e)
           | Inr prd \<Rightarrow>
               val_loop env bs (emit (ValBatch b) s)
                 (accumulate a loss (length b) (squeeze (map snd b)) prd)))"
  by (simp add: Let_def batch_loss_def batch_preds_def emit_def split: sum.splits prod.splits)

lemma test_loop_Cons:
  "test_loop env m (b # bs) tr tt tp =
     (case batch_preds env False m b of
        Inl e \<Rightarrow> (tr @ [TestBatch b], Inl e)
      | Inr prd \<Rightarrow> test_loop env m bs (tr @ [TestBatch b]) (tt @ [squeeze (map snd b)]) (tp @ [prd]))"
  by (simp add: Let_def batch_preds_def split: sum.splits)

declare train_loop.simps(2) [simp del] val_loop.simps(2) [simp del] test_loop.simps(2) [simp del]

section \<open>What a pass returns\<close>

lemma train_loop_result:
  assumes "train_loop env p bs s a = (s', Inr a')"
  shows "\<exists>ls ps.
      map2 (\<lambda>om b. batch_loss env True (snd om) b)
        (train_states env (cur_lr s) (opt s, net s) (processed p bs)) (processed p bs) = map Inr ls
    \<and> map2 (\<lambda>om b. batch_preds env True (snd om) b)
        (train_states env (cur_lr s) (opt s, net s) (processed p bs)) (processed p bs) = map Inr ps
    \<and> loss_sum a' = foldl fadd (loss_sum a)
                       (map2 (\<lambda>l b. fmul l (Fin (real (length b)))) ls (processed p bs))
    \<and> count a' = foldl fadd (count a) (map (\<lambda>b. Fin (real (length b))) (processed p bs))
    \<and> trues a' = trues a @ map (\<lambda>b. squeeze (map snd b)) (processed p bs)
    \<and> preds a' = preds a @ ps
    \<and> trace s' = trace s @ map TrainBatch (processed p bs)"
  using assms
proof (induction bs arbitrary: s a)
  case Nil
  then show ?case by (simp add: processed_def)
next
  case (Cons b bs)
  define s2 where "s2 = (emit (TrainBatch b) s)
     \<lparr>opt := fst (backward_step env (cur_lr s) (opt s) (net s) (map fst b) (map snd b)),
      net := snd (backward_step env (cur_lr s) (opt s) (net s) (map fst b) (map snd b))\<rparr>"
  from Cons.prems obtain l where l: "batch_loss env True (net s) b = Inr l"
    unfolding train_loop_Cons by (auto split: sum.splits)
  from Cons.prems l obtain q where q: "batch_preds env True (net s) b = Inr q"
    unfolding train_loop_Cons by (auto split: sum.splits)
  define a2 where "a2 = accumulate a l (length b) (squeeze (map snd b)) q"
  show ?case
  proof (cases "dry_ryn p")
    case True
    with Cons.prems l q have "s' = s2" "a' = a2"
      unfolding train_loop_Cons by (simp_all add: s2_def a2_def)
    then show ?thesis
      using True l q
      by (intro exI [of _ "[l]"] exI [of _ "[q]"])
         (simp add: processed_def s2_def a2_def accumulate_def emit_def)
  next
    case False
    with Cons.prems l q have rec: "train_loop env p bs s2 a2 = (s', Inr a')"
      unfolding train_loop_Cons by (simp add: s2_def a2_def)
    from Cons.IH [OF rec] obtain ls ps where
      ih: "map2 (\<lambda>om b. batch_loss env True (snd om) b)
             (train_states env (cur_lr s2) (opt s2, net s2) (processed p bs)) (processed p bs) = map Inr ls"
          "map2 (\<lambda>om b. batch_preds env True (snd om) b)
             (train_states env (cur_lr s2) (opt s2, net s2) (processed p bs)) (processed p bs) = map Inr ps"
          "loss_sum a' = foldl fadd (loss_sum a2)
                       (map2 (\<lambda>l b. fmul l (Fin (real (length b)))) ls (processed p bs))"
          "count a' = foldl fadd (count a2) (map (\<lambda>b. Fin (real (length b))) (processed p bs))"
          "trues a' = trues a2 @ map (\<lambda>b. squeeze (map snd b)) (processed p bs)"
          "preds a' = preds a2 @ ps"
          "trace s' = trace s2 @ map TrainBatch (processed p bs)"
      by blast
    have st: "cur_lr s2 = cur_lr s"
      "(opt s2, net s2) = backward_step env (cur_lr s) (opt s) (net s) (map fst b) (map snd b)"
      "trace s2 = trace s @ [TrainBatch b]"
      by (simp_all add: s2_def emit_def)
    show ?thesis
      using False l q ih
      by (intro exI [of _ "l # ls"] exI [of _ "q # ps"])
         (simp add: processed_def st a2_def accumulate_def)
  qed
qed

lemma val_loop_result:
  assumes "val_loop env bs s a = (s', Inr a')"
  shows "\<exists>ls ps.
      map (batch_loss env False (net s)) bs = map Inr ls
    \<and> map (batch_preds env False (net s)) bs = map Inr ps
    \<and> loss_sum a' = foldl fadd (loss_sum a) (map2 (\<lambda>l b. fmul l (Fin (real (length b)))) ls bs)
    \<and> count a' = foldl fadd (count a) (map (\<lambda>b. Fin (real (length b))) bs)
    \<and> trues a' = trues a @ map (\<lambda>b. squeeze (map snd b)) bs
    \<and> preds a' = preds a @ ps
    \<and> s' = s\<lparr>trace := trace s @ map ValBatch bs\<rparr>"
  using assms
proof (induction bs arbitrary: s a)
  case Nil
  then show ?case by simp
next
  case (Cons b bs)
  define s2 where "s2 = emit (ValBatch b) s"
  from Cons.prems obtain l where l: "batch_loss env False (net s) b = Inr l"
    unfolding val_loop_Cons by (auto split: sum.splits)
  from Cons.prems l obtain q where q: "batch_preds env False (net s) b = Inr q"
    unfolding val_loop_Cons by (auto split: sum.splits)
  define a2 where "a2 = accumulate a l (length b) (squeeze (map snd b)) q"
  from Cons.prems l q have rec: "val_loop env bs s2 a2 = (s', Inr a')"
    unfolding val_loop_Cons by (simp add: s2_def a2_def)
  from Cons.IH [OF rec] obtain ls ps where
    ih: "map (batch_loss env False (net s2)) bs = map Inr ls"
        "map (batch_preds env False (net s2)) bs = map Inr ps"
        "loss_sum a' = foldl fadd (loss_sum a2) (map2 (\<lambda>l b. fmul l (Fin (real (length b)))) ls bs)"
        "count a' = foldl fadd (count a2) (map (\<lambda>b. Fin (real (length b))) bs)"
        "trues a' = trues a2 @ map (\<lambda>b. squeeze (map snd b)) bs"
        "preds a' = preds a2 @ ps"
        "s' = s2\<lparr>trace := trace s2 @ map ValBatch bs\<rparr>"
    by blast
  have st: "net s2 = net s" "trace s2 = trace s @ [ValBatch b]"
    by (simp_all add: s2_def emit_def)
  show ?case
    using l q ih
    by (intro exI [of _ "l # ls"] exI [of _ "q # ps"])
       (simp add: st a2_def accumulate_def s2_def emit_def)
qed

lemma test_loop_result:
  assumes "test_loop env m bs tr tt tp = (tr', Inr (tt', tp'))"
  shows "\<exists>ps. map (batch_preds env False m) bs = map Inr ps
    \<and> tt' = tt @ map (\<lambda>b. squeeze (map snd b)) bs
    \<and> tp' = tp @ ps
    \<and> tr' = tr @ map TestBatch bs"
  using assms
proof (induction bs arbitrary: tr tt tp)
  case Nil
  then show ?case by simp
next
  case (Cons b bs)
  from Cons.prems obtain q where q: "batch_preds env False m b = Inr q"
    unfolding test_loop_Cons by (auto split: sum.splits)
  with Cons.prems have rec: "test_loop env m bs (tr @ [TestBatch b]) (tt @ [squeeze (map snd b)])
      (tp @ [q]) = (tr', Inr (tt', tp'))"
    unfolding test_loop_Cons by simp
  from Cons.IH [OF rec] obtain ps where
    ih: "map (batch_preds env False m) bs = map Inr ps"
      "tt' = (tt @ [squeeze (map snd b)]) @ map (\<lambda>b. squeeze (map snd b)) bs"
      "tp' = (tp @ [q]) @ ps"
      "tr' = (tr @ [TestBatch b]) @ map TestBatch bs"
    by blast
  show ?case
    using q ih by (intro exI [of _ "q # ps"]) simp
qed

lemma train_loop_ok:
  assumes "net_ok env C" "list_all (\<lambda>b. labels_ok b C) bs"
  shows "\<exists>s' a'. train_loop env p bs s a = (s', Inr a')"
  using assms(2)
proof (induction bs arbitrary: s a)
  case Nil
  then show ?case by simp
next
  case (Cons b bs)
  from batch_ok [OF assms(1), of b True "net s"] Cons.prems
  obtain l q where "batch_loss env True (net s) b = Inr l" "batch_preds env True (net s) b = Inr (Arr1 q)"
    by auto
  then show ?case
    using Cons.IH Cons.prems unfolding train_loop_Cons by simp
qed

lemma val_loop_ok:
  assumes "net_ok env C" "list_all (\<lambda>b. labels_ok b C) bs"
  shows "\<exists>s' a'. val_loop env bs s a = (s', Inr a')"
  using assms(2)
proof (induction bs arbitrary: s a)
  case Nil
  then show ?case by simp
next
  case (Cons b bs)
  from batch_ok [OF assms(1), of b False "net s"] Cons.prems
  obtain l q where "batch_loss env False (net s) b = Inr l" "batch_preds env False (net s) b = Inr (Arr1 q)"
    by auto
  then show ?case
    using Cons.IH Cons.prems unfolding val_loop_Cons by simp
qed

lemma batch_preds_ok:
  assumes "net_ok env C"
  shows "\<exists>q. batch_preds env mode m b = Inr (Arr1 q) \<and> length q = length b"
proof -
  have "size1 (forward env mode m (map fst b)) = C"
    and "length (rws (forward env mode m (map fst b))) = length (map fst b)"
    and "0 < C"
    using assms(1) by (simp_all add: net_ok_def)
  with max_dim1_indices_returns [of "forward env mode m (map fst b)"]
  show ?thesis by (simp add: batch_preds_def)
qed

lemma test_loop_ok:
  assumes "net_ok env C"
  shows "\<exists>tr' tt' tp'. test_loop env m bs tr tt tp = (tr', Inr (tt', tp'))"
proof (induction bs arbitrary: tr tt tp)
  case Nil
  then show ?case by simp
next
  case (Cons b bs)
  from batch_preds_ok [OF assms, of False m b]
  obtain q where "batch_preds env False m b = Inr (Arr1 q)" by auto
  then show ?case
    using Cons.IH unfolding test_loop_Cons by simp
qed

lemma train_batches_append [simp]:
  "train_batches (tr @ tr') = train_batches tr @ train_batches tr'"
  by (induction tr rule: train_batches.induct) simp_all

lemma val_batches_append [simp]:
  "val_batches (tr @ tr') = val_batches tr @ val_batches tr'"
  by (induction tr rule: val_batches.induct) simp_all

lemma test_batches_append [simp]:
  "test_batches (tr @ tr') = test_batches tr @ test_batches tr'"
  by (induction tr rule: test_batches.induct) simp_all

lemma train_batches_map [simp]: "train_batches (map TrainBatch bs) = bs"
  by (induction bs) simp_all

lemma val_batches_map [simp]: "val_batches (map ValBatch bs) = bs"
  by (induction bs) simp_all

lemma test_batches_map [simp]: "test_batches (map TestBatch bs) = bs"
  by (induction bs) simp_all

lemma DataLoader_Inr:
  "DataLoader ds bs dl = Inr l \<Longrightarrow>
   0 < bs \<and> ds \<noteq> [] \<and> l = \<lparr>samples = ds, bsize = nat bs, drop_last = dl\<rparr>"
  by (auto simp: DataLoader_def split: if_splits)

lemma test_trace:
  assumes "test_loader_of env p = Inr tsl"
    and "fs (case sd of Some given \<Rightarrow> given | None \<Rightarrow> best_model_path) = Some m"
    and "test_loop env m (iterate (sampler env TestP 0) tsl)
           [Load (case sd of Some given \<Rightarrow> given | None \<Rightarrow> best_model_path)] [] [] = (tr, Inr (tt, tp))"
  shows "test_batches (fst (test env p sd fs)) = test_batches tr"
  using assms unfolding test_def
  by (simp add: Let_def split: sum.splits)

section \<open>The last partial batch\<close>

lemma length_sampler: "sampler_ok env \<Longrightarrow> length (sampler env part e xs) = length xs"
  unfolding sampler_ok_def by (metis size_mset)

lemma train_batch_batches:
  assumes "net_ok env C" "sampler_ok env" "labels_ok (samples trl) C" "\<not> dry_ryn p"
  shows "train_batches (trace (fst (train_batch env p trl e s)))
       = train_batches (trace s) @ iterate (sampler env TrainP e) trl"
proof -
  have "list_all (\<lambda>b. labels_ok b C) (iterate (sampler env TrainP e) trl)"
    using assms(2,3) by (rule labels_ok_iterate)
  from train_loop_ok [OF assms(1) this, of p "scheduler_step s" accum0]
  obtain s' a' where r: "train_loop env p (iterate (sampler env TrainP e) trl) (scheduler_step s) accum0
      = (s', Inr a')" by blast
  from train_loop_result [OF r] have "trace s' = trace (scheduler_step s)
      @ map TrainBatch (processed p (iterate (sampler env TrainP e) trl))" by blast
  then show ?thesis
    using r assms(4) unfolding train_batch_state
    by (simp add: processed_def scheduler_step_def emit_def Let_def)
qed

lemma val_loop_batches:
  assumes "net_ok env C" "sampler_ok env" "labels_ok (samples vl) C"
  shows "val_batches (trace (fst (val_loop env (iterate (sampler env ValidationP e) vl) s a)))
       = val_batches (trace s) @ iterate (sampler env ValidationP e) vl"
proof -
  have "list_all (\<lambda>b. labels_ok b C) (iterate (sampler env ValidationP e) vl)"
    using assms(2,3) by (rule labels_ok_iterate)
  from val_loop_ok [OF assms(1) this, of s a]
  obtain s' a' where r: "val_loop env (iterate (sampler env ValidationP e) vl) s a = (s', Inr a')"
    by blast
  from val_loop_result [OF r] show ?thesis using r by auto
qed

lemma test_batches_all:
  assumes "net_ok env C" "test_loader_of env p = Inr tsl"
    and "fs (case sd of Some given \<Rightarrow> given | None \<Rightarrow> best_model_path) = Some m"
  shows "test_batches (fst (test env p sd fs)) = iterate (sampler env TestP 0) tsl"
proof -
  from test_loop_ok [OF assms(1), of m "iterate (sampler env TestP 0) tsl"
      "[Load (case sd of Some given \<Rightarrow> given | None \<Rightarrow> best_model_path)]" "[]" "[]"]
  obtain tr tt tp where r: "test_loop env m (iterate (sampler env TestP 0) tsl)
           [Load (case sd of Some given \<Rightarrow> given | None \<Rightarrow> best_model_path)] [] [] = (tr, Inr (tt, tp))"
    by blast
  from test_loop_result [OF r] have "tr = [Load (case sd of Some given \<Rightarrow> given | None \<Rightarrow> best_model_path)]
      @ map TestBatch (iterate (sampler env TestP 0) tsl)" by blast
  then show ?thesis
    using test_trace [where fs = fs and sd = sd, OF assms(2,3) r] by simp
qed

text \<open>
  Claim C5. The training loader drops the last partial batch, the validation and the
  test loader keep it. When the size of the training set is not a multiple of the batch
  size, a training pass goes through the full batches only, each of the batch size, and
  leaves samples out; a validation pass and a test pass go through every sample, and
  when the size of their set is not a multiple of the test batch size, their last batch
  is the partial one.
\<close>

theorem last_partial_batch:
  assumes "net_ok env C" and "sampler_ok env"
    and "labels_ok (dataset_loader env TrainP) C"
    and "labels_ok (dataset_loader env ValidationP) C"
    and "train_loader_of env p = Inr trl"
    and "validation_loader_of env p = Inr vl"
    and "test_loader_of env p = Inr tsl"
    and "\<not> dry_ryn p"
    and "length (dataset_loader env TrainP) mod nat (batch_size p) \<noteq> 0"
    and "length (dataset_loader env ValidationP) mod nat (test_batch_size p) \<noteq> 0"
    and "length (dataset_loader env TestP) mod nat (test_batch_size p) \<noteq> 0"
    and "fs (case sd of Some given \<Rightarrow> given | None \<Rightarrow> best_model_path) = Some m"
  shows
    "train_batches (trace (fst (train_batch env p trl e s)))
       = train_batches (trace s)
         @ batches (nat (batch_size p)) True (sampler env TrainP e (dataset_loader env TrainP))
     \<and> list_all (\<lambda>b. length b = nat (batch_size p))
         (batches (nat (batch_size p)) True (sampler env TrainP e (dataset_loader env TrainP)))
     \<and> length (concat (batches (nat (batch_size p)) True
                         (sampler env TrainP e (dataset_loader env TrainP))))
         < length (dataset_loader env TrainP)
     \<and> val_batches (trace (fst (val_loop env (iterate (sampler env ValidationP e) vl) s a)))
       = val_batches (trace s)
         @ batches (nat (test_batch_size p)) False
             (sampler env ValidationP e (dataset_loader env ValidationP))
     \<and> mset (concat (batches (nat (test_batch_size p)) False
                       (sampler env ValidationP e (dataset_loader env ValidationP))))
         = mset (dataset_loader env ValidationP)
     \<and> batches (nat (test_batch_size p)) False
           (sampler env ValidationP e (dataset_loader env ValidationP))
         = batches (nat (test_batch_size p)) True
             (sampler env ValidationP e (dataset_loader env ValidationP))
           @ [drop (length (dataset_loader env ValidationP) div nat (test_batch_size p)
                      * nat (test_batch_size p))
                (sampler env ValidationP e (dataset_loader env ValidationP))]
     \<and> test_batches (fst (test env p sd fs))
         = batches (nat (test_batch_size p)) False
             (sampler env TestP 0 (dataset_loader env TestP))
     \<and> mset (concat (batches (nat (test_batch_size p)) False
                       (sampler env TestP 0 (dataset_loader env TestP))))
         = mset (dataset_loader env TestP)
     \<and> batches (nat (test_batch_size p)) False (sampler env TestP 0 (dataset_loader env TestP))
         = batches (nat (test_batch_size p)) True (sampler env TestP 0 (dataset_loader env TestP))
           @ [drop (length (dataset_loader env TestP) div nat (test_batch_size p)
                      * nat (test_batch_size p))
                (sampler env TestP 0 (dataset_loader env TestP))]"
proof -
  from assms(5) have trl: "0 < batch_size p"
      "trl = \<lparr>samples = dataset_loader env TrainP, bsize = nat (batch_size p), drop_last = True\<rparr>"
    using DataLoader_Inr unfolding train_loader_of_def by blast+
  from assms(6) have vl: "0 < test_batch_size p"
      "vl = \<lparr>samples = dataset_loader env ValidationP, bsize = nat (test_batch_size p),
             drop_last = False\<rparr>"
    using DataLoader_Inr unfolding validation_loader_of_def by blast+
  from assms(7) have tsl:
      "tsl = \<lparr>samples = dataset_loader env TestP, bsize = nat (test_batch_size p),
             drop_last = False\<rparr>"
    using DataLoader_Inr unfolding test_loader_of_def by blast
  have bs: "0 < nat (batch_size p)" and tbs: "0 < nat (test_batch_size p)"
    using trl(1) vl(1) by simp_all
  have len: "\<And>part ep. length (sampler env part ep (dataset_loader env part))
      = length (dataset_loader env part)"
    using assms(2) by (rule length_sampler)
  have ms: "\<And>part ep. mset (sampler env part ep (dataset_loader env part))
      = mset (dataset_loader env part)"
    using assms(2) by (simp add: sampler_ok_def)
  have 1: "train_batches (trace (fst (train_batch env p trl e s)))
       = train_batches (trace s)
         @ batches (nat (batch_size p)) True (sampler env TrainP e (dataset_loader env TrainP))"
    using train_batch_batches [OF assms(1,2) _ assms(8), of trl e s] assms(3)
    by (simp add: trl(2) iterate_def)
  have 2: "list_all (\<lambda>b. length b = nat (batch_size p))
         (batches (nat (batch_size p)) True (sampler env TrainP e (dataset_loader env TrainP)))"
    by (rule batches_drop_full)
  have "length (dataset_loader env TrainP) div nat (batch_size p) * nat (batch_size p)
      < length (dataset_loader env TrainP)"
    using assms(9) bs
    by (metis div_mult_mod_eq less_add_same_cancel1 neq0_conv)
  then have 3: "length (concat (batches (nat (batch_size p)) True
                         (sampler env TrainP e (dataset_loader env TrainP))))
         < length (dataset_loader env TrainP)"
    by (simp add: concat_batches_drop [OF bs] len)
  have 4: "val_batches (trace (fst (val_loop env (iterate (sampler env ValidationP e) vl) s a)))
       = val_batches (trace s)
         @ batches (nat (test_batch_size p)) False
             (sampler env ValidationP e (dataset_loader env ValidationP))"
    using val_loop_batches [OF assms(1,2), of vl e s a] assms(4)
    by (simp add: vl(2) iterate_def)
  have 5: "mset (concat (batches (nat (test_batch_size p)) False
                       (sampler env ValidationP e (dataset_loader env ValidationP))))
         = mset (dataset_loader env ValidationP)"
    by (simp add: concat_batches_keep [OF tbs] ms)
  have 6: "batches (nat (test_batch_size p)) False
           (sampler env ValidationP e (dataset_loader env ValidationP))
         = batches (nat (test_batch_size p)) True
             (sampler env ValidationP e (dataset_loader env ValidationP))
           @ [drop (length (dataset_loader env ValidationP) div nat (test_batch_size p)
                      * nat (test_batch_size p))
                (sampler env ValidationP e (dataset_loader env ValidationP))]"
    using batches_keep_eq [OF tbs, of "sampler env ValidationP e (dataset_loader env ValidationP)"]
      assms(10) by (simp add: len)
  have 7: "test_batches (fst (test env p sd fs))
         = batches (nat (test_batch_size p)) False
             (sampler env TestP 0 (dataset_loader env TestP))"
    using test_batches_all [where fs = fs and sd = sd, OF assms(1) assms(7) assms(12)]
    by (simp add: tsl iterate_def)
  have 8: "mset (concat (batches (nat (test_batch_size p)) False
                       (sampler env TestP 0 (dataset_loader env TestP))))
         = mset (dataset_loader env TestP)"
    by (simp add: concat_batches_keep [OF tbs] ms)
  have 9: "batches (nat (test_batch_size p)) False (sampler env TestP 0 (dataset_loader env TestP))
         = batches (nat (test_batch_size p)) True (sampler env TestP 0 (dataset_loader env TestP))
           @ [drop (length (dataset_loader env TestP) div nat (test_batch_size p)
                      * nat (test_batch_size p))
                (sampler env TestP 0 (dataset_loader env TestP))]"
    using batches_keep_eq [OF tbs, of "sampler env TestP 0 (dataset_loader env TestP)"]
      assms(11) by (simp add: len)
  from 1 2 3 4 5 6 7 8 9 show ?thesis by blast
qed

section \<open>The small run\<close>

lemma toy_net_ok: "net_ok toy_env 2"
  by (auto simp: net_ok_def toy_env_def wf_tensor_def list_all_iff)

lemma toy_sampler_ok: "sampler_ok toy_env"
  by (simp add: sampler_ok_def toy_env_def)

lemma toy_labels_ok: "labels_ok (dataset_loader toy_env part) 2"
  by (cases part) (simp_all add: labels_ok_def toy_env_def)

lemma toy_loaders:
  "train_loader_of toy_env (toy_params dry n)
     = Inr \<lparr>samples = dataset_loader toy_env TrainP, bsize = 2, drop_last = True\<rparr>"
  "validation_loader_of toy_env (toy_params dry n)
     = Inr \<lparr>samples = dataset_loader toy_env ValidationP, bsize = 3, drop_last = False\<rparr>"
  "test_loader_of toy_env (toy_params dry n)
     = Inr \<lparr>samples = dataset_loader toy_env TestP, bsize = 3, drop_last = False\<rparr>"
  by (simp_all add: train_loader_of_def validation_loader_of_def test_loader_of_def
      DataLoader_def toy_params_def toy_env_def)

lemma toy_batches:
  "batches 2 True (dataset_loader toy_env TrainP)
     = [[(0, 0), (1, 1)], [(2, 0), (3, 1)], [(4, 0), (5, 1)]]"
  "batches 3 False (dataset_loader toy_env ValidationP)
     = [[(7, 1), (8, 0), (9, 0)], [(10, 0), (11, 1)]]"
  "batches 3 False (dataset_loader toy_env TestP)
     = [[(12, 0), (13, 1), (14, 1)], [(15, 0), (16, 1)]]"
  by (simp_all add: toy_env_def batches.simps)

theorem last_partial_batch_witness:
  "net_ok toy_env 2 \<and> sampler_ok toy_env
   \<and> labels_ok (dataset_loader toy_env TrainP) 2
   \<and> labels_ok (dataset_loader toy_env ValidationP) 2
   \<and> \<not> dry_ryn (toy_params False 1)
   \<and> length (dataset_loader toy_env TrainP) mod nat (batch_size (toy_params False 1)) = 1
   \<and> length (dataset_loader toy_env ValidationP) mod nat (test_batch_size (toy_params False 1)) = 2
   \<and> length (dataset_loader toy_env TestP) mod nat (test_batch_size (toy_params False 1)) = 2
   \<and> train_batches (trace (fst (train_batch toy_env (toy_params False 1)
          \<lparr>samples = dataset_loader toy_env TrainP, bsize = 2, drop_last = True\<rparr> 0
          (init_state toy_env (toy_params False 1) Map.empty))))
       = [[(0, 0), (1, 1)], [(2, 0), (3, 1)], [(4, 0), (5, 1)]]
   \<and> val_batches (trace (fst (val_loop toy_env
          (iterate (sampler toy_env ValidationP 0)
             \<lparr>samples = dataset_loader toy_env ValidationP, bsize = 3, drop_last = False\<rparr>)
          (init_state toy_env (toy_params False 1) Map.empty) accum0)))
       = [[(7, 1), (8, 0), (9, 0)], [(10, 0), (11, 1)]]
   \<and> test_batches (fst (test toy_env (toy_params False 1) None [best_model_path \<mapsto> 0]))
       = [[(12, 0), (13, 1), (14, 1)], [(15, 0), (16, 1)]]"
proof -
  have s: "\<And>part e xs. sampler toy_env part e xs = xs" by (simp add: toy_env_def)
  have n: "length (dataset_loader toy_env TrainP) = 7"
    "length (dataset_loader toy_env ValidationP) = 5"
    "length (dataset_loader toy_env TestP) = 5"
    by (simp_all add: toy_env_def)
  have p: "batch_size (toy_params False 1) = 2" "test_batch_size (toy_params False 1) = 3"
    "\<not> dry_ryn (toy_params False 1)"
    by (simp_all add: toy_params_def)
  show ?thesis
    using last_partial_batch [OF toy_net_ok toy_sampler_ok toy_labels_ok toy_labels_ok
        toy_loaders(1) [of False 1] toy_loaders(2) [of False 1] toy_loaders(3) [of False 1],
        where sd = None and fs = "[best_model_path \<mapsto> 0]" and m = 0
          and e = 0 and s = "init_state toy_env (toy_params False 1) Map.empty"
          and a = accum0]
    by (simp add: s n p toy_batches toy_net_ok toy_sampler_ok toy_labels_ok init_state_def)
qed

section \<open>Dry runs\<close>

lemma train_loop_dry:
  assumes "dry_ryn p"
  shows "\<exists>o' m'. fst (train_loop env p bs s a)
       = s\<lparr>net := m', opt := o', trace := trace s @ map TrainBatch (take 1 bs)\<rparr>"
proof (cases bs)
  case Nil
  then have "fst (train_loop env p bs s a)
       = s\<lparr>net := net s, opt := opt s, trace := trace s @ map TrainBatch (take 1 bs)\<rparr>"
    by simp
  then show ?thesis by blast
next
  case (Cons b bs')
  define o' where "o' = fst (backward_step env (cur_lr s) (opt s) (net s) (map fst b) (map snd b))"
  define m' where "m' = snd (backward_step env (cur_lr s) (opt s) (net s) (map fst b) (map snd b))"
  have "fst (train_loop env p bs s a)
         = s\<lparr>net := net s, opt := opt s, trace := trace s @ map TrainBatch (take 1 bs)\<rparr>
       \<or> fst (train_loop env p bs s a)
         = s\<lparr>net := m', opt := o', trace := trace s @ map TrainBatch (take 1 bs)\<rparr>"
    using assms unfolding Cons train_loop_Cons
    by (simp add: emit_def o'_def m'_def split: sum.splits)
  then show ?thesis by blast
qed

lemma train_batch_dry:
  assumes "dry_ryn p"
  shows "\<exists>o' m'. fst (train_batch env p trl e s)
       = s\<lparr>net := m', opt := o', cur_lr := cur_lr (scheduler_step s),
            scheduler := scheduler (scheduler_step s),
            trace := trace s @ SchedulerStep
                       # map TrainBatch (take 1 (iterate (sampler env TrainP e) trl))\<rparr>"
proof -
  from train_loop_dry [OF assms, of env "iterate (sampler env TrainP e) trl" "scheduler_step s" accum0]
  obtain o' m' where
    eq: "fst (train_loop env p (iterate (sampler env TrainP e) trl) (scheduler_step s) accum0)
       = (scheduler_step s)\<lparr>net := m', opt := o',
            trace := trace (scheduler_step s) @ map TrainBatch (take 1 (iterate (sampler env TrainP e) trl))\<rparr>"
    by blast
  have "fst (train_batch env p trl e s)
       = s\<lparr>net := m', opt := o', cur_lr := cur_lr (scheduler_step s),
            scheduler := scheduler (scheduler_step s),
            trace := trace s @ SchedulerStep
                       # map TrainBatch (take 1 (iterate (sampler env TrainP e) trl))\<rparr>"
    unfolding train_batch_state eq by (simp add: scheduler_step_def emit_def Let_def)
  then show ?thesis by blast
qed

lemma epoch_loop_dry:
  assumes "dry_ryn p"
  shows "fst (epoch_loop env p trl vl (e # es) s) = fst (train_batch env p trl e s)"
  using epoch_body_dry [OF assms, of env trl vl e s]
  by (auto split: prod.splits sum.splits flow.splits)

lemma resume_frame:
  "resume p s = (s', r) \<Longrightarrow>
   (r = Inl FileNotFoundError \<and> s' = s)
   \<or> (r = Inr () \<and> (s' = s \<or> (\<exists>m. s' = s\<lparr>net := m, trace := trace s @ [Load (last_checkpoint p)]\<rparr>)))"
  by (auto simp: resume_def torch_load_def emit_def split: if_splits option.splits)

lemma filter_is_save_map [simp]:
  "filter is_save (map TrainBatch bs) = []" "filter is_save (map ValBatch bs) = []"
  by (induction bs) simp_all

lemma val_batches_map_TrainBatch [simp]: "val_batches (map TrainBatch bs) = []"
  by (induction bs) simp_all

lemma train_batches_map_ValBatch [simp]: "train_batches (map ValBatch bs) = []"
  by (induction bs) simp_all

lemma untouched_train_batch: "untouched s (fst (train_batch env p trl e s))"
proof -
  from train_batch_frame [of env e trl p s] obtain o' m' k where
    eq: "fst (train_batch env p trl e s)
       = s\<lparr>net := m', opt := o', cur_lr := cur_lr (scheduler_step s),
            scheduler := scheduler (scheduler_step s),
            trace := trace s @ SchedulerStep
                       # map TrainBatch (take k (iterate (sampler env TrainP e) trl))\<rparr>"
    by blast
  show ?thesis unfolding eq by (simp add: untouched_def)
qed

lemma untouched_resume: "untouched s (fst (resume p s))"
  using resume_frame [of p s "fst (resume p s)" "snd (resume p s)"]
  by (auto simp: untouched_def)

lemma untouched_trans: "untouched s s' \<Longrightarrow> untouched s' s'' \<Longrightarrow> untouched s s''"
  by (simp add: untouched_def)

lemma untouched_refl: "untouched s s"
  by (simp add: untouched_def)

lemma epoch_loop_dry_untouched:
  assumes "dry_ryn p"
  shows "untouched s (fst (epoch_loop env p trl vl es s))"
proof (cases es)
  case Nil
  then show ?thesis by (simp add: untouched_refl)
next
  case (Cons e es')
  then show ?thesis using epoch_loop_dry [OF assms] untouched_train_batch by metis
qed

lemma resume_ok:
  "last_checkpoint p = [] \<or> files s (last_checkpoint p) \<noteq> None \<Longrightarrow> snd (resume p s) = Inr ()"
  by (auto simp: resume_def torch_load_def split: option.splits if_splits)

lemma resume_trace:
  "snd (resume p s) = Inr () \<Longrightarrow>
   trace (fst (resume p s))
     = trace s @ (if last_checkpoint p \<noteq> [] then [Load (last_checkpoint p)] else [])"
  by (auto simp: resume_def torch_load_def emit_def split: option.splits if_splits)

lemma untouched_init:
  "files (init_state env p fs) = fs
   \<and> global_best_loss (init_state env p fs) = Fin 0
   \<and> global_best_acc (init_state env p fs) = Fin 0
   \<and> global_best_avg_acc (init_state env p fs) = Fin 0
   \<and> trace (init_state env p fs) = [LogModel (select_model p)]"
  by (simp add: init_state_def)

lemmas toy_eval = toy_env_def toy_params_def train_def train_loader_of_def validation_loader_of_def
  test_loader_of_def DataLoader_def resume_def init_state_def
  select_model_def CosineAnnealingLR_def epoch_body_def train_batch_def iterate_def
  scheduler_step_def emit_def get_lr_def accum0_def accumulate_def calculate_loss_def
  scatter1_def zeros_like_def t_map_def t_map2_def log_softmax_def log_softmax_row_def
  sum_dim1_def mean_def fsum_def fsub_def inf_of_sign_def squeeze_def max_dim1_indices_def
  exceeds_def np_concatenate_def py_truediv_def accuracy_score_def balanced_accuracy_score_def
  recall_def torch_save_def best_model_path_def Let_def batches.simps train_loop.simps
  val_loop.simps test_loop.simps

lemma toy_dry_returns: "snd (train toy_env (toy_params True 3) Map.empty) = Inr ()"
  by (simp add: toy_eval upt_rec [of _ "numeral _"])

section \<open>A completed epoch\<close>

lemma np_concatenate_Inr: "np_concatenate arrs = Inr ys \<Longrightarrow> ys = concat (map flat arrs)"
  by (auto simp: np_concatenate_def split: if_splits)

lemma eval_predictions_eq:
  "map (batch_preds env False m) bs = map Inr ps \<Longrightarrow> eval_predictions env m bs = concat (map flat ps)"
proof (induction bs arbitrary: ps)
  case Nil
  then show ?case by (simp add: eval_predictions_def)
next
  case (Cons b bs)
  then obtain q qs where ps: "ps = q # qs" by (cases ps) auto
  with Cons.prems have "batch_preds env False m b = Inr q"
    "map (batch_preds env False m) bs = map Inr qs" by simp_all
  with Cons.IH [of qs] show ?case by (simp add: eval_predictions_def ps)
qed

lemma epoch_completed:
  fixes env :: "('x, 'm, 'o) env"
  assumes "epoch_body env p trl vl e s = (s', Inr Continue)"
  shows "\<exists>evs tl ta tb vls vac.
     filter is_save evs = []
   \<and> trace s' = trace s @ evs
       @ [Csv e tl ta tb vls vac (val_bal_acc env vl e (net s')),
          Save (checkpoint_path p) (net s')]
       @ (if fgt (val_bal_acc env vl e (net s')) (global_best_avg_acc s)
          then [Save best_model_path (net s')] else [])
   \<and> files s' = (if fgt (val_bal_acc env vl e (net s')) (global_best_avg_acc s)
                 then ((files s)(checkpoint_path p \<mapsto> net s'))(best_model_path \<mapsto> net s')
                 else (files s)(checkpoint_path p \<mapsto> net s'))
   \<and> global_best_loss s' = (if fgt (val_bal_acc env vl e (net s')) (global_best_avg_acc s)
                            then vls else global_best_loss s)
   \<and> global_best_acc s' = (if fgt (val_bal_acc env vl e (net s')) (global_best_avg_acc s)
                           then vac else global_best_acc s)
   \<and> global_best_avg_acc s' = (if fgt (val_bal_acc env vl e (net s')) (global_best_avg_acc s)
                               then val_bal_acc env vl e (net s') else global_best_avg_acc s)
   \<and> \<not> dry_ryn p"
  using assms
proof (rule epoch_body_Continue)
  fix s1 train_loss train_true train_pred s2 a val_true val_pred val_loss
  assume tb: "train_batch env p trl e s = (s1, Inr (train_loss, train_true, train_pred))"
    and nd: "\<not> dry_ryn p"
    and vlp: "val_loop env (iterate (sampler env ValidationP e) vl) s1 accum0 = (s2, Inr a)"
    and ct: "np_concatenate (trues a) = Inr val_true"
    and cp: "np_concatenate (preds a) = Inr val_pred"
    and s': "s' = (let s4 = torch_save (checkpoint_path p)
                      (emit (Csv e train_loss (accuracy_score train_true train_pred)
                               (balanced_accuracy_score train_true train_pred) val_loss
                               (accuracy_score val_true val_pred)
                               (balanced_accuracy_score val_true val_pred)) s2)
           in if fgt (balanced_accuracy_score val_true val_pred) (global_best_avg_acc s4)
              then torch_save best_model_path
                     (s4\<lparr>global_best_loss := val_loss,
                         global_best_acc := accuracy_score val_true val_pred,
                         global_best_avg_acc := balanced_accuracy_score val_true val_pred\<rparr>)
              else s4)"
  define vbs where "vbs = iterate (sampler env ValidationP e) vl"
  from train_batch_frame [of env e trl p s] tb obtain o' m' k where
    s1: "s1 = s\<lparr>net := m', opt := o', cur_lr := cur_lr (scheduler_step s),
            scheduler := scheduler (scheduler_step s),
            trace := trace s @ SchedulerStep
                       # map TrainBatch (take k (iterate (sampler env TrainP e) trl))\<rparr>"
    by auto
  from val_loop_result [OF vlp] obtain ls ps where
    ps: "map (batch_preds env False (net s1)) vbs = map Inr ps"
    and tr: "trues a = map (\<lambda>b. squeeze (map snd b)) vbs"
    and pr: "preds a = ps"
    and s2: "s2 = s1\<lparr>trace := trace s1 @ map ValBatch vbs\<rparr>"
    by (auto simp: vbs_def accum0_def)
  have vt: "val_true = map snd (concat vbs)"
    using np_concatenate_Inr [OF ct] by (simp add: tr comp_def map_concat)
  have vp: "val_pred = eval_predictions env (net s1) vbs"
    using np_concatenate_Inr [OF cp] eval_predictions_eq [OF ps] by (simp add: pr)
  have net: "net s' = net s1"
    unfolding s' by (simp add: Let_def s2 torch_save_def emit_def)
  have vb: "balanced_accuracy_score val_true val_pred = val_bal_acc env vl e m'"
    by (simp add: val_bal_acc_def vt vp vbs_def s1)
  define evs :: "('x, 'm) event list" where "evs = SchedulerStep
      # map TrainBatch (take k (iterate (sampler env TrainP e) trl)) @ map ValBatch vbs"
  have 1: "filter is_save evs = []" by (simp add: evs_def)
  have 2: "trace s' = trace s @ evs
       @ [Csv e train_loss (accuracy_score train_true train_pred)
            (balanced_accuracy_score train_true train_pred) val_loss
            (accuracy_score val_true val_pred) (val_bal_acc env vl e (net s')),
          Save (checkpoint_path p) (net s')]
       @ (if fgt (val_bal_acc env vl e (net s')) (global_best_avg_acc s)
          then [Save best_model_path (net s')] else [])"
    unfolding s'
    by (simp add: Let_def s2 s1 torch_save_def emit_def evs_def vb)
  have 3: "files s' = (if fgt (val_bal_acc env vl e (net s')) (global_best_avg_acc s)
                 then ((files s)(checkpoint_path p \<mapsto> net s'))(best_model_path \<mapsto> net s')
                 else (files s)(checkpoint_path p \<mapsto> net s'))"
    unfolding s'
    by (simp add: Let_def s2 s1 torch_save_def emit_def vb)
  have 4: "global_best_loss s' = (if fgt (val_bal_acc env vl e (net s')) (global_best_avg_acc s)
                            then val_loss else global_best_loss s)"
    "global_best_acc s' = (if fgt (val_bal_acc env vl e (net s')) (global_best_avg_acc s)
                           then accuracy_score val_true val_pred else global_best_acc s)"
    "global_best_avg_acc s' = (if fgt (val_bal_acc env vl e (net s')) (global_best_avg_acc s)
                               then val_bal_acc env vl e (net s') else global_best_avg_acc s)"
    unfolding s'
    by (simp_all add: Let_def s2 s1 torch_save_def emit_def vb)
  from 1 2 3 4 nd show ?thesis by blast
qed

section \<open>The best model\<close>

lemma fgt_irrefl: "\<not> fgt a a"
  by (cases a) simp_all

lemma fgt_trans: "fgt a b \<Longrightarrow> fgt b c \<Longrightarrow> fgt a c"
  by (cases a; cases b; cases c) simp_all

lemma fge_refl: "fge a a"
  by (simp add: fge_def)

lemma fge_trans: "fge a b \<Longrightarrow> fge b c \<Longrightarrow> fge a c"
  unfolding fge_def using fgt_trans by blast

lemma nothing_saved_untouched: "untouched s s' \<Longrightarrow> nothing_saved s s'"
  by (simp add: untouched_def nothing_saved_def)

lemma epoch_not_completed:
  assumes "epoch_body env p trl vl e s = (s', r)" "r \<noteq> Inr Continue"
  shows "nothing_saved s s'"
proof -
  have s1: "nothing_saved s (fst (train_batch env p trl e s))"
    using untouched_train_batch by (rule nothing_saved_untouched)
  have s2: "nothing_saved s (fst (val_loop env bs (fst (train_batch env p trl e s)) a))" for bs a
  proof -
    from val_loop_frame [of bs env "fst (train_batch env p trl e s)" a] obtain k where
      "fst (val_loop env bs (fst (train_batch env p trl e s)) a)
        = (fst (train_batch env p trl e s))\<lparr>trace := trace (fst (train_batch env p trl e s))
             @ map ValBatch (take k bs)\<rparr>" by blast
    then show ?thesis using s1 by (simp add: nothing_saved_def)
  qed
  show ?thesis
  proof (cases r)
    case (Inl err)
    with assms(1) epoch_body_Inl [of env p trl vl e s s' err] s1 s2 show ?thesis by auto
  next
    case (Inr fl)
    with assms(2) have "fl = Break" by (cases fl) simp_all
    with Inr assms(1) epoch_body_Break [of env p trl vl e s s'] s1 show ?thesis by auto
  qed
qed

lemma epoch_best_monotone:
  "fge (global_best_avg_acc (fst (epoch_body env p trl vl e s))) (global_best_avg_acc s)"
proof -
  obtain s' r where eb: "epoch_body env p trl vl e s = (s', r)"
    by (cases "epoch_body env p trl vl e s")
  have "fge (global_best_avg_acc s') (global_best_avg_acc s)"
  proof (cases "r = Inr Continue")
    case True
    with eb epoch_completed [of env p trl vl e s s'] show ?thesis
      by (auto simp: fge_def)
  next
    case False
    with eb epoch_not_completed [of env p trl vl e s s' r] show ?thesis
      by (simp add: nothing_saved_def fge_def)
  qed
  with eb show ?thesis by simp
qed

lemma epoch_loop_best_monotone:
  "fge (global_best_avg_acc (fst (epoch_loop env p trl vl es s))) (global_best_avg_acc s)"
proof (induction es arbitrary: s)
  case Nil
  then show ?case by (simp add: fge_refl)
next
  case (Cons e es)
  obtain s' r where eb: "epoch_body env p trl vl e s = (s', r)"
    by (cases "epoch_body env p trl vl e s")
  have 1: "fge (global_best_avg_acc s') (global_best_avg_acc s)"
    using epoch_best_monotone [of env p trl vl e s] eb by simp
  show ?case
  proof (cases "r = Inr Continue")
    case True
    with eb have "epoch_loop env p trl vl (e # es) s = epoch_loop env p trl vl es s'" by simp
    with Cons.IH [of s'] 1 show ?thesis by (metis fge_trans)
  next
    case False
    with eb have "fst (epoch_loop env p trl vl (e # es) s) = s'"
      by (auto split: sum.splits flow.splits)
    with 1 show ?thesis by simp
  qed
qed

lemma train_best_monotone: "fge (global_best_avg_acc (fst (train env p fs))) (Fin 0)"
proof -
  have i: "global_best_avg_acc (init_state env p fs) = Fin 0" by (simp add: init_state_def)
  have r: "global_best_avg_acc (fst (resume p (init_state env p fs))) = Fin 0"
    using untouched_resume [of "init_state env p fs" p] i by (simp add: untouched_def)
  show ?thesis
  proof (cases rule: train_cases [of env p fs])
    case (loader_error e)
    then show ?thesis using i by (simp add: fge_def)
  next
    case (resume_error trl vl s0 e)
    then show ?thesis using r by (simp add: fge_def)
  next
    case (loop_error trl vl s0 s1 e)
    then show ?thesis
      using r epoch_loop_best_monotone [of env p trl vl "[0..<nat (epochs p)]" s0] by simp
  next
    case (finished trl vl s0 s1)
    then show ?thesis
      using r epoch_loop_best_monotone [of env p trl vl "[0..<nat (epochs p)]" s0]
      by (simp add: emit_def)
  qed
qed

lemma saves_to_is_save: "saves_to path ev \<Longrightarrow> is_save ev"
  by (cases ev) simp_all

lemma filter_saves_to_empty: "filter is_save evs = [] \<Longrightarrow> filter (saves_to path) evs = []"
  by (auto simp: filter_empty_conv dest: saves_to_is_save)

lemma filter_saves_to_same:
  "filter is_save tr' = filter is_save tr \<Longrightarrow> filter (saves_to path) tr' = filter (saves_to path) tr"
proof -
  assume a: "filter is_save tr' = filter is_save tr"
  have "filter (saves_to path) xs = filter (saves_to path) (filter is_save xs)" for xs :: "('a, 'b) event list"
    by (induction xs) (auto dest: saves_to_is_save)
  then show ?thesis using a by metis
qed

text \<open>
  Claim C1. In an epoch that completes, with \<open>V\<close> the validation balanced accuracy of
  the epoch (the last column of its metrics row) and \<open>G\<close> the stored best one: if \<open>V > G\<close>
  the three best values become the validation columns of the row and the best checkpoint
  is overwritten with the current model; otherwise, and so on a tie, the three values and
  the best checkpoint stay as they were and nothing is saved to the best path. An epoch
  that does not complete changes neither. So the stored best balanced accuracy never
  decreases over any sequence of epochs, and a run, which starts from 0, ends with a
  stored value that is 0 or greater.
\<close>

theorem best_state_strict_improvement:
  assumes "checkpoint_path p \<noteq> best_model_path"
  shows
    "(epoch_body env p trl vl e s = (s', Inr Continue) \<longrightarrow>
        (\<exists>tl ta tb vls vac.
           Csv e tl ta tb vls vac (val_bal_acc env vl e (net s')) \<in> set (trace s')
         \<and> (fgt (val_bal_acc env vl e (net s')) (global_best_avg_acc s) \<longrightarrow>
              global_best_loss s' = vls \<and> global_best_acc s' = vac
            \<and> global_best_avg_acc s' = val_bal_acc env vl e (net s')
            \<and> files s' best_model_path = Some (net s')
            \<and> filter (saves_to best_model_path) (trace s')
                = filter (saves_to best_model_path) (trace s) @ [Save best_model_path (net s')]))
      \<and> (\<not> fgt (val_bal_acc env vl e (net s')) (global_best_avg_acc s) \<longrightarrow>
              global_best_loss s' = global_best_loss s \<and> global_best_acc s' = global_best_acc s
            \<and> global_best_avg_acc s' = global_best_avg_acc s
            \<and> files s' best_model_path = files s best_model_path
            \<and> filter (saves_to best_model_path) (trace s')
                = filter (saves_to best_model_path) (trace s))
      \<and> (val_bal_acc env vl e (net s') = global_best_avg_acc s \<longrightarrow>
              \<not> fgt (val_bal_acc env vl e (net s')) (global_best_avg_acc s)))
   \<and> (epoch_body env p trl vl e s = (s', r) \<and> r \<noteq> Inr Continue \<longrightarrow>
          global_best_loss s' = global_best_loss s \<and> global_best_acc s' = global_best_acc s
        \<and> global_best_avg_acc s' = global_best_avg_acc s
        \<and> files s' = files s
        \<and> filter (saves_to best_model_path) (trace s')
            = filter (saves_to best_model_path) (trace s))
   \<and> fge (global_best_avg_acc (fst (epoch_loop env p trl vl es s))) (global_best_avg_acc s)
   \<and> global_best_avg_acc (init_state env p fs) = Fin 0
   \<and> fge (global_best_avg_acc (fst (train env p fs))) (Fin 0)"
proof (intro conjI impI)
  assume eb: "epoch_body env p trl vl e s = (s', Inr Continue)"
  from epoch_completed [OF eb] obtain evs tl ta tb vls vac where
    sv: "filter is_save evs = []"
    and tr: "trace s' = trace s @ evs
       @ [Csv e tl ta tb vls vac (val_bal_acc env vl e (net s')),
          Save (checkpoint_path p) (net s')]
       @ (if fgt (val_bal_acc env vl e (net s')) (global_best_avg_acc s)
          then [Save best_model_path (net s')] else [])"
    and fl: "files s' = (if fgt (val_bal_acc env vl e (net s')) (global_best_avg_acc s)
                 then ((files s)(checkpoint_path p \<mapsto> net s'))(best_model_path \<mapsto> net s')
                 else (files s)(checkpoint_path p \<mapsto> net s'))"
    and bl: "global_best_loss s' = (if fgt (val_bal_acc env vl e (net s')) (global_best_avg_acc s)
                            then vls else global_best_loss s)"
    and ba: "global_best_acc s' = (if fgt (val_bal_acc env vl e (net s')) (global_best_avg_acc s)
                           then vac else global_best_acc s)"
    and bv: "global_best_avg_acc s' = (if fgt (val_bal_acc env vl e (net s')) (global_best_avg_acc s)
                               then val_bal_acc env vl e (net s') else global_best_avg_acc s)"
    by blast
  have sb: "filter (saves_to best_model_path) evs = []"
    using sv by (rule filter_saves_to_empty)
  have "Csv e tl ta tb vls vac (val_bal_acc env vl e (net s')) \<in> set (trace s')
         \<and> (fgt (val_bal_acc env vl e (net s')) (global_best_avg_acc s) \<longrightarrow>
              global_best_loss s' = vls \<and> global_best_acc s' = vac
            \<and> global_best_avg_acc s' = val_bal_acc env vl e (net s')
            \<and> files s' best_model_path = Some (net s')
            \<and> filter (saves_to best_model_path) (trace s')
                = filter (saves_to best_model_path) (trace s) @ [Save best_model_path (net s')])"
    using assms by (simp add: tr fl bl ba bv sb)
  then show "\<exists>tl ta tb vls vac.
           Csv e tl ta tb vls vac (val_bal_acc env vl e (net s')) \<in> set (trace s')
         \<and> (fgt (val_bal_acc env vl e (net s')) (global_best_avg_acc s) \<longrightarrow>
              global_best_loss s' = vls \<and> global_best_acc s' = vac
            \<and> global_best_avg_acc s' = val_bal_acc env vl e (net s')
            \<and> files s' best_model_path = Some (net s')
            \<and> filter (saves_to best_model_path) (trace s')
                = filter (saves_to best_model_path) (trace s) @ [Save best_model_path (net s')])"
    by blast
  assume nf: "\<not> fgt (val_bal_acc env vl e (net s')) (global_best_avg_acc s)"
  show "global_best_loss s' = global_best_loss s" using nf by (simp add: bl)
  show "global_best_acc s' = global_best_acc s" using nf by (simp add: ba)
  show "global_best_avg_acc s' = global_best_avg_acc s" using nf by (simp add: bv)
  show "files s' best_model_path = files s best_model_path"
    using nf assms by (simp add: fl)
  show "filter (saves_to best_model_path) (trace s') = filter (saves_to best_model_path) (trace s)"
    using nf assms by (simp add: tr sb)
next
  assume "val_bal_acc env vl e (net s') = global_best_avg_acc s"
  then show "\<not> fgt (val_bal_acc env vl e (net s')) (global_best_avg_acc s)"
    by (simp add: fgt_irrefl)
next
  assume a: "epoch_body env p trl vl e s = (s', r) \<and> r \<noteq> Inr Continue"
  then have n: "nothing_saved s s'" using epoch_not_completed by blast
  show "global_best_loss s' = global_best_loss s" "global_best_acc s' = global_best_acc s"
    "global_best_avg_acc s' = global_best_avg_acc s" "files s' = files s"
    using n by (simp_all add: nothing_saved_def)
  show "filter (saves_to best_model_path) (trace s') = filter (saves_to best_model_path) (trace s)"
    using n by (intro filter_saves_to_same) (simp add: nothing_saved_def)
next
  show "fge (global_best_avg_acc (fst (epoch_loop env p trl vl es s))) (global_best_avg_acc s)"
    by (rule epoch_loop_best_monotone)
  show "global_best_avg_acc (init_state env p fs) = Fin 0" by (simp add: init_state_def)
  show "fge (global_best_avg_acc (fst (train env p fs))) (Fin 0)"
    by (rule train_best_monotone)
qed

lemma toy_epoch0_completes:
  "snd (epoch_body toy_env (toy_params False 3)
          \<lparr>samples = dataset_loader toy_env TrainP, bsize = 2, drop_last = True\<rparr>
          \<lparr>samples = dataset_loader toy_env ValidationP, bsize = 3, drop_last = False\<rparr>
          0 (init_state toy_env (toy_params False 3) Map.empty)) = Inr Continue"
  by (simp add: toy_eval)

lemma toy_epoch0_net:
  "net (fst (epoch_body toy_env (toy_params False 3)
          \<lparr>samples = dataset_loader toy_env TrainP, bsize = 2, drop_last = True\<rparr>
          \<lparr>samples = dataset_loader toy_env ValidationP, bsize = 3, drop_last = False\<rparr>
          0 (init_state toy_env (toy_params False 3) Map.empty))) = 3"
  by (simp add: toy_eval)

lemma toy_val_bal_acc:
  "val_bal_acc toy_env
     \<lparr>samples = dataset_loader toy_env ValidationP, bsize = 3, drop_last = False\<rparr> 0 3
   = Fin (1 / 6)"
  by (simp add: val_bal_acc_def eval_predictions_def batch_preds_def toy_eval)

theorem best_state_strict_improvement_witness:
  "checkpoint_path (toy_params False 3) \<noteq> best_model_path
   \<and> snd (epoch_body toy_env (toy_params False 3)
          \<lparr>samples = dataset_loader toy_env TrainP, bsize = 2, drop_last = True\<rparr>
          \<lparr>samples = dataset_loader toy_env ValidationP, bsize = 3, drop_last = False\<rparr>
          0 (init_state toy_env (toy_params False 3) Map.empty)) = Inr Continue
   \<and> fgt (Fin (1 / 6)) (global_best_avg_acc (init_state toy_env (toy_params False 3) Map.empty))
   \<and> global_best_avg_acc (fst (epoch_body toy_env (toy_params False 3)
          \<lparr>samples = dataset_loader toy_env TrainP, bsize = 2, drop_last = True\<rparr>
          \<lparr>samples = dataset_loader toy_env ValidationP, bsize = 3, drop_last = False\<rparr>
          0 (init_state toy_env (toy_params False 3) Map.empty))) = Fin (1 / 6)
   \<and> files (fst (epoch_body toy_env (toy_params False 3)
          \<lparr>samples = dataset_loader toy_env TrainP, bsize = 2, drop_last = True\<rparr>
          \<lparr>samples = dataset_loader toy_env ValidationP, bsize = 3, drop_last = False\<rparr>
          0 (init_state toy_env (toy_params False 3) Map.empty))) best_model_path = Some 3
   \<and> filter (saves_to best_model_path) (trace (fst (epoch_body toy_env (toy_params False 3)
          \<lparr>samples = dataset_loader toy_env TrainP, bsize = 2, drop_last = True\<rparr>
          \<lparr>samples = dataset_loader toy_env ValidationP, bsize = 3, drop_last = False\<rparr>
          0 (init_state toy_env (toy_params False 3) Map.empty))))
       = [Save best_model_path 3]"
proof -
  define s0 where "s0 = init_state toy_env (toy_params False 3) Map.empty"
  define s1 where "s1 = fst (epoch_body toy_env (toy_params False 3)
          \<lparr>samples = dataset_loader toy_env TrainP, bsize = 2, drop_last = True\<rparr>
          \<lparr>samples = dataset_loader toy_env ValidationP, bsize = 3, drop_last = False\<rparr> 0 s0)"
  have c: "checkpoint_path (toy_params False 3) \<noteq> best_model_path"
    by (simp add: toy_params_def best_model_path_def)
  have e: "epoch_body toy_env (toy_params False 3)
          \<lparr>samples = dataset_loader toy_env TrainP, bsize = 2, drop_last = True\<rparr>
          \<lparr>samples = dataset_loader toy_env ValidationP, bsize = 3, drop_last = False\<rparr> 0 s0
        = (s1, Inr Continue)"
    using toy_epoch0_completes by (simp add: s0_def s1_def prod_eq_iff)
  have n: "net s1 = 3" using toy_epoch0_net by (simp add: s0_def s1_def)
  have i: "global_best_avg_acc s0 = Fin 0" "trace s0 = [LogModel DGCNN]"
    by (simp_all add: s0_def init_state_def toy_params_def select_model_def)
  show ?thesis
    using best_state_strict_improvement [OF c, of toy_env
        "\<lparr>samples = dataset_loader toy_env TrainP, bsize = 2, drop_last = True\<rparr>"
        "\<lparr>samples = dataset_loader toy_env ValidationP, bsize = 3, drop_last = False\<rparr>"
        0 s0 s1 "Inr Continue" "[]" Map.empty]
    unfolding s0_def [symmetric] s1_def [symmetric]
    by (auto simp: c e n i toy_val_bal_acc toy_epoch0_completes s0_def [symmetric])
qed

section \<open>The loss and the label sequences of a pass\<close>

lemma fmul_one: "fmul a (Fin 1) = a"
  by (cases a) (simp_all add: inf_of_sign_def)

lemma count_total:
  "foldl fadd (Fin c) (map (\<lambda>b. Fin (real (length b))) bs) = Fin (c + real (length (concat bs)))"
  by (induction bs arbitrary: c) (simp_all add: add.assoc)

lemma py_truediv_Inr: "py_truediv a (Fin n) = Inr r \<Longrightarrow> n \<noteq> 0 \<and> r = fdiv a (Fin n)"
  by (auto simp: py_truediv_def split: if_splits)

lemma np_concatenate_nonempty: "np_concatenate arrs = Inr ys \<Longrightarrow> arrs \<noteq> []"
  by (auto simp: np_concatenate_def split: if_splits)

lemma train_batch_result:
  assumes "train_batch env p trl e s = (s', Inr (loss, yt, yp))"
  shows "\<exists>ls ps.
      map2 (\<lambda>om b. batch_loss env True (snd om) b)
        (train_states env (cur_lr (scheduler_step s)) (opt s, net s)
           (processed p (iterate (sampler env TrainP e) trl)))
        (processed p (iterate (sampler env TrainP e) trl)) = map Inr ls
    \<and> map2 (\<lambda>om b. batch_preds env True (snd om) b)
        (train_states env (cur_lr (scheduler_step s)) (opt s, net s)
           (processed p (iterate (sampler env TrainP e) trl)))
        (processed p (iterate (sampler env TrainP e) trl)) = map Inr ps
    \<and> processed p (iterate (sampler env TrainP e) trl) \<noteq> []
    \<and> loss = weighted_mean ls (processed p (iterate (sampler env TrainP e) trl))
    \<and> yt = concat (map (map snd) (processed p (iterate (sampler env TrainP e) trl)))
    \<and> yp = concat (map flat ps)"
proof -
  define bs where "bs = processed p (iterate (sampler env TrainP e) trl)"
  from assms obtain a where
    tl: "train_loop env p (iterate (sampler env TrainP e) trl) (scheduler_step s) accum0 = (s', Inr a)"
    and ct: "np_concatenate (trues a) = Inr yt"
    and cp: "np_concatenate (preds a) = Inr yp"
    and dv: "py_truediv (fmul (loss_sum a) (Fin 1)) (count a) = Inr loss"
    unfolding train_batch_def by (auto split: prod.splits sum.splits)
  have st: "opt (scheduler_step s) = opt s" "net (scheduler_step s) = net s"
    by (simp_all add: scheduler_step_def emit_def Let_def)
  from train_loop_result [OF tl] obtain ls ps where
    l: "map2 (\<lambda>om b. batch_loss env True (snd om) b)
         (train_states env (cur_lr (scheduler_step s)) (opt s, net s) bs) bs = map Inr ls"
    and q: "map2 (\<lambda>om b. batch_preds env True (snd om) b)
         (train_states env (cur_lr (scheduler_step s)) (opt s, net s) bs) bs = map Inr ps"
    and ls: "loss_sum a = foldl fadd (loss_sum accum0)
                       (map2 (\<lambda>l b. fmul l (Fin (real (length b)))) ls bs)"
    and cn: "count a = foldl fadd (count accum0) (map (\<lambda>b. Fin (real (length b))) bs)"
    and tr: "trues a = trues accum0 @ map (\<lambda>b. squeeze (map snd b)) bs"
    and pr: "preds a = preds accum0 @ ps"
    unfolding bs_def st by blast
  have cn': "count a = Fin (real (length (concat bs)))"
    using cn count_total [of 0 bs] by (simp add: accum0_def)
  have ls': "loss_sum a = fsum (map2 (\<lambda>l b. fmul l (Fin (real (length b)))) ls bs)"
    using ls by (simp add: accum0_def fsum_def)
  have "loss = weighted_mean ls bs"
    using py_truediv_Inr [of "fmul (loss_sum a) (Fin 1)" "real (length (concat bs))" loss] dv
    by (simp add: cn' ls' fmul_one weighted_mean_def)
  moreover have "bs \<noteq> []"
    using np_concatenate_nonempty [OF ct] by (simp add: tr accum0_def)
  moreover have "yt = concat (map (map snd) bs)"
    using np_concatenate_Inr [OF ct] by (simp add: tr accum0_def comp_def)
  moreover have "yp = concat (map flat ps)"
    using np_concatenate_Inr [OF cp] by (simp add: pr accum0_def)
  ultimately show ?thesis using l q unfolding bs_def by blast
qed

lemma validation_result:
  assumes "val_loop env bs s accum0 = (s', Inr a)"
    and "np_concatenate (trues a) = Inr yt"
    and "np_concatenate (preds a) = Inr yp"
    and "py_truediv (fmul (loss_sum a) (Fin 1)) (count a) = Inr loss"
  shows "\<exists>ls ps.
      map (batch_loss env False (net s)) bs = map Inr ls
    \<and> map (batch_preds env False (net s)) bs = map Inr ps
    \<and> bs \<noteq> []
    \<and> loss = weighted_mean ls bs
    \<and> yt = concat (map (map snd) bs)
    \<and> yp = concat (map flat ps)"
proof -
  from val_loop_result [OF assms(1)] obtain ls ps where
    l: "map (batch_loss env False (net s)) bs = map Inr ls"
    and q: "map (batch_preds env False (net s)) bs = map Inr ps"
    and ls: "loss_sum a = foldl fadd (loss_sum accum0)
                       (map2 (\<lambda>l b. fmul l (Fin (real (length b)))) ls bs)"
    and cn: "count a = foldl fadd (count accum0) (map (\<lambda>b. Fin (real (length b))) bs)"
    and tr: "trues a = trues accum0 @ map (\<lambda>b. squeeze (map snd b)) bs"
    and pr: "preds a = preds accum0 @ ps"
    by blast
  have cn': "count a = Fin (real (length (concat bs)))"
    using cn count_total [of 0 bs] by (simp add: accum0_def)
  have ls': "loss_sum a = fsum (map2 (\<lambda>l b. fmul l (Fin (real (length b)))) ls bs)"
    using ls by (simp add: accum0_def fsum_def)
  have "loss = weighted_mean ls bs"
    using py_truediv_Inr [of "fmul (loss_sum a) (Fin 1)" "real (length (concat bs))" loss] assms(4)
    by (simp add: cn' ls' fmul_one weighted_mean_def)
  moreover have "bs \<noteq> []"
    using np_concatenate_nonempty [OF assms(2)] by (simp add: tr accum0_def)
  moreover have "yt = concat (map (map snd) bs)"
    using np_concatenate_Inr [OF assms(2)] by (simp add: tr accum0_def comp_def)
  moreover have "yp = concat (map flat ps)"
    using np_concatenate_Inr [OF assms(3)] by (simp add: pr accum0_def)
  ultimately show ?thesis using l q by blast
qed

section \<open>Passes that return\<close>

lemma is_arr0_squeeze: "is_arr0 (squeeze ls) = (length ls = 1)"
  by (cases ls rule: list.exhaust; cases "tl ls") (auto simp: squeeze_def split: list.splits)

lemma np_concatenate_ok:
  "arrs \<noteq> [] \<Longrightarrow> list_all (\<lambda>a. \<not> is_arr0 a) arrs \<Longrightarrow>
   np_concatenate arrs = Inr (concat (map flat arrs))"
  by (auto simp: np_concatenate_def list_all_iff list_ex_iff)

lemma batch_preds_not_arr0: "batch_preds env mode m b = Inr q \<Longrightarrow> \<not> is_arr0 q"
  unfolding batch_preds_def using max_dim1_indices_Arr1 by fastforce

lemma map_Inr_not_arr0:
  "map f xs = map Inr ps \<Longrightarrow> (\<And>x q. f x = Inr q \<Longrightarrow> \<not> is_arr0 q) \<Longrightarrow>
   list_all (\<lambda>q. \<not> is_arr0 q) ps \<and> length ps = length xs"
proof (induction xs arbitrary: ps)
  case Nil
  then show ?case by simp
next
  case (Cons x xs)
  then obtain q qs where ps: "ps = q # qs" by (cases ps) auto
  with Cons.prems(1) have "f x = Inr q" "map f xs = map Inr qs" by simp_all
  with Cons.IH [of qs] Cons.prems(2) show ?case by (simp add: ps)
qed

lemma length_train_states [simp]: "length (train_states env r om bs) = length bs"
  by (induction bs arbitrary: om) simp_all

lemma pass_accum_ok:
  assumes "bs \<noteq> []" "list_all (\<lambda>b. length b \<noteq> 1) bs" "list_all (\<lambda>b. b \<noteq> []) bs"
    and "trues a = map (\<lambda>b. squeeze (map snd b)) bs"
    and "length (preds a) = length bs" "list_all (\<lambda>q. \<not> is_arr0 q) (preds a)"
    and "count a = Fin (real (length (concat bs)))"
  shows "\<exists>yt yp loss. np_concatenate (trues a) = Inr yt \<and> np_concatenate (preds a) = Inr yp
    \<and> py_truediv (fmul (loss_sum a) (Fin 1)) (count a) = Inr loss"
proof -
  have "list_all (\<lambda>a. \<not> is_arr0 a) (trues a)"
    using assms(2) by (simp add: assms(4) list_all_iff is_arr0_squeeze)
  moreover have "trues a \<noteq> []" using assms(1) by (simp add: assms(4))
  ultimately have 1: "np_concatenate (trues a) = Inr (concat (map flat (trues a)))"
    by (intro np_concatenate_ok)
  have "preds a \<noteq> []" using assms(1,5) by auto
  then have 2: "np_concatenate (preds a) = Inr (concat (map flat (preds a)))"
    using assms(6) by (intro np_concatenate_ok)
  obtain b bs' where bs: "bs = b # bs'" using assms(1) by (cases bs) auto
  with assms(3) have "b \<noteq> []" by simp
  then have "length (concat bs) \<noteq> 0" by (simp add: bs)
  then have 3: "py_truediv (fmul (loss_sum a) (Fin 1)) (count a)
      = Inr (fdiv (fmul (loss_sum a) (Fin 1)) (count a))"
    by (simp add: py_truediv_def assms(7))
  from 1 2 3 show ?thesis by blast
qed

lemma processed_props:
  assumes "bs \<noteq> []" "list_all P bs"
  shows "processed p bs \<noteq> [] \<and> list_all P (processed p bs)"
  using assms by (cases bs) (auto simp: processed_def)

lemma iterate_nonempty_batches: "list_all (\<lambda>b. b \<noteq> []) (iterate sh l)"
  unfolding iterate_def by (rule batches_nonempty)

lemma train_batch_returns:
  assumes "net_ok env C" "sampler_ok env" "labels_ok (samples trl) C"
    and "iterate (sampler env TrainP e) trl \<noteq> []"
    and "list_all (\<lambda>b. length b \<noteq> 1) (iterate (sampler env TrainP e) trl)"
  shows "\<exists>loss yt yp. snd (train_batch env p trl e s) = Inr (loss, yt, yp)"
proof -
  define bs0 where "bs0 = iterate (sampler env TrainP e) trl"
  define bs where "bs = processed p bs0"
  have lab: "list_all (\<lambda>b. labels_ok b C) bs0"
    unfolding bs0_def using assms(2,3) by (rule labels_ok_iterate)
  from train_loop_ok [OF assms(1) lab, of p "scheduler_step s" accum0]
  obtain s' a where tl: "train_loop env p bs0 (scheduler_step s) accum0 = (s', Inr a)" by blast
  from train_loop_result [OF tl] obtain ls ps where
    q: "map2 (\<lambda>om b. batch_preds env True (snd om) b)
         (train_states env (cur_lr (scheduler_step s))
            (opt (scheduler_step s), net (scheduler_step s)) bs) bs = map Inr ps"
    and cn: "count a = foldl fadd (count accum0) (map (\<lambda>b. Fin (real (length b))) bs)"
    and tr: "trues a = trues accum0 @ map (\<lambda>b. squeeze (map snd b)) bs"
    and pr: "preds a = preds accum0 @ ps"
    unfolding bs_def by blast
  have p1: "bs \<noteq> []" "list_all (\<lambda>b. length b \<noteq> 1) bs" "list_all (\<lambda>b. b \<noteq> []) bs"
    using processed_props [OF assms(4)] assms(5) iterate_nonempty_batches [of "sampler env TrainP e" trl]
    unfolding bs_def bs0_def by blast+
  have "list_all (\<lambda>q. \<not> is_arr0 q) ps \<and> length ps
      = length (zip (train_states env (cur_lr (scheduler_step s))
            (opt (scheduler_step s), net (scheduler_step s)) bs) bs)"
    using q by (rule map_Inr_not_arr0) (auto dest: batch_preds_not_arr0)
  then have p2: "length (preds a) = length bs" "list_all (\<lambda>q. \<not> is_arr0 q) (preds a)"
    by (simp_all add: pr accum0_def)
  have p3: "count a = Fin (real (length (concat bs)))"
    using cn count_total [of 0 bs] by (simp add: accum0_def)
  have p4: "trues a = map (\<lambda>b. squeeze (map snd b)) bs" by (simp add: tr accum0_def)
  from pass_accum_ok [OF p1 p4 p2 p3] obtain yt yp loss where
    "np_concatenate (trues a) = Inr yt" "np_concatenate (preds a) = Inr yp"
    "py_truediv (fmul (loss_sum a) (Fin 1)) (count a) = Inr loss" by blast
  then have "snd (train_batch env p trl e s) = Inr (loss, yt, yp)"
    using tl unfolding train_batch_def bs0_def by simp
  then show ?thesis by blast
qed

lemma validation_returns:
  assumes "net_ok env C" "sampler_ok env" "labels_ok (samples vl) C"
    and "iterate (sampler env ValidationP e) vl \<noteq> []"
    and "list_all (\<lambda>b. length b \<noteq> 1) (iterate (sampler env ValidationP e) vl)"
  shows "\<exists>s' a yt yp loss.
      val_loop env (iterate (sampler env ValidationP e) vl) s accum0 = (s', Inr a)
    \<and> np_concatenate (trues a) = Inr yt \<and> np_concatenate (preds a) = Inr yp
    \<and> py_truediv (fmul (loss_sum a) (Fin 1)) (count a) = Inr loss"
proof -
  define bs where "bs = iterate (sampler env ValidationP e) vl"
  have lab: "list_all (\<lambda>b. labels_ok b C) bs"
    unfolding bs_def using assms(2,3) by (rule labels_ok_iterate)
  from val_loop_ok [OF assms(1) lab, of s accum0]
  obtain s' a where tl: "val_loop env bs s accum0 = (s', Inr a)" by blast
  from val_loop_result [OF tl] obtain ls ps where
    q: "map (batch_preds env False (net s)) bs = map Inr ps"
    and cn: "count a = foldl fadd (count accum0) (map (\<lambda>b. Fin (real (length b))) bs)"
    and tr: "trues a = trues accum0 @ map (\<lambda>b. squeeze (map snd b)) bs"
    and pr: "preds a = preds accum0 @ ps"
    by blast
  have p1: "bs \<noteq> []" "list_all (\<lambda>b. length b \<noteq> 1) bs" "list_all (\<lambda>b. b \<noteq> []) bs"
    using assms(4,5) iterate_nonempty_batches [of "sampler env ValidationP e" vl]
    unfolding bs_def by blast+
  have "list_all (\<lambda>q. \<not> is_arr0 q) ps \<and> length ps = length bs"
    using q by (rule map_Inr_not_arr0) (auto dest: batch_preds_not_arr0)
  then have p2: "length (preds a) = length bs" "list_all (\<lambda>q. \<not> is_arr0 q) (preds a)"
    by (simp_all add: pr accum0_def)
  have p3: "count a = Fin (real (length (concat bs)))"
    using cn count_total [of 0 bs] by (simp add: accum0_def)
  have p4: "trues a = map (\<lambda>b. squeeze (map snd b)) bs" by (simp add: tr accum0_def)
  from pass_accum_ok [OF p1 p4 p2 p3] tl show ?thesis unfolding bs_def by blast
qed

lemma epoch_returns:
  assumes "net_ok env C" "sampler_ok env" "labels_ok (samples trl) C" "labels_ok (samples vl) C"
    and "\<not> dry_ryn p"
    and "iterate (sampler env TrainP e) trl \<noteq> []"
    and "list_all (\<lambda>b. length b \<noteq> 1) (iterate (sampler env TrainP e) trl)"
    and "iterate (sampler env ValidationP e) vl \<noteq> []"
    and "list_all (\<lambda>b. length b \<noteq> 1) (iterate (sampler env ValidationP e) vl)"
  shows "snd (epoch_body env p trl vl e s) = Inr Continue"
proof -
  from train_batch_returns [OF assms(1,2,3,6,7), of p s] obtain s1 loss yt yp where
    tb: "train_batch env p trl e s = (s1, Inr (loss, yt, yp))"
    by (cases "train_batch env p trl e s") auto
  from validation_returns [OF assms(1,2,4,8,9), of s1] obtain s2 a vt vp vloss where
    "val_loop env (iterate (sampler env ValidationP e) vl) s1 accum0 = (s2, Inr a)"
    "np_concatenate (trues a) = Inr vt" "np_concatenate (preds a) = Inr vp"
    "py_truediv (fmul (loss_sum a) (Fin 1)) (count a) = Inr vloss" by blast
  then show ?thesis
    using tb assms(5) unfolding epoch_body_def by (simp add: Let_def)
qed

section \<open>The metrics row of an epoch\<close>

lemma epoch_metrics_row:
  assumes "epoch_body env p trl vl e s = (s', Inr Continue)"
  shows "\<exists>s1 tloss tt tp ls ps.
      train_batch env p trl e s = (s1, Inr (tloss, tt, tp))
    \<and> map (batch_loss env False (net s')) (iterate (sampler env ValidationP e) vl) = map Inr ls
    \<and> map (batch_preds env False (net s')) (iterate (sampler env ValidationP e) vl) = map Inr ps
    \<and> iterate (sampler env ValidationP e) vl \<noteq> []
    \<and> Csv e tloss (accuracy_score tt tp) (balanced_accuracy_score tt tp)
         (weighted_mean ls (iterate (sampler env ValidationP e) vl))
         (accuracy_score (concat (map (map snd) (iterate (sampler env ValidationP e) vl)))
            (concat (map flat ps)))
         (balanced_accuracy_score (concat (map (map snd) (iterate (sampler env ValidationP e) vl)))
            (concat (map flat ps)))
        \<in> set (trace s')"
  using assms
proof (rule epoch_body_Continue)
  fix s1 train_loss train_true train_pred s2 a val_true val_pred val_loss
  assume tb: "train_batch env p trl e s = (s1, Inr (train_loss, train_true, train_pred))"
    and vlp: "val_loop env (iterate (sampler env ValidationP e) vl) s1 accum0 = (s2, Inr a)"
    and ct: "np_concatenate (trues a) = Inr val_true"
    and cp: "np_concatenate (preds a) = Inr val_pred"
    and dv: "py_truediv (fmul (loss_sum a) (Fin 1)) (count a) = Inr val_loss"
    and s': "s' = (let s4 = torch_save (checkpoint_path p)
                      (emit (Csv e train_loss (accuracy_score train_true train_pred)
                               (balanced_accuracy_score train_true train_pred) val_loss
                               (accuracy_score val_true val_pred)
                               (balanced_accuracy_score val_true val_pred)) s2)
           in if fgt (balanced_accuracy_score val_true val_pred) (global_best_avg_acc s4)
              then torch_save best_model_path
                     (s4\<lparr>global_best_loss := val_loss,
                         global_best_acc := accuracy_score val_true val_pred,
                         global_best_avg_acc := balanced_accuracy_score val_true val_pred\<rparr>)
              else s4)"
  from validation_result [OF vlp ct cp dv] obtain ls ps where
    r: "map (batch_loss env False (net s1)) (iterate (sampler env ValidationP e) vl) = map Inr ls"
      "map (batch_preds env False (net s1)) (iterate (sampler env ValidationP e) vl) = map Inr ps"
      "iterate (sampler env ValidationP e) vl \<noteq> []"
      "val_loss = weighted_mean ls (iterate (sampler env ValidationP e) vl)"
      "val_true = concat (map (map snd) (iterate (sampler env ValidationP e) vl))"
      "val_pred = concat (map flat ps)"
    by blast
  from val_loop_result [OF vlp] have s2: "s2 = s1\<lparr>trace := trace s1
      @ map ValBatch (iterate (sampler env ValidationP e) vl)\<rparr>" by blast
  have net: "net s' = net s1"
    unfolding s' by (simp add: Let_def s2 torch_save_def emit_def)
  have "Csv e train_loss (accuracy_score train_true train_pred)
          (balanced_accuracy_score train_true train_pred) val_loss
          (accuracy_score val_true val_pred) (balanced_accuracy_score val_true val_pred)
        \<in> set (trace s')"
    unfolding s' by (simp add: Let_def torch_save_def emit_def)
  with tb r show ?thesis unfolding net by blast
qed

text \<open>
  Passes that return. When a training pass returns, its loss is the sum over the batches it went
  through of the loss of the batch (under the parameters before the batch) times the size
  of the batch, divided by the number of samples, and its label sequences are the
  concatenations, in batch order, of the labels and of the predictions of the batches.
  The same holds of the validation loss and of the label sequences from which the
  validation columns of the metrics row of a completed epoch are computed. A training
  pass returns when the model and the labels are well-formed, the loader delivers a
  batch, and no batch has exactly one sample.
\<close>

lemma pass_loss_and_labels:
  "(train_batch env p trl e s = (s1, Inr (loss, yt, yp)) \<longrightarrow>
      (\<exists>ls ps.
          map2 (\<lambda>om b. batch_loss env True (snd om) b)
            (train_states env (cur_lr (scheduler_step s)) (opt s, net s)
               (processed p (iterate (sampler env TrainP e) trl)))
            (processed p (iterate (sampler env TrainP e) trl)) = map Inr ls
        \<and> map2 (\<lambda>om b. batch_preds env True (snd om) b)
            (train_states env (cur_lr (scheduler_step s)) (opt s, net s)
               (processed p (iterate (sampler env TrainP e) trl)))
            (processed p (iterate (sampler env TrainP e) trl)) = map Inr ps
        \<and> processed p (iterate (sampler env TrainP e) trl) \<noteq> []
        \<and> loss = weighted_mean ls (processed p (iterate (sampler env TrainP e) trl))
        \<and> yt = concat (map (map snd) (processed p (iterate (sampler env TrainP e) trl)))
        \<and> yp = concat (map flat ps)))
   \<and> (epoch_body env p trl vl e s = (s2, Inr Continue) \<longrightarrow>
      (\<exists>tloss tt tp ls ps.
          map (batch_loss env False (net s2)) (iterate (sampler env ValidationP e) vl) = map Inr ls
        \<and> map (batch_preds env False (net s2)) (iterate (sampler env ValidationP e) vl) = map Inr ps
        \<and> iterate (sampler env ValidationP e) vl \<noteq> []
        \<and> Csv e tloss (accuracy_score tt tp) (balanced_accuracy_score tt tp)
             (weighted_mean ls (iterate (sampler env ValidationP e) vl))
             (accuracy_score (concat (map (map snd) (iterate (sampler env ValidationP e) vl)))
                (concat (map flat ps)))
             (balanced_accuracy_score
                (concat (map (map snd) (iterate (sampler env ValidationP e) vl)))
                (concat (map flat ps)))
            \<in> set (trace s2)))
   \<and> (net_ok env C \<and> sampler_ok env \<and> labels_ok (samples trl) C
        \<and> iterate (sampler env TrainP e) trl \<noteq> []
        \<and> list_all (\<lambda>b. length b \<noteq> 1) (iterate (sampler env TrainP e) trl)
      \<longrightarrow> (\<exists>loss' yt' yp'. snd (train_batch env p trl e s) = Inr (loss', yt', yp')))"
proof (intro conjI impI)
  assume "train_batch env p trl e s = (s1, Inr (loss, yt, yp))"
  then show "\<exists>ls ps.
          map2 (\<lambda>om b. batch_loss env True (snd om) b)
            (train_states env (cur_lr (scheduler_step s)) (opt s, net s)
               (processed p (iterate (sampler env TrainP e) trl)))
            (processed p (iterate (sampler env TrainP e) trl)) = map Inr ls
        \<and> map2 (\<lambda>om b. batch_preds env True (snd om) b)
            (train_states env (cur_lr (scheduler_step s)) (opt s, net s)
               (processed p (iterate (sampler env TrainP e) trl)))
            (processed p (iterate (sampler env TrainP e) trl)) = map Inr ps
        \<and> processed p (iterate (sampler env TrainP e) trl) \<noteq> []
        \<and> loss = weighted_mean ls (processed p (iterate (sampler env TrainP e) trl))
        \<and> yt = concat (map (map snd) (processed p (iterate (sampler env TrainP e) trl)))
        \<and> yp = concat (map flat ps)"
    by (rule train_batch_result)
next
  assume "epoch_body env p trl vl e s = (s2, Inr Continue)"
  from epoch_metrics_row [OF this]
  show "\<exists>tloss tt tp ls ps.
          map (batch_loss env False (net s2)) (iterate (sampler env ValidationP e) vl) = map Inr ls
        \<and> map (batch_preds env False (net s2)) (iterate (sampler env ValidationP e) vl) = map Inr ps
        \<and> iterate (sampler env ValidationP e) vl \<noteq> []
        \<and> Csv e tloss (accuracy_score tt tp) (balanced_accuracy_score tt tp)
             (weighted_mean ls (iterate (sampler env ValidationP e) vl))
             (accuracy_score (concat (map (map snd) (iterate (sampler env ValidationP e) vl)))
                (concat (map flat ps)))
             (balanced_accuracy_score
                (concat (map (map snd) (iterate (sampler env ValidationP e) vl)))
                (concat (map flat ps)))
            \<in> set (trace s2)"
    by blast
next
  assume "net_ok env C \<and> sampler_ok env \<and> labels_ok (samples trl) C
        \<and> iterate (sampler env TrainP e) trl \<noteq> []
        \<and> list_all (\<lambda>b. length b \<noteq> 1) (iterate (sampler env TrainP e) trl)"
  then show "\<exists>loss' yt' yp'. snd (train_batch env p trl e s) = Inr (loss', yt', yp')"
    using train_batch_returns [of env C trl e p s] by blast
qed

lemma toy_train_pass:
  "\<exists>loss. snd (train_batch toy_env (toy_params False 3)
          \<lparr>samples = dataset_loader toy_env TrainP, bsize = 2, drop_last = True\<rparr>
          0 (init_state toy_env (toy_params False 3) Map.empty))
     = Inr (loss, [0, 1, 0, 1, 0, 1], [0, 1, 1, 0, 0, 1])"
  by (simp add: toy_eval)

lemma toy_train_processed:
  "processed (toy_params False 3) (iterate (sampler toy_env TrainP 0)
      \<lparr>samples = dataset_loader toy_env TrainP, bsize = 2, drop_last = True\<rparr>)
   = [[(0, 0), (1, 1)], [(2, 0), (3, 1)], [(4, 0), (5, 1)]]"
  using toy_batches(1) by (simp add: processed_def iterate_def toy_params_def toy_env_def)

text \<open>The first epoch of the small example: the training pass returns the labels of its
  three full batches and the predictions made for them, and the epoch writes its row.\<close>

lemma pass_loss_and_labels_witness:
  "snd (epoch_body toy_env (toy_params False 3)
          \<lparr>samples = dataset_loader toy_env TrainP, bsize = 2, drop_last = True\<rparr>
          \<lparr>samples = dataset_loader toy_env ValidationP, bsize = 3, drop_last = False\<rparr>
          0 (init_state toy_env (toy_params False 3) Map.empty)) = Inr Continue
   \<and> net_ok toy_env 2 \<and> sampler_ok toy_env
   \<and> labels_ok (samples \<lparr>samples = dataset_loader toy_env TrainP, bsize = 2, drop_last = True\<rparr>) 2
   \<and> list_all (\<lambda>b. length b \<noteq> 1)
        (iterate (sampler toy_env TrainP 0)
           \<lparr>samples = dataset_loader toy_env TrainP, bsize = 2, drop_last = True\<rparr>)
   \<and> (\<exists>loss ls ps.
         snd (train_batch toy_env (toy_params False 3)
                \<lparr>samples = dataset_loader toy_env TrainP, bsize = 2, drop_last = True\<rparr>
                0 (init_state toy_env (toy_params False 3) Map.empty))
           = Inr (loss, [0, 1, 0, 1, 0, 1], [0, 1, 1, 0, 0, 1])
       \<and> map2 (\<lambda>om b. batch_loss toy_env True (snd om) b)
            (train_states toy_env
               (cur_lr (scheduler_step (init_state toy_env (toy_params False 3) Map.empty)))
               (0, 0) [[(0, 0), (1, 1)], [(2, 0), (3, 1)], [(4, 0), (5, 1)]])
            [[(0, 0), (1, 1)], [(2, 0), (3, 1)], [(4, 0), (5, 1)]] = map Inr ls
       \<and> loss = weighted_mean ls [[(0 :: nat, 0 :: int), (1, 1)], [(2, 0), (3, 1)], [(4, 0), (5, 1)]]
       \<and> [0, 1, 1, 0, 0, 1] = concat (map flat ps))
   \<and> (\<exists>tloss tt tp ls.
         map (batch_loss toy_env False
                (net (fst (epoch_body toy_env (toy_params False 3)
                   \<lparr>samples = dataset_loader toy_env TrainP, bsize = 2, drop_last = True\<rparr>
                   \<lparr>samples = dataset_loader toy_env ValidationP, bsize = 3, drop_last = False\<rparr>
                   0 (init_state toy_env (toy_params False 3) Map.empty)))))
            (iterate (sampler toy_env ValidationP 0)
               \<lparr>samples = dataset_loader toy_env ValidationP, bsize = 3, drop_last = False\<rparr>)
           = map Inr ls
       \<and> (\<exists>vacc vbal.
             Csv 0 tloss (accuracy_score tt tp) (balanced_accuracy_score tt tp)
               (weighted_mean ls
                  (iterate (sampler toy_env ValidationP 0)
                     \<lparr>samples = dataset_loader toy_env ValidationP, bsize = 3,
                        drop_last = False\<rparr>))
               vacc vbal
             \<in> set (trace (fst (epoch_body toy_env (toy_params False 3)
                   \<lparr>samples = dataset_loader toy_env TrainP, bsize = 2, drop_last = True\<rparr>
                   \<lparr>samples = dataset_loader toy_env ValidationP, bsize = 3, drop_last = False\<rparr>
                   0 (init_state toy_env (toy_params False 3) Map.empty))))))"
proof -
  define s0 where "s0 = init_state toy_env (toy_params False 3) Map.empty"
  define trl where "trl = \<lparr>samples = dataset_loader toy_env TrainP, bsize = 2, drop_last = True\<rparr>"
  define vl where
    "vl = \<lparr>samples = dataset_loader toy_env ValidationP, bsize = 3, drop_last = False\<rparr>"
  from toy_train_pass obtain loss where
    l: "snd (train_batch toy_env (toy_params False 3) trl 0 s0)
        = Inr (loss, [0, 1, 0, 1, 0, 1], [0, 1, 1, 0, 0, 1])"
    unfolding s0_def trl_def by blast
  then have tb: "train_batch toy_env (toy_params False 3) trl 0 s0
      = (fst (train_batch toy_env (toy_params False 3) trl 0 s0),
         Inr (loss, [0, 1, 0, 1, 0, 1], [0, 1, 1, 0, 0, 1]))"
    by (simp add: prod_eq_iff)
  have eb: "epoch_body toy_env (toy_params False 3) trl vl 0 s0
      = (fst (epoch_body toy_env (toy_params False 3) trl vl 0 s0), Inr Continue)"
    using toy_epoch0_completes by (simp add: prod_eq_iff s0_def trl_def vl_def)
  have i: "opt s0 = 0" "net s0 = 0" by (simp_all add: s0_def init_state_def toy_env_def)
  have la: "labels_ok (samples trl) 2" using toy_labels_ok [of TrainP] by (simp add: trl_def)
  have na: "list_all (\<lambda>b. length b \<noteq> 1) (iterate (sampler toy_env TrainP 0) trl)"
    using toy_batches(1) by (simp add: iterate_def toy_env_def trl_def)
  have "\<exists>ls ps.
      map2 (\<lambda>om b. batch_loss toy_env True (snd om) b)
        (train_states toy_env (cur_lr (scheduler_step s0)) (opt s0, net s0)
           (processed (toy_params False 3) (iterate (sampler toy_env TrainP 0) trl)))
        (processed (toy_params False 3) (iterate (sampler toy_env TrainP 0) trl)) = map Inr ls
    \<and> map2 (\<lambda>om b. batch_preds toy_env True (snd om) b)
        (train_states toy_env (cur_lr (scheduler_step s0)) (opt s0, net s0)
           (processed (toy_params False 3) (iterate (sampler toy_env TrainP 0) trl)))
        (processed (toy_params False 3) (iterate (sampler toy_env TrainP 0) trl)) = map Inr ps
    \<and> processed (toy_params False 3) (iterate (sampler toy_env TrainP 0) trl) \<noteq> []
    \<and> loss = weighted_mean ls
         (processed (toy_params False 3) (iterate (sampler toy_env TrainP 0) trl))
    \<and> [0, 1, 0, 1, 0, 1]
        = concat (map (map snd)
            (processed (toy_params False 3) (iterate (sampler toy_env TrainP 0) trl)))
    \<and> [0, 1, 1, 0, 0, 1] = concat (map flat ps)"
    using pass_loss_and_labels [of toy_env "toy_params False 3" trl 0 s0
       "fst (train_batch toy_env (toy_params False 3) trl 0 s0)" loss
       "[0, 1, 0, 1, 0, 1]" "[0, 1, 1, 0, 0, 1]" vl
       "fst (epoch_body toy_env (toy_params False 3) trl vl 0 s0)" 2] tb
    by blast
  then obtain ls ps where
    "map2 (\<lambda>om b. batch_loss toy_env True (snd om) b)
       (train_states toy_env (cur_lr (scheduler_step s0)) (0, 0)
          [[(0, 0), (1, 1)], [(2, 0), (3, 1)], [(4, 0), (5, 1)]])
       [[(0, 0), (1, 1)], [(2, 0), (3, 1)], [(4, 0), (5, 1)]] = map Inr ls"
    "loss = weighted_mean ls [[(0 :: nat, 0 :: int), (1, 1)], [(2, 0), (3, 1)], [(4, 0), (5, 1)]]"
    "[0, 1, 1, 0, 0, 1] = concat (map flat ps)"
    unfolding toy_train_processed [unfolded trl_def [symmetric]] i by blast
  then have "\<exists>loss ls ps.
         snd (train_batch toy_env (toy_params False 3) trl 0 s0)
           = Inr (loss, [0, 1, 0, 1, 0, 1], [0, 1, 1, 0, 0, 1])
       \<and> map2 (\<lambda>om b. batch_loss toy_env True (snd om) b)
            (train_states toy_env (cur_lr (scheduler_step s0))
               (0, 0) [[(0, 0), (1, 1)], [(2, 0), (3, 1)], [(4, 0), (5, 1)]])
            [[(0, 0), (1, 1)], [(2, 0), (3, 1)], [(4, 0), (5, 1)]] = map Inr ls
       \<and> loss = weighted_mean ls [[(0 :: nat, 0 :: int), (1, 1)], [(2, 0), (3, 1)], [(4, 0), (5, 1)]]
       \<and> [0, 1, 1, 0, 0, 1] = concat (map flat ps)"
    using l by blast
  moreover have "snd (epoch_body toy_env (toy_params False 3) trl vl 0 s0) = Inr Continue"
    using eb by (simp add: prod_eq_iff)
  moreover have "\<exists>tloss tt tp ls.
         map (batch_loss toy_env False
                (net (fst (epoch_body toy_env (toy_params False 3) trl vl 0 s0))))
            (iterate (sampler toy_env ValidationP 0) vl) = map Inr ls
       \<and> (\<exists>vacc vbal.
             Csv 0 tloss (accuracy_score tt tp) (balanced_accuracy_score tt tp)
               (weighted_mean ls (iterate (sampler toy_env ValidationP 0) vl)) vacc vbal
             \<in> set (trace (fst (epoch_body toy_env (toy_params False 3) trl vl 0 s0))))"
    using pass_loss_and_labels [of toy_env "toy_params False 3" trl 0 s0
       "fst (train_batch toy_env (toy_params False 3) trl 0 s0)" loss
       "[0, 1, 0, 1, 0, 1]" "[0, 1, 1, 0, 0, 1]" vl
       "fst (epoch_body toy_env (toy_params False 3) trl vl 0 s0)" 2] eb
    by blast
  ultimately show ?thesis
    using la na toy_net_ok toy_sampler_ok unfolding s0_def trl_def vl_def by blast
qed

section \<open>Evaluation on the test partition\<close>

lemma filter_is_log_test_map [simp]: "filter is_log_test (map TestBatch bs) = []"
  by (induction bs) simp_all

lemma test_loop_trace:
  "\<exists>k. fst (test_loop env m bs tr tt tp) = tr @ map TestBatch (take k bs)"
proof (induction bs arbitrary: tr tt tp)
  case Nil
  then show ?case by simp
next
  case (Cons b bs)
  show ?case
  proof (cases "batch_preds env False m b")
    case (Inl e)
    then have "fst (test_loop env m (b # bs) tr tt tp) = tr @ map TestBatch (take 1 (b # bs))"
      unfolding test_loop_Cons by simp
    then show ?thesis by blast
  next
    case (Inr q)
    from Cons.IH [of "tr @ [TestBatch b]" "tt @ [squeeze (map snd b)]" "tp @ [q]"]
    obtain k where "fst (test_loop env m bs (tr @ [TestBatch b]) (tt @ [squeeze (map snd b)])
        (tp @ [q])) = (tr @ [TestBatch b]) @ map TestBatch (take k bs)" by blast
    with Inr have "fst (test_loop env m (b # bs) tr tt tp)
        = tr @ map TestBatch (take (Suc k) (b # bs))"
      unfolding test_loop_Cons by simp
    then show ?thesis by blast
  qed
qed

lemma test_loop_no_log:
  "filter is_log_test (fst (test_loop env m bs tr tt tp)) = filter is_log_test tr"
  using test_loop_trace [of env m bs tr tt tp] by auto

lemma test_cases:
  fixes env :: "('x, 'm, 'o) env"
  obtains
    (loader_error) e where "test_loader_of env p = Inl e" "test env p sd fs = ([], Inl e)"
  | (no_file) tsl where "test_loader_of env p = Inr tsl"
      "fs (case sd of Some given \<Rightarrow> given | None \<Rightarrow> best_model_path) = None"
      "test env p sd fs = ([], Inl FileNotFoundError)"
  | (loop_error) tsl m e where "test_loader_of env p = Inr tsl"
      "fs (case sd of Some given \<Rightarrow> given | None \<Rightarrow> best_model_path) = Some m"
      "snd (test_loop env m (iterate (sampler env TestP 0) tsl)
          [Load (case sd of Some given \<Rightarrow> given | None \<Rightarrow> best_model_path)] [] []) = Inl e"
      "test env p sd fs = (fst (test_loop env m (iterate (sampler env TestP 0) tsl)
          [Load (case sd of Some given \<Rightarrow> given | None \<Rightarrow> best_model_path)] [] []), Inl e)"
  | (concat_error) tsl m tr tt tp e where "test_loader_of env p = Inr tsl"
      "fs (case sd of Some given \<Rightarrow> given | None \<Rightarrow> best_model_path) = Some m"
      "test_loop env m (iterate (sampler env TestP 0) tsl)
          [Load (case sd of Some given \<Rightarrow> given | None \<Rightarrow> best_model_path)] [] []
         = (tr, Inr (tt, tp))"
      "np_concatenate tt = Inl e \<or> np_concatenate tp = Inl e"
      "test env p sd fs = (tr, Inl e)"
  | (returned) tsl m tr tt tp yt yp where "test_loader_of env p = Inr tsl"
      "fs (case sd of Some given \<Rightarrow> given | None \<Rightarrow> best_model_path) = Some m"
      "test_loop env m (iterate (sampler env TestP 0) tsl)
          [Load (case sd of Some given \<Rightarrow> given | None \<Rightarrow> best_model_path)] [] []
         = (tr, Inr (tt, tp))"
      "np_concatenate tt = Inr yt" "np_concatenate tp = Inr yp"
      "test env p sd fs
         = (if sd = None
            then tr @ [LogTest (accuracy_score yt yp) (balanced_accuracy_score yt yp)]
            else tr,
            Inr (accuracy_score yt yp, balanced_accuracy_score yt yp))"
proof (cases "test_loader_of env p")
  case (Inl e)
  then show ?thesis using loader_error by (simp add: test_def)
next
  case tsl: (Inr tsl)
  show ?thesis
  proof (cases "fs (case sd of Some given \<Rightarrow> given | None \<Rightarrow> best_model_path)")
    case None
    then show ?thesis using no_file tsl by (simp add: test_def)
  next
    case (Some m)
    obtain tr res where tl: "test_loop env m (iterate (sampler env TestP 0) tsl)
          [Load (case sd of Some given \<Rightarrow> given | None \<Rightarrow> best_model_path)] [] [] = (tr, res)"
      by (cases "test_loop env m (iterate (sampler env TestP 0) tsl)
          [Load (case sd of Some given \<Rightarrow> given | None \<Rightarrow> best_model_path)] [] []") blast
    show ?thesis
    proof (cases res)
      case (Inl e)
      then show ?thesis using loop_error [OF tsl Some, of e] tl tsl Some
        by (simp add: test_def)
    next
      case (Inr ttp)
      obtain tt tp where ttp: "ttp = (tt, tp)" by (cases ttp) blast
      show ?thesis
      proof (cases "np_concatenate tt")
        case (Inl e)
        then show ?thesis
          using concat_error [OF tsl Some, of tr tt tp e] tl tsl Some Inr ttp
          by (simp add: test_def)
      next
        case yt: (Inr yt)
        show ?thesis
        proof (cases "np_concatenate tp")
          case (Inl e)
          then show ?thesis
            using concat_error [OF tsl Some, of tr tt tp e] tl tsl Some Inr ttp yt
            by (simp add: test_def)
        next
          case yp: (Inr yp)
          show ?thesis
            using returned [OF tsl Some, of tr tt tp yt yp] tl tsl Some Inr ttp yt yp
            by (simp add: test_def Let_def)
        qed
      qed
    qed
  qed
qed


lemma mset_iterate:
  assumes "sampler_ok env" "0 < bsize l" "\<not> drop_last l"
  shows "mset (concat (iterate (sampler env part e) l)) = mset (samples l)"
  using assms concat_batches_keep [of "bsize l" "sampler env part e (samples l)"]
  by (simp add: iterate_def sampler_ok_def)

lemma test_loader_props:
  "test_loader_of env p = Inr tsl \<Longrightarrow>
   0 < bsize tsl \<and> \<not> drop_last tsl \<and> samples tsl = dataset_loader env TestP"
  unfolding test_loader_of_def by (auto dest!: DataLoader_Inr)

lemma test_result:
  fixes env :: "('x, 'm, 'o) env"
  assumes "test env p sd fs = (tr, Inr r)"
  shows "\<exists>tsl m ps.
        test_loader_of env p = Inr tsl
      \<and> fs (case sd of Some given \<Rightarrow> given | None \<Rightarrow> best_model_path) = Some m
      \<and> map (batch_preds env False m) (iterate (sampler env TestP 0) tsl) = map Inr ps
      \<and> iterate (sampler env TestP 0) tsl \<noteq> []
      \<and> r = (accuracy_score (concat (map (map snd) (iterate (sampler env TestP 0) tsl)))
                (concat (map flat ps)),
             balanced_accuracy_score (concat (map (map snd) (iterate (sampler env TestP 0) tsl)))
                (concat (map flat ps)))
      \<and> tr = Load (case sd of Some given \<Rightarrow> given | None \<Rightarrow> best_model_path)
             # map TestBatch (iterate (sampler env TestP 0) tsl)
             @ (if sd = None then [LogTest (fst r) (snd r)] else [])"
proof (cases env p sd fs rule: test_cases)
  case (returned tsl m tr0 tt tp yt yp)
  from test_loop_result [OF returned(3)] obtain ps where
    ps: "map (batch_preds env False m) (iterate (sampler env TestP 0) tsl) = map Inr ps"
      "tt = map (\<lambda>b. squeeze (map snd b)) (iterate (sampler env TestP 0) tsl)"
      "tp = ps"
      "tr0 = [Load (case sd of Some given \<Rightarrow> given | None \<Rightarrow> best_model_path)]
         @ map TestBatch (iterate (sampler env TestP 0) tsl)"
    by auto
  from np_concatenate_Inr [OF returned(4)] have yt:
    "yt = concat (map (map snd) (iterate (sampler env TestP 0) tsl))"
    by (simp add: ps(2) comp_def)
  from np_concatenate_Inr [OF returned(5)] have yp: "yp = concat (map flat ps)"
    by (simp add: ps(3))
  from np_concatenate_nonempty [OF returned(4)] have ne: "iterate (sampler env TestP 0) tsl \<noteq> []"
    by (simp add: ps(2))
  from assms returned(6) have
    r: "r = (accuracy_score yt yp, balanced_accuracy_score yt yp)"
    and tr: "tr = (if sd = None
            then tr0 @ [LogTest (accuracy_score yt yp) (balanced_accuracy_score yt yp)]
            else tr0)"
    by simp_all
  show ?thesis
    using returned(1,2) ps(1) ne r tr ps(4) yt yp by auto
qed (use assms in simp_all)

lemma test_no_log:
  fixes env :: "('x, 'm, 'o) env"
  assumes "snd (test env p sd fs) = Inl e"
  shows "filter is_log_test (fst (test env p sd fs)) = []"
proof (cases env p sd fs rule: test_cases)
  case (loop_error tsl m e')
  then show ?thesis using test_loop_no_log [of env m "iterate (sampler env TestP 0) tsl"
      "[Load (case sd of Some given \<Rightarrow> given | None \<Rightarrow> best_model_path)]" "[]" "[]"]
    by simp
next
  case (concat_error tsl m tr tt tp e')
  then show ?thesis using test_loop_no_log [of env m "iterate (sampler env TestP 0) tsl"
      "[Load (case sd of Some given \<Rightarrow> given | None \<Rightarrow> best_model_path)]" "[]" "[]"]
    by simp
next
  case (returned tsl m tr tt tp yt yp)
  then show ?thesis using assms by simp
qed simp_all

lemma test_returns:
  fixes env :: "('x, 'm, 'o) env"
  assumes "net_ok env C" "test_loader_of env p = Inr tsl"
    and "fs (case sd of Some given \<Rightarrow> given | None \<Rightarrow> best_model_path) = Some m"
    and "iterate (sampler env TestP 0) tsl \<noteq> []"
    and "list_all (\<lambda>b. length b \<noteq> 1) (iterate (sampler env TestP 0) tsl)"
  shows "\<exists>r. snd (test env p sd fs) = Inr r"
proof -
  let ?bs = "iterate (sampler env TestP 0) tsl"
  let ?path = "case sd of Some given \<Rightarrow> given | None \<Rightarrow> best_model_path"
  from test_loop_ok [OF assms(1), of m ?bs "[Load ?path]" "[]" "[]"]
  obtain tr tt tp where tl: "test_loop env m ?bs [Load ?path] [] [] = (tr, Inr (tt, tp))"
    by blast
  from test_loop_result [OF tl] obtain ps where
    ps: "map (batch_preds env False m) ?bs = map Inr ps"
      "tt = map (\<lambda>b. squeeze (map snd b)) ?bs" "tp = ps"
    by auto
  have "list_all (\<lambda>q. \<not> is_arr0 q) ps \<and> length ps = length ?bs"
    by (rule map_Inr_not_arr0 [OF ps(1)]) (rule batch_preds_not_arr0)
  then have p0: "list_all (\<lambda>q. \<not> is_arr0 q) ps" "length ps = length ?bs" by simp_all
  have t0: "list_all (\<lambda>a. \<not> is_arr0 a) tt"
    using assms(5) by (simp add: ps(2) list_all_iff is_arr0_squeeze)
  have "tt \<noteq> []" "tp \<noteq> []" using assms(4) p0(2) ps(2,3) by auto
  with np_concatenate_ok [of tt] np_concatenate_ok [of tp] t0 p0(1) ps(3)
  have "np_concatenate tt = Inr (concat (map flat tt))"
    "np_concatenate tp = Inr (concat (map flat tp))" by simp_all
  then show ?thesis
    using assms(2,3) tl unfolding test_def by (simp add: Let_def)
qed

text \<open>
  Calls that return. Whenever \<^verbatim>\<open>test\<close> returns, with or without a given state path, it
  returns the accuracy and the balanced accuracy of the predictions of the loaded model
  against the labels, over all the batches of the test loader, which hold every sample
  of the test partition. Its events are then the load, the test batches and, only
  when no state path was given, the summary line with the returned pair; a call that
  raises has no summary line. It returns when the model is well formed, the weights
  file exists, the test partition is not empty and no batch has exactly one sample.
\<close>

lemma test_metric_pair:
  "(test env p sd fs = (tr, Inr r) \<longrightarrow>
      (\<exists>tsl m ps.
          test_loader_of env p = Inr tsl
        \<and> fs (case sd of Some given \<Rightarrow> given | None \<Rightarrow> best_model_path) = Some m
        \<and> map (batch_preds env False m) (iterate (sampler env TestP 0) tsl) = map Inr ps
        \<and> r = (accuracy_score (concat (map (map snd) (iterate (sampler env TestP 0) tsl)))
                  (concat (map flat ps)),
               balanced_accuracy_score
                  (concat (map (map snd) (iterate (sampler env TestP 0) tsl)))
                  (concat (map flat ps)))
        \<and> tr = Load (case sd of Some given \<Rightarrow> given | None \<Rightarrow> best_model_path)
               # map TestBatch (iterate (sampler env TestP 0) tsl)
               @ (if sd = None then [LogTest (fst r) (snd r)] else [])
        \<and> (sampler_ok env \<longrightarrow>
             mset (concat (iterate (sampler env TestP 0) tsl)) = mset (dataset_loader env TestP))))
   \<and> (snd (test env p sd fs) = Inl e \<longrightarrow> filter is_log_test (fst (test env p sd fs)) = [])
   \<and> (net_ok env C \<and> test_loader_of env p = Inr tsl'
        \<and> fs (case sd of Some given \<Rightarrow> given | None \<Rightarrow> best_model_path) = Some m'
        \<and> iterate (sampler env TestP 0) tsl' \<noteq> []
        \<and> list_all (\<lambda>b. length b \<noteq> 1) (iterate (sampler env TestP 0) tsl')
      \<longrightarrow> (\<exists>r'. snd (test env p sd fs) = Inr r'))"
proof (intro conjI impI)
  assume a: "test env p sd fs = (tr, Inr r)"
  from test_result [OF a] obtain tsl m ps where
    f: "test_loader_of env p = Inr tsl"
      "fs (case sd of Some given \<Rightarrow> given | None \<Rightarrow> best_model_path) = Some m"
      "map (batch_preds env False m) (iterate (sampler env TestP 0) tsl) = map Inr ps"
      "r = (accuracy_score (concat (map (map snd) (iterate (sampler env TestP 0) tsl)))
                (concat (map flat ps)),
             balanced_accuracy_score (concat (map (map snd) (iterate (sampler env TestP 0) tsl)))
                (concat (map flat ps)))"
      "tr = Load (case sd of Some given \<Rightarrow> given | None \<Rightarrow> best_model_path)
             # map TestBatch (iterate (sampler env TestP 0) tsl)
             @ (if sd = None then [LogTest (fst r) (snd r)] else [])"
    by blast
  have "sampler_ok env \<longrightarrow>
      mset (concat (iterate (sampler env TestP 0) tsl)) = mset (dataset_loader env TestP)"
    using mset_iterate [of env tsl TestP 0] test_loader_props [OF f(1)] by simp
  with f show "\<exists>tsl m ps.
          test_loader_of env p = Inr tsl
        \<and> fs (case sd of Some given \<Rightarrow> given | None \<Rightarrow> best_model_path) = Some m
        \<and> map (batch_preds env False m) (iterate (sampler env TestP 0) tsl) = map Inr ps
        \<and> r = (accuracy_score (concat (map (map snd) (iterate (sampler env TestP 0) tsl)))
                  (concat (map flat ps)),
               balanced_accuracy_score
                  (concat (map (map snd) (iterate (sampler env TestP 0) tsl)))
                  (concat (map flat ps)))
        \<and> tr = Load (case sd of Some given \<Rightarrow> given | None \<Rightarrow> best_model_path)
               # map TestBatch (iterate (sampler env TestP 0) tsl)
               @ (if sd = None then [LogTest (fst r) (snd r)] else [])
        \<and> (sampler_ok env \<longrightarrow>
             mset (concat (iterate (sampler env TestP 0) tsl)) = mset (dataset_loader env TestP))"
    by blast
next
  assume "snd (test env p sd fs) = Inl e"
  then show "filter is_log_test (fst (test env p sd fs)) = []" by (rule test_no_log)
next
  assume "net_ok env C \<and> test_loader_of env p = Inr tsl'
        \<and> fs (case sd of Some given \<Rightarrow> given | None \<Rightarrow> best_model_path) = Some m'
        \<and> iterate (sampler env TestP 0) tsl' \<noteq> []
        \<and> list_all (\<lambda>b. length b \<noteq> 1) (iterate (sampler env TestP 0) tsl')"
  then show "\<exists>r'. snd (test env p sd fs) = Inr r'"
    using test_returns [of env C p tsl' fs sd m'] by blast
qed


lemma toy_test_default:
  "test toy_env (toy_params False 3) None [best_model_path \<mapsto> 0]
   = ([Load best_model_path, TestBatch [(12, 0), (13, 1), (14, 1)],
       TestBatch [(15, 0), (16, 1)], LogTest (Fin (2 / 5)) (Fin (5 / 12))],
      Inr (Fin (2 / 5), Fin (5 / 12)))"
  by (simp add: toy_eval test_def)

lemma toy_test_given:
  "test toy_env (toy_params False 3) (Some ''w.t7'') [''w.t7'' \<mapsto> 1]
   = ([Load ''w.t7'', TestBatch [(12, 0), (13, 1), (14, 1)], TestBatch [(15, 0), (16, 1)]],
      Inr (Fin (3 / 5), Fin (7 / 12)))"
  by (simp add: toy_eval test_def)

lemma toy_test_iterate:
  "test_loader_of toy_env (toy_params False 3) = Inr tsl \<Longrightarrow>
   iterate (sampler toy_env TestP 0) tsl
     = [[(12, 0), (13, 1), (14, 1)], [(15, 0), (16, 1)]]"
  using toy_batches(3) toy_loaders(3) [of False 3]
  by (auto simp: iterate_def) (simp add: toy_env_def)

text \<open>
  The small example in both modes: from the best model the pair is 2/5 and 5/12 and the
  summary line is written; from a given state it is 3/5 and 7/12 and no line is written.
\<close>

lemma test_metric_pair_witness:
  "test toy_env (toy_params False 3) None [best_model_path \<mapsto> 0]
     = ([Load best_model_path, TestBatch [(12, 0), (13, 1), (14, 1)],
         TestBatch [(15, 0), (16, 1)], LogTest (Fin (2 / 5)) (Fin (5 / 12))],
        Inr (Fin (2 / 5), Fin (5 / 12)))
   \<and> test toy_env (toy_params False 3) (Some ''w.t7'') [''w.t7'' \<mapsto> 1]
     = ([Load ''w.t7'', TestBatch [(12, 0), (13, 1), (14, 1)], TestBatch [(15, 0), (16, 1)]],
        Inr (Fin (3 / 5), Fin (7 / 12)))
   \<and> (\<exists>ps. map (batch_preds toy_env False 0) [[(12, 0), (13, 1), (14, 1)], [(15, 0), (16, 1)]]
            = map Inr ps
         \<and> (Fin (2 / 5), Fin (5 / 12))
            = (accuracy_score [0, 1, 1, 0, 1] (concat (map flat ps)),
               balanced_accuracy_score [0, 1, 1, 0, 1] (concat (map flat ps))))
   \<and> (\<exists>ps. map (batch_preds toy_env False 1) [[(12, 0), (13, 1), (14, 1)], [(15, 0), (16, 1)]]
            = map Inr ps
         \<and> (Fin (3 / 5), Fin (7 / 12))
            = (accuracy_score [0, 1, 1, 0, 1] (concat (map flat ps)),
               balanced_accuracy_score [0, 1, 1, 0, 1] (concat (map flat ps))))
   \<and> mset (concat [[(12 :: nat, 0 :: int), (13, 1), (14, 1)], [(15, 0), (16, 1)]])
       = mset (dataset_loader toy_env TestP)"
proof -
  let ?bs = "[[(12 :: nat, 0 :: int), (13, 1), (14, 1)], [(15, 0), (16, 1)]]"
  from test_metric_pair [of toy_env "toy_params False 3" None "[best_model_path \<mapsto> 0]"
      "[Load best_model_path, TestBatch [(12, 0), (13, 1), (14, 1)],
         TestBatch [(15, 0), (16, 1)], LogTest (Fin (2 / 5)) (Fin (5 / 12))]"
      "(Fin (2 / 5), Fin (5 / 12))"] toy_test_default
  obtain tsl m ps where a:
    "test_loader_of toy_env (toy_params False 3) = Inr tsl"
    "[best_model_path \<mapsto> 0] (case None of Some given \<Rightarrow> given | None \<Rightarrow> best_model_path)
       = Some m"
    "map (batch_preds toy_env False m) (iterate (sampler toy_env TestP 0) tsl) = map Inr ps"
    "(Fin (2 / 5), Fin (5 / 12))
      = (accuracy_score (concat (map (map snd) (iterate (sampler toy_env TestP 0) tsl)))
           (concat (map flat ps)),
         balanced_accuracy_score (concat (map (map snd) (iterate (sampler toy_env TestP 0) tsl)))
           (concat (map flat ps)))"
    "sampler_ok toy_env \<longrightarrow>
       mset (concat (iterate (sampler toy_env TestP 0) tsl)) = mset (dataset_loader toy_env TestP)"
    by blast
  from a(2) have m: "m = 0" by simp
  have one: "\<exists>ps. map (batch_preds toy_env False 0) ?bs = map Inr ps
         \<and> (Fin (2 / 5), Fin (5 / 12))
            = (accuracy_score [0, 1, 1, 0, 1] (concat (map flat ps)),
               balanced_accuracy_score [0, 1, 1, 0, 1] (concat (map flat ps)))"
    using a(3,4) unfolding toy_test_iterate [OF a(1)] m by (intro exI [of _ ps]) simp
  have all: "mset (concat ?bs) = mset (dataset_loader toy_env TestP)"
    using a(5) toy_sampler_ok unfolding toy_test_iterate [OF a(1)] by blast
  from test_metric_pair [of toy_env "toy_params False 3" "Some ''w.t7''" "[''w.t7'' \<mapsto> 1]"
      "[Load ''w.t7'', TestBatch [(12, 0), (13, 1), (14, 1)], TestBatch [(15, 0), (16, 1)]]"
      "(Fin (3 / 5), Fin (7 / 12))"] toy_test_given
  obtain tsl' m' ps' where b:
    "test_loader_of toy_env (toy_params False 3) = Inr tsl'"
    "[''w.t7'' \<mapsto> 1] (case Some ''w.t7'' of Some given \<Rightarrow> given | None \<Rightarrow> best_model_path)
       = Some m'"
    "map (batch_preds toy_env False m') (iterate (sampler toy_env TestP 0) tsl') = map Inr ps'"
    "(Fin (3 / 5), Fin (7 / 12))
      = (accuracy_score (concat (map (map snd) (iterate (sampler toy_env TestP 0) tsl')))
           (concat (map flat ps')),
         balanced_accuracy_score (concat (map (map snd) (iterate (sampler toy_env TestP 0) tsl')))
           (concat (map flat ps')))"
    by blast
  from b(2) have m': "m' = 1" by simp
  have two: "\<exists>ps. map (batch_preds toy_env False 1) ?bs = map Inr ps
         \<and> (Fin (3 / 5), Fin (7 / 12))
            = (accuracy_score [0, 1, 1, 0, 1] (concat (map flat ps)),
               balanced_accuracy_score [0, 1, 1, 0, 1] (concat (map flat ps)))"
    using b(3,4) unfolding toy_test_iterate [OF b(1)] m' by (intro exI [of _ ps']) simp
  show ?thesis
    using toy_test_default toy_test_given one two all by blast
qed

section \<open>The checkpoint of every epoch\<close>

lemma epoch_checkpoint:
  fixes env :: "('x, 'm, 'o) env"
  assumes "epoch_body env p trl vl e s = (s', Inr Continue)"
  shows "\<not> dry_ryn p \<and> files s' (checkpoint_path p) = Some (net s')
    \<and> (\<exists>evs. filter is_save evs = []
          \<and> trace s' = trace s @ evs @ Save (checkpoint_path p) (net s')
              # (if fgt (val_bal_acc env vl e (net s')) (global_best_avg_acc s)
                 then [Save best_model_path (net s')] else []))"
proof -
  from epoch_completed [OF assms] obtain evs tl ta tb vls vac where
    f: "filter is_save evs = []"
    and t: "trace s' = trace s @ evs
       @ [Csv e tl ta tb vls vac (val_bal_acc env vl e (net s')),
          Save (checkpoint_path p) (net s')]
       @ (if fgt (val_bal_acc env vl e (net s')) (global_best_avg_acc s)
          then [Save best_model_path (net s')] else [])"
    and fl: "files s' = (if fgt (val_bal_acc env vl e (net s')) (global_best_avg_acc s)
                 then ((files s)(checkpoint_path p \<mapsto> net s'))(best_model_path \<mapsto> net s')
                 else (files s)(checkpoint_path p \<mapsto> net s'))"
    and nd: "\<not> dry_ryn p"
    by blast
  from fl have "files s' (checkpoint_path p) = Some (net s')" by simp
  moreover have "filter is_save (evs @ [Csv e tl ta tb vls vac (val_bal_acc env vl e (net s'))]) = []"
    using f by simp
  moreover have "trace s' = trace s
       @ (evs @ [Csv e tl ta tb vls vac (val_bal_acc env vl e (net s'))])
       @ Save (checkpoint_path p) (net s')
         # (if fgt (val_bal_acc env vl e (net s')) (global_best_avg_acc s)
            then [Save best_model_path (net s')] else [])"
    using t by simp
  ultimately show ?thesis using nd by blast
qed

lemma epoch_checkpoint_count:
  fixes env :: "('x, 'm, 'o) env"
  assumes "epoch_body env p trl vl e s = (s', Inr Continue)"
    and "checkpoint_path p \<noteq> best_model_path"
  shows "filter (saves_to (checkpoint_path p)) (trace s')
     = filter (saves_to (checkpoint_path p)) (trace s) @ [Save (checkpoint_path p) (net s')]"
proof -
  from epoch_checkpoint [OF assms(1)] obtain evs where
    f: "filter is_save evs = []"
    and t: "trace s' = trace s @ evs @ Save (checkpoint_path p) (net s')
              # (if fgt (val_bal_acc env vl e (net s')) (global_best_avg_acc s)
                 then [Save best_model_path (net s')] else [])"
    by blast
  from f have "filter (saves_to (checkpoint_path p)) evs = []" by (rule filter_saves_to_empty)
  then show ?thesis using t assms(2) by simp
qed

lemma epoch_loop_checkpoints:
  fixes env :: "('x, 'm, 'o) env"
  assumes "\<not> dry_ryn p" "checkpoint_path p \<noteq> best_model_path"
    and "epoch_loop env p trl vl es s = (s', Inr ())"
  shows "length (filter (saves_to (checkpoint_path p)) (trace s'))
     = length (filter (saves_to (checkpoint_path p)) (trace s)) + length es"
  using assms(3)
proof (induction es arbitrary: s)
  case Nil
  then show ?case by simp
next
  case (Cons e es)
  obtain s1 r where eb: "epoch_body env p trl vl e s = (s1, r)"
    by (cases "epoch_body env p trl vl e s")
  show ?case
  proof (cases r)
    case (Inl err)
    with eb Cons.prems show ?thesis by simp
  next
    case (Inr fl)
    show ?thesis
    proof (cases fl)
      case Continue
      with eb Inr Cons.prems have "epoch_loop env p trl vl es s1 = (s', Inr ())" by simp
      from Cons.IH [OF this] epoch_checkpoint_count [OF _ assms(2), of env trl vl e s s1]
        eb Inr Continue
      show ?thesis by simp
    next
      case Break
      with eb Inr epoch_body_Break [of env p trl vl e s s1] assms(1) show ?thesis by simp
    qed
  qed
qed

lemma train_checkpoints:
  fixes env :: "('x, 'm, 'o) env"
  assumes "\<not> dry_ryn p" "checkpoint_path p \<noteq> best_model_path"
    and "train env p fs = (sf, Inr ())"
  shows "length (filter (saves_to (checkpoint_path p)) (trace sf)) = nat (epochs p)"
proof (cases rule: train_cases [of env p fs])
  case (finished trl vl s0 s1)
  have "filter is_save (trace s0) = filter is_save (trace (init_state env p fs))"
    using untouched_resume [of "init_state env p fs" p] finished(3) by (simp add: untouched_def)
  then have "filter (saves_to (checkpoint_path p)) (trace s0)
      = filter (saves_to (checkpoint_path p)) (trace (init_state env p fs))"
    by (rule filter_saves_to_same)
  then have 0: "filter (saves_to (checkpoint_path p)) (trace s0) = []"
    by (simp add: init_state_def)
  from epoch_loop_checkpoints [OF assms(1,2) finished(4)] 0
  have "length (filter (saves_to (checkpoint_path p)) (trace s1)) = nat (epochs p)" by simp
  moreover from finished(5) assms(3) have
    "sf = emit (PrintSummary (global_best_loss s1) (global_best_acc s1) (global_best_avg_acc s1)) s1"
    by simp
  ultimately show ?thesis by (simp add: emit_def)
qed (use assms(3) in simp_all)

lemma epoch_loop_returns:
  fixes env :: "('x, 'm, 'o) env"
  assumes "net_ok env C" "sampler_ok env" "labels_ok (samples trl) C" "labels_ok (samples vl) C"
    and "\<not> dry_ryn p"
    and "\<forall>e. iterate (sampler env TrainP e) trl \<noteq> []
           \<and> list_all (\<lambda>b. length b \<noteq> 1) (iterate (sampler env TrainP e) trl)
           \<and> iterate (sampler env ValidationP e) vl \<noteq> []
           \<and> list_all (\<lambda>b. length b \<noteq> 1) (iterate (sampler env ValidationP e) vl)"
  shows "snd (epoch_loop env p trl vl es s) = Inr ()"
proof (induction es arbitrary: s)
  case Nil
  then show ?case by simp
next
  case (Cons e es)
  from assms(6) have "iterate (sampler env TrainP e) trl \<noteq> []"
    "list_all (\<lambda>b. length b \<noteq> 1) (iterate (sampler env TrainP e) trl)"
    "iterate (sampler env ValidationP e) vl \<noteq> []"
    "list_all (\<lambda>b. length b \<noteq> 1) (iterate (sampler env ValidationP e) vl)"
    by blast+
  from epoch_returns [OF assms(1-5) this, of s]
  obtain s1 where "epoch_body env p trl vl e s = (s1, Inr Continue)"
    by (cases "epoch_body env p trl vl e s") auto
  then show ?case using Cons.IH [of s1] by simp
qed

lemma train_returns:
  fixes env :: "('x, 'm, 'o) env"
  assumes "net_ok env C" "sampler_ok env"
    and "labels_ok (dataset_loader env TrainP) C" "labels_ok (dataset_loader env ValidationP) C"
    and "\<not> dry_ryn p"
    and "train_loader_of env p = Inr trl" "validation_loader_of env p = Inr vl"
    and "last_checkpoint p = [] \<or> fs (last_checkpoint p) \<noteq> None"
    and "\<forall>e. iterate (sampler env TrainP e) trl \<noteq> []
           \<and> list_all (\<lambda>b. length b \<noteq> 1) (iterate (sampler env TrainP e) trl)
           \<and> iterate (sampler env ValidationP e) vl \<noteq> []
           \<and> list_all (\<lambda>b. length b \<noteq> 1) (iterate (sampler env ValidationP e) vl)"
  shows "snd (train env p fs) = Inr ()"
proof (cases rule: train_cases [of env p fs])
  case (loader_error e)
  then show ?thesis using assms(6,7) by auto
next
  case (resume_error trl' vl' s0 e)
  from resume_ok [of p "init_state env p fs"] assms(8)
  have "snd (resume p (init_state env p fs)) = Inr ()" by (simp add: init_state_def)
  with resume_error(3) show ?thesis by simp
next
  case (loop_error trl' vl' s0 s1 e)
  from loop_error(1,2) assms(6,7) have tv: "trl' = trl" "vl' = vl" by simp_all
  have "samples trl = dataset_loader env TrainP" "samples vl = dataset_loader env ValidationP"
    using assms(6,7) unfolding train_loader_of_def validation_loader_of_def
    by (auto dest!: DataLoader_Inr)
  with assms(3,4) have l: "labels_ok (samples trl) C" "labels_ok (samples vl) C" by simp_all
  from epoch_loop_returns [OF assms(1,2) l assms(5,9), of "[0..<nat (epochs p)]" s0]
    loop_error(4) tv
  show ?thesis by simp
next
  case (finished trl' vl' s0 s1)
  then show ?thesis by simp
qed

text \<open>
  Epochs that complete. An epoch of a run that is not a dry run never leaves the loop early: it
  completes or raises. An epoch that completes belongs to such a run, and has written
  the current parameters of the model to the checkpoint path, after the metrics row and
  before the comparison with the best balanced accuracy, whether the comparison then
  succeeds or not; the file at the checkpoint path then holds these parameters. So a
  run that is not a dry run and that returns has saved to the checkpoint path once per
  epoch. An epoch that raises in one of its passes has saved nothing. An epoch
  completes when the model and the labels are well formed and both passes have a batch
  and no batch of exactly one sample; when this holds of every epoch, the loaders are
  built and the checkpoint to resume from, if any, exists, the run returns.
\<close>

lemma checkpoint_every_epoch:
  "(\<not> dry_ryn p \<longrightarrow> snd (epoch_body env p trl vl e s) \<noteq> Inr Break)
   \<and> (epoch_body env p trl vl e s = (s', Inr Continue) \<longrightarrow>
         \<not> dry_ryn p
       \<and> files s' (checkpoint_path p) = Some (net s')
       \<and> (\<exists>evs. filter is_save evs = []
             \<and> trace s' = trace s @ evs @ Save (checkpoint_path p) (net s')
                 # (if fgt (val_bal_acc env vl e (net s')) (global_best_avg_acc s)
                    then [Save best_model_path (net s')] else []))
       \<and> (checkpoint_path p \<noteq> best_model_path \<longrightarrow>
            filter (saves_to (checkpoint_path p)) (trace s')
              = filter (saves_to (checkpoint_path p)) (trace s)
                @ [Save (checkpoint_path p) (net s')]))
   \<and> (epoch_body env p trl vl e s = (s', Inl err) \<longrightarrow>
         filter is_save (trace s') = filter is_save (trace s) \<and> files s' = files s)
   \<and> (\<not> dry_ryn p \<and> checkpoint_path p \<noteq> best_model_path \<and> train env p fs = (sf, Inr ()) \<longrightarrow>
         length (filter (saves_to (checkpoint_path p)) (trace sf)) = nat (epochs p))
   \<and> (net_ok env C \<and> sampler_ok env \<and> labels_ok (samples trl) C \<and> labels_ok (samples vl) C
        \<and> \<not> dry_ryn p
        \<and> iterate (sampler env TrainP e) trl \<noteq> []
        \<and> list_all (\<lambda>b. length b \<noteq> 1) (iterate (sampler env TrainP e) trl)
        \<and> iterate (sampler env ValidationP e) vl \<noteq> []
        \<and> list_all (\<lambda>b. length b \<noteq> 1) (iterate (sampler env ValidationP e) vl)
      \<longrightarrow> snd (epoch_body env p trl vl e s) = Inr Continue)
   \<and> (net_ok env C \<and> sampler_ok env
        \<and> labels_ok (dataset_loader env TrainP) C \<and> labels_ok (dataset_loader env ValidationP) C
        \<and> \<not> dry_ryn p
        \<and> train_loader_of env p = Inr trl \<and> validation_loader_of env p = Inr vl
        \<and> (last_checkpoint p = [] \<or> fs (last_checkpoint p) \<noteq> None)
        \<and> (\<forall>k. iterate (sampler env TrainP k) trl \<noteq> []
               \<and> list_all (\<lambda>b. length b \<noteq> 1) (iterate (sampler env TrainP k) trl)
               \<and> iterate (sampler env ValidationP k) vl \<noteq> []
               \<and> list_all (\<lambda>b. length b \<noteq> 1) (iterate (sampler env ValidationP k) vl))
      \<longrightarrow> snd (train env p fs) = Inr ())"
proof (intro conjI impI)
  assume "\<not> dry_ryn p"
  then show "snd (epoch_body env p trl vl e s) \<noteq> Inr Break"
    using epoch_body_Break [of env p trl vl e s "fst (epoch_body env p trl vl e s)"]
    by (cases "epoch_body env p trl vl e s") auto
next
  assume a: "epoch_body env p trl vl e s = (s', Inr Continue)"
  from epoch_checkpoint [OF a] show "\<not> dry_ryn p"
    and "files s' (checkpoint_path p) = Some (net s')"
    and "\<exists>evs. filter is_save evs = []
             \<and> trace s' = trace s @ evs @ Save (checkpoint_path p) (net s')
                 # (if fgt (val_bal_acc env vl e (net s')) (global_best_avg_acc s)
                    then [Save best_model_path (net s')] else [])"
    by blast+
  assume "checkpoint_path p \<noteq> best_model_path"
  with a show "filter (saves_to (checkpoint_path p)) (trace s')
              = filter (saves_to (checkpoint_path p)) (trace s)
                @ [Save (checkpoint_path p) (net s')]"
    by (rule epoch_checkpoint_count)
next
  assume a: "epoch_body env p trl vl e s = (s', Inl err)"
  from epoch_not_completed [OF a] show "filter is_save (trace s') = filter is_save (trace s)"
    and "files s' = files s"
    by (simp_all add: nothing_saved_def)
next
  assume "\<not> dry_ryn p \<and> checkpoint_path p \<noteq> best_model_path \<and> train env p fs = (sf, Inr ())"
  then show "length (filter (saves_to (checkpoint_path p)) (trace sf)) = nat (epochs p)"
    using train_checkpoints [of p env fs sf] by blast
next
  assume "net_ok env C \<and> sampler_ok env \<and> labels_ok (samples trl) C \<and> labels_ok (samples vl) C
        \<and> \<not> dry_ryn p
        \<and> iterate (sampler env TrainP e) trl \<noteq> []
        \<and> list_all (\<lambda>b. length b \<noteq> 1) (iterate (sampler env TrainP e) trl)
        \<and> iterate (sampler env ValidationP e) vl \<noteq> []
        \<and> list_all (\<lambda>b. length b \<noteq> 1) (iterate (sampler env ValidationP e) vl)"
  then show "snd (epoch_body env p trl vl e s) = Inr Continue"
    using epoch_returns [of env C trl vl p e s] by blast
next
  assume "net_ok env C \<and> sampler_ok env
        \<and> labels_ok (dataset_loader env TrainP) C \<and> labels_ok (dataset_loader env ValidationP) C
        \<and> \<not> dry_ryn p
        \<and> train_loader_of env p = Inr trl \<and> validation_loader_of env p = Inr vl
        \<and> (last_checkpoint p = [] \<or> fs (last_checkpoint p) \<noteq> None)
        \<and> (\<forall>k. iterate (sampler env TrainP k) trl \<noteq> []
               \<and> list_all (\<lambda>b. length b \<noteq> 1) (iterate (sampler env TrainP k) trl)
               \<and> iterate (sampler env ValidationP k) vl \<noteq> []
               \<and> list_all (\<lambda>b. length b \<noteq> 1) (iterate (sampler env ValidationP k) vl))"
  then show "snd (train env p fs) = Inr ()"
    using train_returns [of env C p trl vl fs] by blast
qed



lemma toy_every_epoch:
  "iterate (sampler toy_env TrainP k)
       \<lparr>samples = dataset_loader toy_env TrainP, bsize = 2, drop_last = True\<rparr>
     = [[(0, 0), (1, 1)], [(2, 0), (3, 1)], [(4, 0), (5, 1)]]"
  "iterate (sampler toy_env ValidationP k)
       \<lparr>samples = dataset_loader toy_env ValidationP, bsize = 3, drop_last = False\<rparr>
     = [[(7, 1), (8, 0), (9, 0)], [(10, 0), (11, 1)]]"
  using toy_batches(1,2) by (simp_all add: iterate_def) (simp_all add: toy_env_def)

text \<open>
  The small example with three epochs: the run returns with three saves to the checkpoint
  path, and after the first epoch the file there holds the parameters of that moment.
\<close>

lemma checkpoint_every_epoch_witness:
  "\<not> dry_ryn (toy_params False 3)
   \<and> checkpoint_path (toy_params False 3) \<noteq> best_model_path
   \<and> snd (train toy_env (toy_params False 3) Map.empty) = Inr ()
   \<and> length (filter (saves_to (checkpoint_path (toy_params False 3)))
        (trace (fst (train toy_env (toy_params False 3) Map.empty)))) = 3
   \<and> snd (epoch_body toy_env (toy_params False 3)
          \<lparr>samples = dataset_loader toy_env TrainP, bsize = 2, drop_last = True\<rparr>
          \<lparr>samples = dataset_loader toy_env ValidationP, bsize = 3, drop_last = False\<rparr>
          0 (init_state toy_env (toy_params False 3) Map.empty)) = Inr Continue
   \<and> files (fst (epoch_body toy_env (toy_params False 3)
          \<lparr>samples = dataset_loader toy_env TrainP, bsize = 2, drop_last = True\<rparr>
          \<lparr>samples = dataset_loader toy_env ValidationP, bsize = 3, drop_last = False\<rparr>
          0 (init_state toy_env (toy_params False 3) Map.empty)))
        ''./tmp/output/checkpoint.t7'' = Some 3
   \<and> filter (saves_to ''./tmp/output/checkpoint.t7'')
        (trace (fst (epoch_body toy_env (toy_params False 3)
          \<lparr>samples = dataset_loader toy_env TrainP, bsize = 2, drop_last = True\<rparr>
          \<lparr>samples = dataset_loader toy_env ValidationP, bsize = 3, drop_last = False\<rparr>
          0 (init_state toy_env (toy_params False 3) Map.empty))))
       = [Save ''./tmp/output/checkpoint.t7'' 3]"
proof -
  define s0 where "s0 = init_state toy_env (toy_params False 3) Map.empty"
  define trl where "trl = \<lparr>samples = dataset_loader toy_env TrainP, bsize = 2, drop_last = True\<rparr>"
  define vl where
    "vl = \<lparr>samples = dataset_loader toy_env ValidationP, bsize = 3, drop_last = False\<rparr>"
  define s1 where "s1 = fst (epoch_body toy_env (toy_params False 3) trl vl 0 s0)"
  define sf where "sf = fst (train toy_env (toy_params False 3) Map.empty)"
  note T = checkpoint_every_epoch [of "toy_params False 3" toy_env trl vl 0 s0 s1 ValueError
      Map.empty sf 2]
  have nd: "\<not> dry_ryn (toy_params False 3)" by (simp add: toy_params_def)
  have cp: "checkpoint_path (toy_params False 3) = ''./tmp/output/checkpoint.t7''"
    by (simp add: toy_params_def)
  have ne: "checkpoint_path (toy_params False 3) \<noteq> best_model_path"
    by (simp add: toy_params_def best_model_path_def)
  have lc: "last_checkpoint (toy_params False 3) = []" by (simp add: toy_params_def)
  have ld: "train_loader_of toy_env (toy_params False 3) = Inr trl"
    "validation_loader_of toy_env (toy_params False 3) = Inr vl"
    using toy_loaders(1,2) [of False 3] by (simp_all add: trl_def vl_def)
  have la: "labels_ok (dataset_loader toy_env TrainP) 2"
    "labels_ok (dataset_loader toy_env ValidationP) 2"
    "labels_ok (samples trl) 2" "labels_ok (samples vl) 2"
    using toy_labels_ok [of TrainP] toy_labels_ok [of ValidationP] by (simp_all add: trl_def vl_def)
  have ev: "\<forall>k. iterate (sampler toy_env TrainP k) trl \<noteq> []
               \<and> list_all (\<lambda>b. length b \<noteq> 1) (iterate (sampler toy_env TrainP k) trl)
               \<and> iterate (sampler toy_env ValidationP k) vl \<noteq> []
               \<and> list_all (\<lambda>b. length b \<noteq> 1) (iterate (sampler toy_env ValidationP k) vl)"
    unfolding trl_def vl_def toy_every_epoch by simp
  have run: "snd (train toy_env (toy_params False 3) Map.empty) = Inr ()"
    using T toy_net_ok toy_sampler_ok la(1,2) nd ld lc ev by blast
  then have "train toy_env (toy_params False 3) Map.empty = (sf, Inr ())"
    by (simp add: sf_def prod_eq_iff)
  with T nd ne have
    "length (filter (saves_to (checkpoint_path (toy_params False 3))) (trace sf))
      = nat (epochs (toy_params False 3))" by blast
  then have n: "length (filter (saves_to (checkpoint_path (toy_params False 3))) (trace sf)) = 3"
    by (simp add: toy_params_def)
  have ep: "snd (epoch_body toy_env (toy_params False 3) trl vl 0 s0) = Inr Continue"
    using T toy_net_ok toy_sampler_ok la(3,4) nd ev by blast
  then have eb: "epoch_body toy_env (toy_params False 3) trl vl 0 s0 = (s1, Inr Continue)"
    by (simp add: s1_def prod_eq_iff)
  have nt: "net s1 = 3" using toy_epoch0_net by (simp add: s1_def s0_def trl_def vl_def)
  from T eb ne have "files s1 (checkpoint_path (toy_params False 3)) = Some (net s1)"
    and "filter (saves_to (checkpoint_path (toy_params False 3))) (trace s1)
       = filter (saves_to (checkpoint_path (toy_params False 3))) (trace s0)
         @ [Save (checkpoint_path (toy_params False 3)) (net s1)]"
    by blast+
  then have f: "files s1 ''./tmp/output/checkpoint.t7'' = Some 3"
    and t: "filter (saves_to ''./tmp/output/checkpoint.t7'') (trace s1)
       = [Save ''./tmp/output/checkpoint.t7'' 3]"
    by (simp_all add: cp nt s0_def init_state_def)
  show ?thesis
    using nd ne run n ep f t unfolding s0_def trl_def vl_def s1_def sf_def by blast
qed

section \<open>The batch of a dry run\<close>

lemma scheduler_step_frame:
  "net (scheduler_step s) = net s" "opt (scheduler_step s) = opt s"
  by (simp_all add: scheduler_step_def emit_def Let_def)

lemma train_batch_dry_first:
  assumes "dry_ryn p" "iterate (sampler env TrainP e) trl = b # bs"
  shows "(\<forall>err. batch_loss env True (net s) b = Inl err \<longrightarrow>
            snd (train_batch env p trl e s) = Inl err
          \<and> opt (fst (train_batch env p trl e s)) = opt s
          \<and> net (fst (train_batch env p trl e s)) = net s)
     \<and> (\<forall>l. batch_loss env True (net s) b = Inr l \<longrightarrow>
            opt (fst (train_batch env p trl e s))
              = fst (backward_step env (cur_lr (scheduler_step s)) (opt s) (net s)
                       (map fst b) (map snd b))
          \<and> net (fst (train_batch env p trl e s))
              = snd (backward_step env (cur_lr (scheduler_step s)) (opt s) (net s)
                       (map fst b) (map snd b)))
     \<and> (\<forall>l err. batch_loss env True (net s) b = Inr l
            \<and> batch_preds env True (net s) b = Inl err \<longrightarrow>
            snd (train_batch env p trl e s) = Inl err)
     \<and> (\<forall>l q. batch_loss env True (net s) b = Inr l
            \<and> batch_preds env True (net s) b = Inr q \<longrightarrow>
            (if length b = 1 then snd (train_batch env p trl e s) = Inl ValueError
             else \<exists>loss. snd (train_batch env p trl e s) = Inr (loss, map snd b, flat q)))"
proof -
  have ne: "b \<noteq> []"
    using iterate_nonempty_batches [of "sampler env TrainP e" trl] assms(2) by simp
  then have c: "Fin (real (length b)) \<noteq> Fin 0" by simp
  have q0: "\<not> is_arr0 q" if "batch_preds env True (net s) b = Inr q" for q
    using that by (rule batch_preds_not_arr0)
  show ?thesis
    unfolding train_batch_def assms(2) train_loop_Cons
    using assms(1) c q0
    by (auto simp: scheduler_step_frame emit_def accumulate_def accum0_def np_concatenate_def
        is_arr0_squeeze py_truediv_def split: sum.splits)
qed

lemma dry_run_trace:
  assumes "dry_ryn p"
  shows "length (train_batches (trace (fst (train env p fs)))) \<le> 1
     \<and> val_batches (trace (fst (train env p fs))) = []
     \<and> filter is_save (trace (fst (train env p fs))) = []
     \<and> files (fst (train env p fs)) = fs
     \<and> global_best_loss (fst (train env p fs)) = Fin 0
     \<and> global_best_acc (fst (train env p fs)) = Fin 0
     \<and> global_best_avg_acc (fst (train env p fs)) = Fin 0
     \<and> (train_loader_of env p = Inr trl \<and> validation_loader_of env p = Inr vl
          \<and> (last_checkpoint p = [] \<or> fs (last_checkpoint p) \<noteq> None)
          \<and> 0 < epochs p \<and> iterate (sampler env TrainP 0) trl = b # bs
        \<longrightarrow> trace (fst (train env p fs))
              = [LogModel (select_model p)]
                @ (if last_checkpoint p \<noteq> [] then [Load (last_checkpoint p)] else [])
                @ [SchedulerStep, TrainBatch b]
                @ (if snd (train env p fs) = Inr ()
                   then [PrintSummary (Fin 0) (Fin 0) (Fin 0)] else []))"
proof -
  define i where "i = init_state env p fs"
  have i: "files i = fs" "global_best_loss i = Fin 0" "global_best_acc i = Fin 0"
    "global_best_avg_acc i = Fin 0" "trace i = [LogModel (select_model p)]"
    using untouched_init [of env p fs] by (simp_all add: i_def)
  define s0 where "s0 = fst (resume p i)"
  have u0: "untouched i s0" unfolding s0_def by (rule untouched_resume)
  have t0: "train_batches (trace s0) = []"
    using resume_frame [of p i s0 "snd (resume p i)"] i(5) by (auto simp: s0_def)
  have loop: "untouched s0 (fst (epoch_loop env p trl' vl' es s0))
      \<and> length (train_batches (trace (fst (epoch_loop env p trl' vl' es s0)))) \<le> 1"
    for trl' vl' es
  proof (cases es)
    case Nil
    then show ?thesis using t0 by (simp add: untouched_refl)
  next
    case (Cons e es')
    from train_batch_dry [OF assms, of env trl' e s0] obtain o' m' where
      "fst (train_batch env p trl' e s0)
       = s0\<lparr>net := m', opt := o', cur_lr := cur_lr (scheduler_step s0),
            scheduler := scheduler (scheduler_step s0),
            trace := trace s0 @ SchedulerStep
                       # map TrainBatch (take 1 (iterate (sampler env TrainP e) trl'))\<rparr>"
      by blast
    then show ?thesis
      unfolding Cons epoch_loop_dry [OF assms] using t0 by (simp add: untouched_def)
  qed
  have exact: "trace (fst (epoch_loop env p trl vl' [0..<nat (epochs p)] s0))
      = trace s0 @ [SchedulerStep, TrainBatch b]"
    if "0 < epochs p" "iterate (sampler env TrainP 0) trl = b # bs" for vl'
  proof -
    from that(1) have "[0..<nat (epochs p)] = 0 # [Suc 0..<nat (epochs p)]"
      by (simp add: upt_conv_Cons)
    then have "fst (epoch_loop env p trl vl' [0..<nat (epochs p)] s0)
        = fst (train_batch env p trl 0 s0)"
      using epoch_loop_dry [OF assms, of env trl vl' 0 "[Suc 0..<nat (epochs p)]" s0]
      by (simp only:)
    moreover from train_batch_dry [OF assms, of env trl 0 s0] obtain o' m' where
      "fst (train_batch env p trl 0 s0)
       = s0\<lparr>net := m', opt := o', cur_lr := cur_lr (scheduler_step s0),
            scheduler := scheduler (scheduler_step s0),
            trace := trace s0 @ SchedulerStep
                       # map TrainBatch (take 1 (iterate (sampler env TrainP 0) trl))\<rparr>"
      by blast
    ultimately show ?thesis
      using that(2) by simp
  qed
  show ?thesis
  proof (cases rule: train_cases [of env p fs])
    case (loader_error e)
    then show ?thesis using i by (auto simp: i_def)
  next
    case (resume_error trl' vl' s0' e)
    then have "s0' = i" using resume_frame [of p i s0' "Inl e"] by (simp add: i_def)
    moreover have "\<not> (last_checkpoint p = [] \<or> fs (last_checkpoint p) \<noteq> None)"
    proof
      assume "last_checkpoint p = [] \<or> fs (last_checkpoint p) \<noteq> None"
      then have "snd (resume p i) = Inr ()" using resume_ok [of p i] i(1) by simp
      with resume_error(3) show False by (simp add: i_def)
    qed
    ultimately show ?thesis using resume_error(4) i by simp
  next
    case (loop_error trl' vl' s0' s1 e)
    then have s0': "s0' = s0" and r0: "snd (resume p i) = Inr ()" by (simp_all add: s0_def i_def)
    from loop_error(4) have s1: "s1 = fst (epoch_loop env p trl' vl' [0..<nat (epochs p)] s0)"
      by (simp add: s0')
    have u: "untouched i s1" and l: "length (train_batches (trace s1)) \<le> 1"
      using loop [of trl' vl' "[0..<nat (epochs p)]"] u0 untouched_trans unfolding s1 by blast+
    have e: "trace s1 = [LogModel (select_model p)]
                @ (if last_checkpoint p \<noteq> [] then [Load (last_checkpoint p)] else [])
                @ [SchedulerStep, TrainBatch b]"
      if "train_loader_of env p = Inr trl" "0 < epochs p" "iterate (sampler env TrainP 0) trl = b # bs"
      using exact [OF that(2,3), of vl'] that(1) loop_error(1) resume_trace [OF r0] i(5)
      unfolding s1 s0_def by simp
    show ?thesis
      unfolding loop_error(5) using u l i e by (auto simp: untouched_def)
  next
    case (finished trl' vl' s0' s1)
    then have s0': "s0' = s0" and r0: "snd (resume p i) = Inr ()" by (simp_all add: s0_def i_def)
    from finished(4) have s1: "s1 = fst (epoch_loop env p trl' vl' [0..<nat (epochs p)] s0)"
      by (simp add: s0')
    have u: "untouched i s1" and l: "length (train_batches (trace s1)) \<le> 1"
      using loop [of trl' vl' "[0..<nat (epochs p)]"] u0 untouched_trans unfolding s1 by blast+
    have e: "trace s1 = [LogModel (select_model p)]
                @ (if last_checkpoint p \<noteq> [] then [Load (last_checkpoint p)] else [])
                @ [SchedulerStep, TrainBatch b]"
      if "train_loader_of env p = Inr trl" "0 < epochs p" "iterate (sampler env TrainP 0) trl = b # bs"
      using exact [OF that(2,3), of vl'] that(1) finished(1) resume_trace [OF r0] i(5)
      unfolding s1 s0_def by simp
    show ?thesis
      unfolding finished(5) using u l i e by (auto simp: untouched_def emit_def)
  qed
qed


lemma entry_state_rate: "cur_lr (scheduler_step (entry_state env p fs)) = lr p"
proof -
  have "lr_inv (lr p) (entry_state env p fs)"
    unfolding entry_state_def using lr_inv_init by (rule lr_inv_resume)
  then show ?thesis
    using cur_lr_scheduler_step [of "entry_state env p fs"] by (simp add: lr_inv_def)
qed

lemma train_dry_first_epoch:
  assumes "dry_ryn p" "train_loader_of env p = Inr trl" "validation_loader_of env p = Inr vl"
    and "last_checkpoint p = [] \<or> fs (last_checkpoint p) \<noteq> None" "0 < epochs p"
  shows "net (fst (train env p fs)) = net (fst (train_batch env p trl 0 (entry_state env p fs)))"
    and "opt (fst (train env p fs)) = opt (fst (train_batch env p trl 0 (entry_state env p fs)))"
    and "snd (train env p fs)
       = (case snd (train_batch env p trl 0 (entry_state env p fs)) of
            Inl err \<Rightarrow> Inl err | Inr t \<Rightarrow> Inr ())"
proof -
  have "snd (resume p (init_state env p fs)) = Inr ()"
    using resume_ok [of p "init_state env p fs"] assms(4) by (simp add: init_state_def)
  then have r: "resume p (init_state env p fs) = (entry_state env p fs, Inr ())"
    by (simp add: entry_state_def prod_eq_iff)
  from assms(5) have u: "[0..<nat (epochs p)] = 0 # [Suc 0..<nat (epochs p)]"
    by (simp add: upt_conv_Cons)
  obtain s1 r1 where tb: "train_batch env p trl 0 (entry_state env p fs) = (s1, r1)"
    by (cases "train_batch env p trl 0 (entry_state env p fs)")
  have "net (fst (train env p fs)) = net s1 \<and> opt (fst (train env p fs)) = opt s1
      \<and> snd (train env p fs) = (case r1 of Inl err \<Rightarrow> Inl err | Inr t \<Rightarrow> Inr ())"
    unfolding train_def assms(2,3) u
    using r tb assms(1) by (cases r1) (simp_all add: epoch_body_def emit_def)
  then show "net (fst (train env p fs)) = net (fst (train_batch env p trl 0 (entry_state env p fs)))"
    and "opt (fst (train env p fs)) = opt (fst (train_batch env p trl 0 (entry_state env p fs)))"
    and "snd (train env p fs)
       = (case snd (train_batch env p trl 0 (entry_state env p fs)) of
            Inl err \<Rightarrow> Inl err | Inr t \<Rightarrow> Inr ())"
    by (simp_all add: tb)
qed

lemma dry_run_step:
  assumes "dry_ryn p" "train_loader_of env p = Inr trl" "validation_loader_of env p = Inr vl"
    and "last_checkpoint p = [] \<or> fs (last_checkpoint p) \<noteq> None" "0 < epochs p"
    and "iterate (sampler env TrainP 0) trl = b # bs"
  shows "(\<forall>err. batch_loss env True (net (entry_state env p fs)) b = Inl err \<longrightarrow>
            snd (train env p fs) = Inl err
          \<and> opt (fst (train env p fs)) = opt (entry_state env p fs)
          \<and> net (fst (train env p fs)) = net (entry_state env p fs))
     \<and> (\<forall>l. batch_loss env True (net (entry_state env p fs)) b = Inr l \<longrightarrow>
            opt (fst (train env p fs))
              = fst (backward_step env (lr p) (opt (entry_state env p fs))
                       (net (entry_state env p fs)) (map fst b) (map snd b))
          \<and> net (fst (train env p fs))
              = snd (backward_step env (lr p) (opt (entry_state env p fs))
                       (net (entry_state env p fs)) (map fst b) (map snd b)))
     \<and> (snd (train env p fs) = Inr ()
          \<longleftrightarrow> (\<exists>l q. batch_loss env True (net (entry_state env p fs)) b = Inr l
                   \<and> batch_preds env True (net (entry_state env p fs)) b = Inr q)
              \<and> length b \<noteq> 1)"
proof -
  note f = train_dry_first_epoch [where fs = fs, OF assms(1-5)]
  note t = train_batch_dry_first [OF assms(1,6), of "entry_state env p fs",
      unfolded entry_state_rate]
  show ?thesis
  proof (cases "batch_loss env True (net (entry_state env p fs)) b")
    case (Inl err)
    with t show ?thesis unfolding f by simp
  next
    case l: (Inr l)
    show ?thesis
    proof (cases "batch_preds env True (net (entry_state env p fs)) b")
      case (Inl err)
      with l t show ?thesis unfolding f by simp
    next
      case (Inr q)
      with l t show ?thesis unfolding f by (cases "length b = 1") auto
    qed
  qed
qed

text \<open>
  Claim C3. In a dry run, whatever the inputs, a training run goes through at most one
  training batch, through no validation batch, saves nothing, writes no file and leaves
  the three best values at 0. When the loaders are built, the resumption succeeds, the
  epoch count is positive and the training loader delivers a batch \<open>b\<close>, the run goes
  through exactly this batch after one scheduler step, and nothing follows it but the
  final summary of a run that did not raise. This batch is executed: when its loss is
  computed, the run ends with the optimizer and the parameters that the backward pass
  and the optimizer step at the configured rate make, on this batch, of those the run
  entered its loop with; when its loss raises, the run raises the same and leaves both
  as they were. The run returns exactly when the loss and the predictions of the batch
  are computed and the batch has more than one sample.
\<close>

theorem dry_run_single_batch:
  assumes "dry_ryn p"
  shows "length (train_batches (trace (fst (train env p fs)))) \<le> 1
     \<and> val_batches (trace (fst (train env p fs))) = []
     \<and> filter is_save (trace (fst (train env p fs))) = []
     \<and> files (fst (train env p fs)) = fs
     \<and> global_best_loss (fst (train env p fs)) = Fin 0
     \<and> global_best_acc (fst (train env p fs)) = Fin 0
     \<and> global_best_avg_acc (fst (train env p fs)) = Fin 0
     \<and> (train_loader_of env p = Inr trl \<and> validation_loader_of env p = Inr vl
          \<and> (last_checkpoint p = [] \<or> fs (last_checkpoint p) \<noteq> None)
          \<and> 0 < epochs p \<and> iterate (sampler env TrainP 0) trl = b # bs
        \<longrightarrow> trace (fst (train env p fs))
              = [LogModel (select_model p)]
                @ (if last_checkpoint p \<noteq> [] then [Load (last_checkpoint p)] else [])
                @ [SchedulerStep, TrainBatch b]
                @ (if snd (train env p fs) = Inr ()
                   then [PrintSummary (Fin 0) (Fin 0) (Fin 0)] else [])
            \<and> (\<forall>err. batch_loss env True (net (entry_state env p fs)) b = Inl err \<longrightarrow>
                  snd (train env p fs) = Inl err
                \<and> opt (fst (train env p fs)) = opt (entry_state env p fs)
                \<and> net (fst (train env p fs)) = net (entry_state env p fs))
            \<and> (\<forall>l. batch_loss env True (net (entry_state env p fs)) b = Inr l \<longrightarrow>
                  opt (fst (train env p fs))
                    = fst (backward_step env (lr p) (opt (entry_state env p fs))
                             (net (entry_state env p fs)) (map fst b) (map snd b))
                \<and> net (fst (train env p fs))
                    = snd (backward_step env (lr p) (opt (entry_state env p fs))
                             (net (entry_state env p fs)) (map fst b) (map snd b)))
            \<and> (snd (train env p fs) = Inr ()
                \<longleftrightarrow> (\<exists>l q. batch_loss env True (net (entry_state env p fs)) b = Inr l
                         \<and> batch_preds env True (net (entry_state env p fs)) b = Inr q)
                    \<and> length b \<noteq> 1))"
proof -
  note old = dry_run_trace [OF assms, of env fs trl vl b bs]
  have new: "(\<forall>err. batch_loss env True (net (entry_state env p fs)) b = Inl err \<longrightarrow>
                  snd (train env p fs) = Inl err
                \<and> opt (fst (train env p fs)) = opt (entry_state env p fs)
                \<and> net (fst (train env p fs)) = net (entry_state env p fs))
            \<and> (\<forall>l. batch_loss env True (net (entry_state env p fs)) b = Inr l \<longrightarrow>
                  opt (fst (train env p fs))
                    = fst (backward_step env (lr p) (opt (entry_state env p fs))
                             (net (entry_state env p fs)) (map fst b) (map snd b))
                \<and> net (fst (train env p fs))
                    = snd (backward_step env (lr p) (opt (entry_state env p fs))
                             (net (entry_state env p fs)) (map fst b) (map snd b)))
            \<and> (snd (train env p fs) = Inr ()
                \<longleftrightarrow> (\<exists>l q. batch_loss env True (net (entry_state env p fs)) b = Inr l
                         \<and> batch_preds env True (net (entry_state env p fs)) b = Inr q)
                    \<and> length b \<noteq> 1)"
    if "train_loader_of env p = Inr trl" "validation_loader_of env p = Inr vl"
      "last_checkpoint p = [] \<or> fs (last_checkpoint p) \<noteq> None"
      "0 < epochs p" "iterate (sampler env TrainP 0) trl = b # bs"
    using dry_run_step [where fs = fs, OF assms that] .
  from old new show ?thesis by blast
qed


text \<open>
  The dry run of the small example: one scheduler step, the first batch of two samples,
  one optimizer step on it, and the summary.
\<close>

theorem dry_run_single_batch_witness:
  "dry_ryn (toy_params True 3)
   \<and> train_loader_of toy_env (toy_params True 3)
       = Inr \<lparr>samples = dataset_loader toy_env TrainP, bsize = 2, drop_last = True\<rparr>
   \<and> validation_loader_of toy_env (toy_params True 3)
       = Inr \<lparr>samples = dataset_loader toy_env ValidationP, bsize = 3, drop_last = False\<rparr>
   \<and> last_checkpoint (toy_params True 3) = []
   \<and> 0 < epochs (toy_params True 3)
   \<and> iterate (sampler toy_env TrainP 0)
        \<lparr>samples = dataset_loader toy_env TrainP, bsize = 2, drop_last = True\<rparr>
       = [(0, 0), (1, 1)] # [[(2, 0), (3, 1)], [(4, 0), (5, 1)]]
   \<and> trace (fst (train toy_env (toy_params True 3) Map.empty))
       = [LogModel DGCNN, SchedulerStep, TrainBatch [(0, 0), (1, 1)],
          PrintSummary (Fin 0) (Fin 0) (Fin 0)]
   \<and> files (fst (train toy_env (toy_params True 3) Map.empty)) = Map.empty
   \<and> global_best_avg_acc (fst (train toy_env (toy_params True 3) Map.empty)) = Fin 0
   \<and> snd (train toy_env (toy_params True 3) Map.empty) = Inr ()
   \<and> opt (entry_state toy_env (toy_params True 3) Map.empty) = 0
   \<and> net (entry_state toy_env (toy_params True 3) Map.empty) = 0
   \<and> opt (fst (train toy_env (toy_params True 3) Map.empty)) = 1
   \<and> net (fst (train toy_env (toy_params True 3) Map.empty)) = 1"
proof -
  define trl where "trl = \<lparr>samples = dataset_loader toy_env TrainP, bsize = 2, drop_last = True\<rparr>"
  define vl where
    "vl = \<lparr>samples = dataset_loader toy_env ValidationP, bsize = 3, drop_last = False\<rparr>"
  define b :: "(nat \<times> int) list" where "b = [(0, 0), (1, 1)]"
  define bs :: "(nat \<times> int) list list" where "bs = [[(2, 0), (3, 1)], [(4, 0), (5, 1)]]"
  have p: "dry_ryn (toy_params True 3)" "last_checkpoint (toy_params True 3) = []"
    "0 < epochs (toy_params True 3)" "select_model (toy_params True 3) = DGCNN"
    "lr (toy_params True 3) = 1 / 10000"
    by (simp_all add: toy_params_def select_model_def)
  have ld: "train_loader_of toy_env (toy_params True 3) = Inr trl"
    "validation_loader_of toy_env (toy_params True 3) = Inr vl"
    using toy_loaders(1,2) [of True 3] by (simp_all add: trl_def vl_def)
  have it: "iterate (sampler toy_env TrainP 0) trl = b # bs"
    using toy_batches(1) by (simp add: iterate_def toy_env_def trl_def b_def bs_def)
  have en: "opt (entry_state toy_env (toy_params True 3) Map.empty) = 0"
    "net (entry_state toy_env (toy_params True 3) Map.empty) = 0"
    by (simp_all add: entry_state_def resume_def init_state_def p(2) toy_env_def)
  note T = dry_run_single_batch [OF p(1), of toy_env Map.empty trl vl b bs]
  from T ld p(2,3) it have
    tr: "trace (fst (train toy_env (toy_params True 3) Map.empty))
              = [LogModel (select_model (toy_params True 3))]
                @ (if last_checkpoint (toy_params True 3) \<noteq> []
                   then [Load (last_checkpoint (toy_params True 3))] else [])
                @ [SchedulerStep, TrainBatch b]
                @ (if snd (train toy_env (toy_params True 3) Map.empty) = Inr ()
                   then [PrintSummary (Fin 0) (Fin 0) (Fin 0)] else [])"
    and st: "\<forall>l. batch_loss toy_env True
                   (net (entry_state toy_env (toy_params True 3) Map.empty)) b = Inr l \<longrightarrow>
                  opt (fst (train toy_env (toy_params True 3) Map.empty))
                    = fst (backward_step toy_env (lr (toy_params True 3))
                             (opt (entry_state toy_env (toy_params True 3) Map.empty))
                             (net (entry_state toy_env (toy_params True 3) Map.empty))
                             (map fst b) (map snd b))
                \<and> net (fst (train toy_env (toy_params True 3) Map.empty))
                    = snd (backward_step toy_env (lr (toy_params True 3))
                             (opt (entry_state toy_env (toy_params True 3) Map.empty))
                             (net (entry_state toy_env (toy_params True 3) Map.empty))
                             (map fst b) (map snd b))"
    and rt: "snd (train toy_env (toy_params True 3) Map.empty) = Inr ()
                \<longleftrightarrow> (\<exists>l q. batch_loss toy_env True
                            (net (entry_state toy_env (toy_params True 3) Map.empty)) b = Inr l
                         \<and> batch_preds toy_env True
                            (net (entry_state toy_env (toy_params True 3) Map.empty)) b = Inr q)
                    \<and> length b \<noteq> 1"
    by blast+
  from rt toy_dry_returns obtain l where
    "batch_loss toy_env True (net (entry_state toy_env (toy_params True 3) Map.empty)) b = Inr l"
    by blast
  with st have on: "opt (fst (train toy_env (toy_params True 3) Map.empty)) = 1"
    "net (fst (train toy_env (toy_params True 3) Map.empty)) = 1"
    by (simp_all add: en) (simp_all add: toy_env_def)
  from T have rest: "files (fst (train toy_env (toy_params True 3) Map.empty)) = Map.empty"
    "global_best_avg_acc (fst (train toy_env (toy_params True 3) Map.empty)) = Fin 0"
    by blast+
  from tr have tr': "trace (fst (train toy_env (toy_params True 3) Map.empty))
       = [LogModel DGCNN, SchedulerStep, TrainBatch [(0, 0), (1, 1)],
          PrintSummary (Fin 0) (Fin 0) (Fin 0)]"
    by (simp add: p toy_dry_returns b_def)
  show ?thesis
    using p(1,2,3) ld it tr' rest toy_dry_returns en on
    unfolding trl_def vl_def b_def bs_def by simp
qed

section \<open>Batches of one sample\<close>

text \<open>
  \<^verbatim>\<open>label.squeeze()\<close> removes every dimension of size one, so the labels of a batch of
  one sample become a zero-dimensional array, which \<^verbatim>\<open>np.concatenate\<close> refuses: the label
  arrays of a sequence of batches holding a batch of one sample cannot be concatenated.
\<close>

lemma one_sample_batch_labels:
  "list_ex (\<lambda>b. length b = 1) bs \<Longrightarrow>
   np_concatenate (map (\<lambda>b. squeeze (map snd b)) bs) = Inl ValueError"
  by (auto simp: np_concatenate_def list_ex_iff is_arr0_squeeze)

text \<open>
  Claim C4. The claim is about every pass over a non-empty sequence of batches. The
  training pass of the small example with batch size 1 goes through seven batches of one
  sample, computes the loss and the prediction of each, and then raises a
  \<^verbatim>\<open>ValueError\<close> where it concatenates the label arrays: it returns no loss and no label
  sequences. The validation pass over the five validation samples with batch size 4
  goes through a batch of four and a batch of one and raises at the same place, and so
  does the epoch.
\<close>

theorem pass_raises_on_one_sample_batch:
  "train_loader_of toy_env ((toy_params False 3)\<lparr>batch_size := 1\<rparr>)
     = Inr \<lparr>samples = dataset_loader toy_env TrainP, bsize = 1, drop_last = True\<rparr>
   \<and> iterate (sampler toy_env TrainP 0)
        \<lparr>samples = dataset_loader toy_env TrainP, bsize = 1, drop_last = True\<rparr>
     = [[(0, 0)], [(1, 1)], [(2, 0)], [(3, 1)], [(4, 0)], [(5, 1)], [(6, 0)]]
   \<and> (\<exists>a. snd (train_loop toy_env ((toy_params False 3)\<lparr>batch_size := 1\<rparr>)
                 [[(0, 0)], [(1, 1)], [(2, 0)], [(3, 1)], [(4, 0)], [(5, 1)], [(6, 0)]]
                 (scheduler_step
                    (init_state toy_env ((toy_params False 3)\<lparr>batch_size := 1\<rparr>) Map.empty))
                 accum0) = Inr a
          \<and> trues a = [Arr0 0, Arr0 1, Arr0 0, Arr0 1, Arr0 0, Arr0 1, Arr0 0]
          \<and> np_concatenate (trues a) = Inl ValueError)
   \<and> snd (train_batch toy_env ((toy_params False 3)\<lparr>batch_size := 1\<rparr>)
            \<lparr>samples = dataset_loader toy_env TrainP, bsize = 1, drop_last = True\<rparr> 0
            (init_state toy_env ((toy_params False 3)\<lparr>batch_size := 1\<rparr>) Map.empty))
     = Inl ValueError
   \<and> validation_loader_of toy_env ((toy_params False 3)\<lparr>test_batch_size := 4\<rparr>)
     = Inr \<lparr>samples = dataset_loader toy_env ValidationP, bsize = 4, drop_last = False\<rparr>
   \<and> iterate (sampler toy_env ValidationP 0)
        \<lparr>samples = dataset_loader toy_env ValidationP, bsize = 4, drop_last = False\<rparr>
     = [[(7, 1), (8, 0), (9, 0), (10, 0)], [(11, 1)]]
   \<and> (\<exists>a. snd (val_loop toy_env [[(7, 1), (8, 0), (9, 0), (10, 0)], [(11, 1)]]
                 (init_state toy_env ((toy_params False 3)\<lparr>test_batch_size := 4\<rparr>) Map.empty)
                 accum0) = Inr a
          \<and> trues a = [Arr1 [1, 0, 0, 0], Arr0 1]
          \<and> np_concatenate (trues a) = Inl ValueError)
   \<and> snd (epoch_body toy_env ((toy_params False 3)\<lparr>test_batch_size := 4\<rparr>)
            \<lparr>samples = dataset_loader toy_env TrainP, bsize = 2, drop_last = True\<rparr>
            \<lparr>samples = dataset_loader toy_env ValidationP, bsize = 4, drop_last = False\<rparr> 0
            (init_state toy_env ((toy_params False 3)\<lparr>test_batch_size := 4\<rparr>) Map.empty))
     = Inl ValueError"
  by (simp add: toy_eval)

text \<open>
  Claim C6. The claim is about every epoch of a run that is not a dry run. The run of
  the small example with three epochs and test batch size 4 is not a dry run; its first
  epoch goes through the three training batches and through both validation batches, of
  four samples and of one, and raises a \<^verbatim>\<open>ValueError\<close> where it concatenates the label
  arrays, before the checkpoint is written: the run raises, has saved nothing, and has
  written no file.
\<close>

theorem epoch_raises_before_checkpoint:
  "\<not> dry_ryn ((toy_params False 3)\<lparr>test_batch_size := 4\<rparr>)
   \<and> epochs ((toy_params False 3)\<lparr>test_batch_size := 4\<rparr>) = 3
   \<and> snd (train toy_env ((toy_params False 3)\<lparr>test_batch_size := 4\<rparr>) Map.empty)
     = Inl ValueError
   \<and> train_batches
        (trace (fst (train toy_env ((toy_params False 3)\<lparr>test_batch_size := 4\<rparr>) Map.empty)))
     = [[(0, 0), (1, 1)], [(2, 0), (3, 1)], [(4, 0), (5, 1)]]
   \<and> val_batches
        (trace (fst (train toy_env ((toy_params False 3)\<lparr>test_batch_size := 4\<rparr>) Map.empty)))
     = [[(7, 1), (8, 0), (9, 0), (10, 0)], [(11, 1)]]
   \<and> filter is_save
        (trace (fst (train toy_env ((toy_params False 3)\<lparr>test_batch_size := 4\<rparr>) Map.empty)))
     = []
   \<and> files (fst (train toy_env ((toy_params False 3)\<lparr>test_batch_size := 4\<rparr>) Map.empty))
        (checkpoint_path ((toy_params False 3)\<lparr>test_batch_size := 4\<rparr>))
     = None"
  by (simp add: toy_eval upt_rec [of _ "numeral _"])

text \<open>
  Claim C9. The claim is about both call modes of \<^verbatim>\<open>test\<close>. On the five test samples
  of the small example with test batch size 4, the loader keeps the last batch of one
  sample, and \<^verbatim>\<open>test\<close> goes through both batches and raises a \<^verbatim>\<open>ValueError\<close> where it
  concatenates the label arrays, with the best model as with a given state: it
  returns no pair, and writes no summary line.
\<close>

theorem test_raises_on_one_sample_batch:
  "test_loader_of toy_env ((toy_params False 3)\<lparr>test_batch_size := 4\<rparr>)
     = Inr \<lparr>samples = dataset_loader toy_env TestP, bsize = 4, drop_last = False\<rparr>
   \<and> test toy_env ((toy_params False 3)\<lparr>test_batch_size := 4\<rparr>) None
        [best_model_path \<mapsto> 0]
     = ([Load best_model_path, TestBatch [(12, 0), (13, 1), (14, 1), (15, 0)],
         TestBatch [(16, 1)]],
        Inl ValueError)
   \<and> test toy_env ((toy_params False 3)\<lparr>test_batch_size := 4\<rparr>) (Some ''w.t7'')
        [''w.t7'' \<mapsto> 1]
     = ([Load ''w.t7'', TestBatch [(12, 0), (13, 1), (14, 1), (15, 0)], TestBatch [(16, 1)]],
        Inl ValueError)
   \<and> np_concatenate [squeeze (map snd [(12 :: nat, 0 :: int), (13, 1), (14, 1), (15, 0)]),
        squeeze (map snd [(16 :: nat, 1 :: int)])] = Inl ValueError"
  by (simp add: toy_eval test_def)

end
